(* ===== verification/Prelude.thy ===== *)
theory Prelude
  imports Complex_Main "HOL-Library.Word" "HOL-Library.Log_Nat" "HOL-Library.Multiset"
begin

text \<open>
  Shared vocabulary of the development: Go's fixed-width integers, \<^verbatim>\<open>time.Time\<close> and
  \<^verbatim>\<open>time.Duration\<close>, results with errors, decimal printing, and the generic lemmas on words,
  lists and options that the component theories use.

  \<^item> \<^verbatim>\<open>int32\<close> is \<^typ>\<open>32 word\<close> and \<^verbatim>\<open>time.Duration\<close> is \<^typ>\<open>64 word\<close>: addition,
    subtraction and multiplication wrap as they do in Go, and every comparison goes through
    \<^term>\<open>sint\<close> (the signed orders of the Word library).
  \<^item> \<^verbatim>\<open>time.Time\<close> is the wall-clock reading in nanoseconds since the Unix epoch, an
    \<^typ>\<open>int\<close>; Go's zero time (year 1) is the constant \<open>zero_time\<close>, and \<^verbatim>\<open>t.Sub(u)\<close>
    saturates at the ends of the 64-bit range.
  \<^item> Go's \<^verbatim>\<open>int\<close> (64 bits) only carries lengths, indices and configured sizes in this
    program; it is \<^typ>\<open>int\<close> (\<^typ>\<open>nat\<close> for lengths), and where a conversion to a narrower
    type is made it is written out.
\<close>

named_theorems i32_arith "signed reading of 32-bit arithmetic"
named_theorems clamp_bounds "results of saturating and clamping operations"

type_synonym int32 = "32 word"
type_synonym duration = "64 word"
type_synonym time = int

section \<open>Errors as values\<close>

type_synonym ('e, 'a) result = "'e + 'a"

abbreviation Err :: "'e \<Rightarrow> ('e, 'a) result" where "Err \<equiv> Inl"
abbreviation Ok :: "'a \<Rightarrow> ('e, 'a) result" where "Ok \<equiv> Inr"

definition is_ok :: "('e, 'a) result \<Rightarrow> bool" where
  "is_ok r \<longleftrightarrow> (case r of Inl _ \<Rightarrow> False | Inr _ \<Rightarrow> True)"

lemma is_ok_simps [simp]: "is_ok (Inr a)" "\<not> is_ok (Inl e)"
  by (simp_all add: is_ok_def)

lemma is_ok_iff: "is_ok r \<longleftrightarrow> (\<exists>a. r = Inr a)"
  by (cases r) simp_all

section \<open>Signed 32-bit integers\<close>

abbreviation MaxInt32 :: int where "MaxInt32 \<equiv> 2147483647"
abbreviation MinInt32 :: int where "MinInt32 \<equiv> - 2147483648"
abbreviation MaxInt64 :: int where "MaxInt64 \<equiv> 9223372036854775807"
abbreviation MinInt64 :: int where "MinInt64 \<equiv> - 9223372036854775808"

definition i32 :: "int \<Rightarrow> int32" where "i32 n = word_of_int n"

definition in_i32 :: "int \<Rightarrow> bool" where "in_i32 n \<longleftrightarrow> MinInt32 \<le> n \<and> n \<le> MaxInt32"

lemma sint32_ge [simp]: "MinInt32 \<le> sint (w :: int32)"
  using sint_ge [of w] by simp

lemma sint32_le [simp]: "sint (w :: int32) \<le> MaxInt32"
  using sint_lt [of w] by simp

lemma sint32_small: "\<bar>sint (w :: int32)\<bar> \<le> 2 ^ 52"
proof -
  have "sint w \<le> 4503599627370496 \<and> - sint w \<le> 4503599627370496"
    using sint32_ge [of w] sint32_le [of w] by linarith
  then show ?thesis by (simp add: abs_le_iff)
qed

lemma sint64_ge [simp]: "MinInt64 \<le> sint (w :: duration)"
  using sint_ge [of w] by simp

lemma sint64_le [simp]: "sint (w :: duration) \<le> MaxInt64"
  using sint_lt [of w] by simp

lemma sint_i32 [i32_arith]: "in_i32 n \<Longrightarrow> sint (i32 n) = n"
  by (simp add: i32_def in_i32_def sint_sbintrunc' signed_take_bit_int_eq_self)

lemma i32_sint [simp]: "i32 (sint w) = w"
  by (simp add: i32_def)

text \<open>Keep \<^term>\<open>of_int (sint w)\<close> as it is written in the model.\<close>

declare of_int_sint [simp del]

lemma sint_add32 [i32_arith]:
  "in_i32 (sint a + sint b) \<Longrightarrow> sint (a + b :: int32) = sint a + sint b"
  by (simp add: in_i32_def sint_word_add signed_take_bit_int_eq_self)

lemma sint_sub32 [i32_arith]:
  "in_i32 (sint a - sint b) \<Longrightarrow> sint (a - b :: int32) = sint a - sint b"
  by (simp add: in_i32_def sint_word_diff signed_take_bit_int_eq_self)

text \<open>The size of a replica range that admission lets through does not wrap.\<close>

lemma range_exact:
  assumes "1 \<le> sint mn" and "sint mn < sint mx"
  shows "sint (mx - mn :: int32) = sint mx - sint mn"
proof (rule sint_sub32)
  show "in_i32 (sint mx - sint mn)"
    unfolding in_i32_def using assms sint32_le [of mx] by linarith
qed

lemma sint_add32_overflow:
  assumes "MaxInt32 < sint a + sint (b :: int32)"
  shows "sint (a + b) = sint a + sint b - 4294967296"
proof -
  let ?s = "sint a + sint b"
  have "sint (a + b) = (?s + 2147483648) mod 4294967296 - 2147483648"
    by (simp add: sint_word_add signed_take_bit_eq_take_bit_shift take_bit_eq_mod)
  also have "(?s + 2147483648) mod 4294967296 = (?s - 2147483648) mod 4294967296"
    using mod_add_self2 [of "?s - 2147483648" 4294967296] by (simp add: add.commute)
  also have "\<dots> = ?s - 2147483648"
    using assms sint32_le [of a] sint32_le [of b] by (intro mod_pos_pos_trivial) linarith+
  finally show ?thesis by simp
qed

lemma sint_eq_iff32: "sint (a :: int32) = sint b \<longleftrightarrow> a = b"
proof
  assume "sint a = sint b"
  then have "i32 (sint a) = i32 (sint b)" by simp
  then show "a = b" by simp
qed simp

lemmas signed_less = word_sless_alt and signed_le = word_sle_eq

text \<open>\<^verbatim>\<open>clampInt32\<close>-style narrowing of a 64-bit value used at several sites of the code.\<close>

definition sat_i32 :: "int \<Rightarrow> int32" where
  "sat_i32 v = (if v > MaxInt32 then i32 MaxInt32 else if v < MinInt32 then i32 MinInt32 else i32 v)"

lemma sint_sat_i32 [clamp_bounds]: "sint (sat_i32 v) = max MinInt32 (min MaxInt32 v)"
  by (auto simp: sat_i32_def in_i32_def i32_arith)

section \<open>Durations and instants\<close>

abbreviation ns_Second :: int where "ns_Second \<equiv> 1000000000"
abbreviation ns_Minute :: int where "ns_Minute \<equiv> 60000000000"
abbreviation ns_Hour :: int where "ns_Hour \<equiv> 3600000000000"

definition Second :: duration where "Second = word_of_int ns_Second"
definition Minute :: duration where "Minute = word_of_int ns_Minute"
definition Hour :: duration where "Hour = word_of_int ns_Hour"

text \<open>\<^verbatim>\<open>time.Duration(v) * unit\<close> for an \<^verbatim>\<open>int32\<close> count: a wrapping 64-bit product.\<close>

definition Duration_of_i32 :: "int32 \<Rightarrow> duration" where
  "Duration_of_i32 v = word_of_int (sint v)"

lemma sint_Duration_of_i32 [simp]: "sint (Duration_of_i32 v) = sint v"
proof -
  have "MinInt64 \<le> sint v \<and> sint v \<le> MaxInt64"
    using sint32_ge [of v] sint32_le [of v] by linarith
  then have "signed_take_bit 63 (sint v) = sint v"
    by (intro signed_take_bit_int_eq_self) simp_all
  then show ?thesis
    using sint_sbintrunc' [of "sint v", where 'a = 64] by (simp add: Duration_of_i32_def)
qed

lemma sint_mul64:
  "MinInt64 \<le> sint a * sint b \<Longrightarrow> sint a * sint b \<le> MaxInt64 \<Longrightarrow>
   sint (a * b :: duration) = sint a * sint b"
  by (simp add: sint_word_mult signed_take_bit_int_eq_self)

lemma sint_units [simp]:
  "sint Second = ns_Second" "sint Minute = ns_Minute" "sint Hour = ns_Hour"
  by (simp_all add: Second_def Minute_def Hour_def)

text \<open>An \<^verbatim>\<open>int32\<close> number of seconds always fits a \<^verbatim>\<open>time.Duration\<close>.\<close>

lemma sint_seconds [simp]: "sint (Duration_of_i32 v * Second) = sint v * ns_Second"
proof -
  have "MinInt64 \<le> sint v * ns_Second \<and> sint v * ns_Second \<le> MaxInt64"
    using sint32_ge [of v] sint32_le [of v] by linarith
  then show ?thesis by (simp add: sint_mul64)
qed

text \<open>Integer division of a duration truncates towards zero in Go.\<close>

definition trunc_div :: "int \<Rightarrow> int \<Rightarrow> int" where
  "trunc_div d unit =
     (let q = \<bar>d\<bar> div \<bar>unit\<bar> in if (d < 0) = (unit < 0) then q else - q)"

lemma trunc_div_mult_cancel [simp]:
  assumes "0 < unit"
  shows "trunc_div (n * unit) unit = n"
proof -
  have "\<bar>n * unit\<bar> div \<bar>unit\<bar> = \<bar>n\<bar>" using assms by (simp only: abs_mult) simp
  moreover have "n * unit < 0 \<longleftrightarrow> n < 0" using assms by (simp add: mult_less_0_iff)
  ultimately show ?thesis using assms by (simp only: trunc_div_def Let_def) simp
qed

text \<open>The zero \<^verbatim>\<open>time.Time\<close>: January 1, year 1, 00:00:00 UTC.\<close>

definition zero_time :: time where "zero_time = - 62135596800 * ns_Second"

definition IsZero :: "time \<Rightarrow> bool" where "IsZero t \<longleftrightarrow> t = zero_time"

definition Sub :: "time \<Rightarrow> time \<Rightarrow> duration" where
  "Sub t u = word_of_int (max MinInt64 (min MaxInt64 (t - u)))"

lemma sint_Sub [simp]: "sint (Sub t u) = max MinInt64 (min MaxInt64 (t - u))"
  by (simp add: Sub_def sint_sbintrunc' signed_take_bit_int_eq_self)

definition Add :: "time \<Rightarrow> duration \<Rightarrow> time" where
  "Add t d = t + sint d"

definition After :: "time \<Rightarrow> time \<Rightarrow> bool" where "After t u \<longleftrightarrow> t > u"

definition Hour_UTC :: "time \<Rightarrow> int" where "Hour_UTC t = (t div ns_Hour) mod 24"
definition Minute_UTC :: "time \<Rightarrow> int" where "Minute_UTC t = (t div ns_Minute) mod 60"

lemma Hour_UTC_range: "0 \<le> Hour_UTC t \<and> Hour_UTC t \<le> 23"
proof -
  have "(t div ns_Hour) mod 24 < 24" by simp
  then show ?thesis by (simp add: Hour_UTC_def)
qed

lemma Minute_UTC_range: "0 \<le> Minute_UTC t \<and> Minute_UTC t \<le> 59"
proof -
  have "(t div ns_Minute) mod 60 < 60" by simp
  then show ?thesis by (simp add: Minute_UTC_def)
qed

section \<open>Lists\<close>

text \<open>The last \<open>n\<close> elements of a list.\<close>

definition lastn :: "nat \<Rightarrow> 'a list \<Rightarrow> 'a list" where
  "lastn n xs = drop (length xs - n) xs"

lemma length_lastn [simp]: "length (lastn n xs) = min n (length xs)"
  by (simp add: lastn_def)

lemma lastn_id [simp]: "length xs \<le> n \<Longrightarrow> lastn n xs = xs"
  by (simp add: lastn_def)

lemma lastn_append_lastn: "lastn n (lastn n xs @ ys) = lastn n (xs @ ys)"
  by (cases "length xs \<le> n") (auto simp: lastn_def add.commute)

text \<open>The position of a value in a sorted list from the number of smaller ones.\<close>

lemma sorted_nth_by_count:
  assumes "sorted xs" "i < length xs"
    and less: "length (filter (\<lambda>x. x < v) xs) \<le> i"
    and le: "i < length (filter (\<lambda>x. x \<le> v) xs)"
  shows "xs ! i = v"
proof (rule antisym)
  show "xs ! i \<le> v"
  proof (rule ccontr)
    assume "\<not> xs ! i \<le> v"
    then have "v < xs ! j" if "i \<le> j" "j < length xs" for j
      using sorted_nth_mono [OF assms(1) that] by simp
    then have "{j. j < length xs \<and> xs ! j \<le> v} \<subseteq> {..<i}"
      by (auto simp flip: not_le)
    then have "card {j. j < length xs \<and> xs ! j \<le> v} \<le> i"
      using card_mono [of "{..<i}"] by fastforce
    then show False using le by (simp add: length_filter_conv_card)
  qed
  show "v \<le> xs ! i"
  proof (rule ccontr)
    assume "\<not> v \<le> xs ! i"
    then have "xs ! j < v" if "j \<le> i" for j
      using sorted_nth_mono [OF assms(1) that assms(2)] by simp
    then have "{..i} \<subseteq> {j. j < length xs \<and> xs ! j < v}"
      using assms(2) by auto
    then have "card {..i} \<le> card {j. j < length xs \<and> xs ! j < v}"
      by (intro card_mono) simp_all
    then show False using less by (simp add: length_filter_conv_card)
  qed
qed

lemma length_filter_sort [simp]: "length (filter P (sort xs)) = length (filter P xs)"
  by (metis mset_filter mset_sort size_mset)

end
