(* ===== verification/Float64.thy ===== *)
theory Float64
  imports Prelude
begin

text \<open>
  Go's \<^verbatim>\<open>float64\<close>: IEEE 754 binary64 with round-to-nearest-even, executable.

  A value is not-a-number, an infinity or a finite number; a finite number is carried as the
  rational it denotes, and every arithmetic operation computes the exact rational result and
  rounds it once with \<open>rnd\<close> (53 significant bits, gradual underflow below \<open>2\<^sup>-\<^sup>1\<^sup>0\<^sup>2\<^sup>2\<close>,
  overflow to the infinities). The square root is rounded correctly as well, through an
  integer square root. The two zeros are one value: the sign of a zero can be seen only by
  dividing by it or printing it, and no divisor of this program is a negative zero.
  The compiler's freedom to fuse a multiplication and an addition, which some architectures
  other than amd64 use, is not taken.

  What Go leaves to the platform (converting a float outside the range of the target integer
  type) and the library logarithm, which is not correctly rounded and has assembly versions,
  are fields of the record \<open>go_platform\<close>, an argument of the definitions that use them.

  The interface to the rounding, the locale \<open>rounding\<close>, has the laws the components rely
  on (monotone, exact on small integers, keeping zero); it is interpreted by \<open>rnd\<close>.
\<close>

section \<open>Rounding a rational\<close>

definition pow2 :: "int \<Rightarrow> rat" where
  "pow2 e = (if 0 \<le> e then 2 ^ nat e else 1 / 2 ^ nat (- e))"

text \<open>\<open>\<lfloor>log\<^sub>2 x\<rfloor>\<close> of a positive rational, from the bit lengths of its quotient.\<close>

definition ilog2 :: "rat \<Rightarrow> int" where
  "ilog2 x = (case quotient_of x of (n, d) \<Rightarrow>
     let k = bitlen n - bitlen d in if pow2 k \<le> x then k else k - 1)"

definition round_even :: "rat \<Rightarrow> int" where
  "round_even y = (let f = \<lfloor>y\<rfloor>; r = y - of_int f in
     if r < 1 / 2 then f else if r > 1 / 2 then f + 1 else if even f then f else f + 1)"

text \<open>The weight of the last bit of the significand at \<open>x\<close>.\<close>

definition ulp :: "rat \<Rightarrow> rat" where
  "ulp x = pow2 (max (ilog2 \<bar>x\<bar>) (- 1022) - 52)"

definition rnd_rat :: "rat \<Rightarrow> rat" where
  "rnd_rat x = (if x = 0 then 0 else of_int (round_even (x / ulp x)) * ulp x)"

lemma pow2_pos [simp]: "0 < pow2 e"
  by (simp add: pow2_def)

lemma pow2_nonzero [simp]: "pow2 e \<noteq> 0"
  using pow2_pos [of e] by linarith

lemma pow2_nonneg [simp]: "0 \<le> pow2 e"
  using pow2_pos [of e] by linarith

lemma pow2_of_nat [simp]: "pow2 (int n) = 2 ^ n"
  by (simp add: pow2_def)

lemma pow2_powi: "pow2 e = 2 powi e"
  by (simp add: pow2_def power_int_def inverse_eq_divide power_divide)

lemma pow2_add: "pow2 (a + b) = pow2 a * pow2 b"
  by (simp add: pow2_powi power_int_add)

lemma pow2_1 [simp]: "pow2 1 = 2" and pow2_0 [simp]: "pow2 0 = 1"
  by (simp_all add: pow2_def)

lemma pow2_mono: "a \<le> b \<Longrightarrow> pow2 a \<le> pow2 b"
  by (simp add: pow2_powi power_int_increasing)

lemma pow2_mono_iff [simp]: "pow2 a \<le> pow2 b \<longleftrightarrow> a \<le> b"
proof
  assume "pow2 a \<le> pow2 b"
  moreover have "pow2 b < pow2 a" if "b < a"
    using that by (simp add: pow2_powi power_int_strict_increasing)
  ultimately show "a \<le> b" by (meson linorder_not_less)
qed (rule pow2_mono)

lemma pow2_less_iff [simp]: "pow2 a < pow2 b \<longleftrightarrow> a < b"
  using pow2_mono_iff [of b a] by linarith

lemma pow2_diff: "pow2 (a - b) = pow2 a / pow2 b"
  using pow2_add [of "a - b" b] by (simp add: field_simps)

lemma pow2_quotient:
  assumes "e \<le> k"
  shows "pow2 k / pow2 e = of_int (2 ^ nat (k - e))"
proof -
  have "pow2 k / pow2 e = pow2 (k - e)" by (rule pow2_diff [symmetric])
  also have "\<dots> = of_int (2 ^ nat (k - e))" using assms by (simp add: pow2_def)
  finally show ?thesis .
qed

lemma bitlen_rat_bounds:
  assumes "0 < n"
  shows "pow2 (bitlen n - 1) \<le> of_int n" and "of_int n < pow2 (bitlen n)"
proof -
  have b: "2 ^ nat (bitlen n - 1) \<le> n \<and> n < 2 ^ nat (bitlen n)"
    using bitlen_bounds assms by blast
  have l: "0 < bitlen n"
    using assms bitlen_nonneg [of n] bitlen_eq_zero_iff [of n] by linarith
  have "pow2 (bitlen n - 1) = of_int (2 ^ nat (bitlen n - 1))" and
    "pow2 (bitlen n) = of_int (2 ^ nat (bitlen n))"
    using l by (simp_all add: pow2_def)
  then show "pow2 (bitlen n - 1) \<le> of_int n" and "of_int n < pow2 (bitlen n)"
    using b by (simp_all only: of_int_le_iff of_int_less_iff)
qed

lemma ilog2_bounds:
  assumes "0 < x"
  shows "pow2 (ilog2 x) \<le> x" and "x < pow2 (ilog2 x + 1)"
proof -
  obtain n d where q: "quotient_of x = (n, d)" by (cases "quotient_of x")
  have d: "0 < d" using q quotient_of_denom_pos by blast
  have x: "x = of_int n / of_int d" using q quotient_of_div by blast
  have n: "0 < n" using assms d x by (simp add: zero_less_divide_iff)
  let ?k = "bitlen n - bitlen d"
  have xd: "x * of_int d = of_int n" using x d by simp
  have "pow2 (?k - 1) * pow2 (bitlen d) = pow2 (bitlen n - 1)"
    by (simp flip: pow2_add add: algebra_simps)
  also have "\<dots> \<le> x * of_int d" using bitlen_rat_bounds(1) [OF n] xd by simp
  also have "\<dots> \<le> x * pow2 (bitlen d)"
    using bitlen_rat_bounds(2) [OF d] assms by simp
  finally have lo: "pow2 (?k - 1) \<le> x" by simp
  have "x * pow2 (bitlen d - 1) \<le> x * of_int d"
    using bitlen_rat_bounds(1) [OF d] assms by simp
  also have "\<dots> < pow2 (bitlen n)" using bitlen_rat_bounds(2) [OF n] xd by simp
  also have "pow2 (bitlen n) = pow2 (?k + 1) * pow2 (bitlen d - 1)"
    by (simp flip: pow2_add add: algebra_simps)
  finally have hi: "x < pow2 (?k + 1)" by simp
  have il: "ilog2 x = (if pow2 ?k \<le> x then ?k else ?k - 1)"
    by (simp add: ilog2_def q Let_def)
  show "pow2 (ilog2 x) \<le> x" using lo il by simp
  show "x < pow2 (ilog2 x + 1)" using hi il by simp
qed

lemma ilog2_le_iff:
  assumes "0 < x"
  shows "k \<le> ilog2 x \<longleftrightarrow> pow2 k \<le> x"
proof
  assume "k \<le> ilog2 x"
  then show "pow2 k \<le> x" using pow2_mono ilog2_bounds(1) [OF assms] order_trans by blast
next
  assume "pow2 k \<le> x"
  then have "pow2 k < pow2 (ilog2 x + 1)" using ilog2_bounds(2) [OF assms] by linarith
  then show "k \<le> ilog2 x" by simp
qed

lemma ilog2_mono: "0 < x \<Longrightarrow> x \<le> y \<Longrightarrow> ilog2 x \<le> ilog2 y"
  using ilog2_le_iff [of y "ilog2 x"] ilog2_bounds(1) [of x] by simp

subsection \<open>Rounding to an integer\<close>

lemma round_even_of_int [simp]: "round_even (of_int n) = n"
  by (simp add: round_even_def Let_def)

lemma round_even_bounds:
  "of_int (round_even y) - 1 / 2 \<le> y" "y \<le> of_int (round_even y) + 1 / 2"
  unfolding round_even_def Let_def using of_int_floor_le [of y] floor_correct [of y]
  by (simp_all split: if_splits) linarith+

lemma round_even_mono:
  assumes "x \<le> y"
  shows "round_even x \<le> round_even y"
proof (rule ccontr)
  assume "\<not> round_even x \<le> round_even y"
  then have gt: "round_even y + 1 \<le> round_even x" by linarith
  note round_even_bounds(1) [of x] round_even_bounds(2) [of y]
  moreover have "of_int (round_even y + 1) \<le> (of_int (round_even x) :: rat)"
    using gt by (simp only: of_int_le_iff)
  ultimately have "x = y" using assms by simp
  then show False using gt by simp
qed

lemma round_even_le_int: "y \<le> of_int n \<Longrightarrow> round_even y \<le> n"
  using round_even_mono [of y "of_int n"] by simp

lemma round_even_ge_int: "of_int n \<le> y \<Longrightarrow> n \<le> round_even y"
  using round_even_mono [of "of_int n" y] by simp

subsection \<open>Rounding to 53 bits\<close>

lemma ulp_pos [simp]: "0 < ulp x"
  by (simp add: ulp_def)

lemma ulp_nonzero [simp]: "ulp x \<noteq> 0"
  using ulp_pos [of x] by linarith

lemma ulp_uminus [simp]: "ulp (- x) = ulp x"
  by (simp add: ulp_def)

lemma rnd_rat_0 [simp]: "rnd_rat 0 = 0"
  by (simp add: rnd_rat_def)

lemma rnd_rat_nonzero: "x \<noteq> 0 \<Longrightarrow> rnd_rat x = of_int (round_even (x / ulp x)) * ulp x"
  by (simp add: rnd_rat_def)

lemma round_even_uminus: "round_even (- y) = - round_even y"
proof (cases "y = of_int \<lfloor>y\<rfloor>")
  case True
  then show ?thesis by (metis of_int_minus round_even_of_int)
next
  case False
  then have f: "\<lfloor>- y\<rfloor> = - \<lfloor>y\<rfloor> - 1"
    by (metis ceiling_def ceiling_altdef minus_minus add.inverse_inverse diff_conv_add_uminus minus_add_distrib)
  show ?thesis
    unfolding round_even_def Let_def f by (auto simp: algebra_simps)
qed

lemma rnd_rat_uminus: "rnd_rat (- x) = - rnd_rat x"
proof (cases "x = 0")
  case False
  have "- x / ulp x = - (x / ulp x)" by simp
  then show ?thesis
    using False by (simp only: rnd_rat_nonzero neg_equal_0_iff_equal not_False_eq_True
      ulp_uminus round_even_uminus of_int_minus mult_minus_left)
qed simp

lemma rnd_rat_nonneg: "0 \<le> x \<Longrightarrow> 0 \<le> rnd_rat x"
proof (cases "x = 0")
  case False
  assume "0 \<le> x"
  then have "0 \<le> round_even (x / ulp x)"
    by (intro round_even_ge_int) (simp add: less_imp_le)
  then show ?thesis
    using False by (simp add: rnd_rat_nonzero less_imp_le)
qed simp

text \<open>A power of two that is a multiple of the last bit bounds the rounded value from both sides.\<close>

lemma rnd_rat_le_pow2:
  assumes "0 < x" "x \<le> pow2 k" "- 1074 \<le> k"
  shows "rnd_rat x \<le> pow2 k"
proof -
  let ?e = "max (ilog2 x) (- 1022) - 52"
  have u: "ulp x = pow2 ?e" using assms by (simp add: ulp_def)
  have "pow2 (ilog2 x) \<le> pow2 k" using ilog2_bounds(1) [OF assms(1)] assms(2) by linarith
  then have "?e \<le> k" using assms(3) by simp
  then have q: "pow2 k / ulp x = of_int (2 ^ nat (k - ?e))"
    unfolding u by (rule pow2_quotient)
  have "x / ulp x \<le> pow2 k / ulp x" using assms(2) by (simp add: divide_right_mono less_imp_le)
  then have "round_even (x / ulp x) \<le> 2 ^ nat (k - ?e)"
    unfolding q by (rule round_even_le_int)
  then have "of_int (round_even (x / ulp x)) \<le> pow2 k / ulp x"
    unfolding q by (simp only: of_int_le_iff)
  then show ?thesis
    using assms(1) by (simp add: rnd_rat_nonzero field_simps)
qed

lemma rnd_rat_ge_pow2:
  assumes "pow2 k \<le> x" "- 1022 \<le> k"
  shows "pow2 k \<le> rnd_rat x"
proof -
  have x: "0 < x" using assms(1) pow2_pos [of k] by linarith
  let ?e = "max (ilog2 x) (- 1022)"
  have k: "k \<le> ilog2 x" using assms(1) ilog2_le_iff [OF x] by simp
  then have e: "?e = ilog2 x" using assms(2) by simp
  have u: "ulp x = pow2 (ilog2 x - 52)" using x e by (simp add: ulp_def)
  have q: "pow2 (ilog2 x) / ulp x = of_int (2 ^ 52)"
    using pow2_quotient [of "ilog2 x - 52" "ilog2 x"] by (simp add: u)
  have "pow2 (ilog2 x) / ulp x \<le> x / ulp x"
    using ilog2_bounds(1) [OF x] by (simp add: divide_right_mono less_imp_le)
  then have "2 ^ 52 \<le> round_even (x / ulp x)"
    unfolding q by (rule round_even_ge_int)
  then have "pow2 (ilog2 x) / ulp x \<le> of_int (round_even (x / ulp x))"
    unfolding q by (simp only: of_int_le_iff)
  then have "pow2 (ilog2 x) \<le> rnd_rat x"
    using x by (simp add: rnd_rat_nonzero field_simps)
  then show ?thesis using pow2_mono [OF k] by linarith
qed

lemma rnd_rat_mono_pos:
  assumes "0 < x" "x \<le> y"
  shows "rnd_rat x \<le> rnd_rat y"
proof (cases "ulp x = ulp y")
  case True
  have "x / ulp y \<le> y / ulp y" using assms(2) by (simp add: divide_right_mono less_imp_le)
  then have "round_even (x / ulp y) \<le> round_even (y / ulp y)" by (rule round_even_mono)
  then show ?thesis
    using assms True by (simp add: rnd_rat_nonzero mult_right_mono less_imp_le)
next
  case False
  have y: "0 < y" using assms by simp
  have ne: "max (ilog2 x) (- 1022) \<noteq> max (ilog2 y) (- 1022)"
    using False assms(1) y by (auto simp: ulp_def)
  let ?k = "max (ilog2 x) (- 1022) + 1"
  have k: "?k \<le> ilog2 y" "- 1022 \<le> ?k"
    using ne ilog2_mono [OF assms] by auto
  have "pow2 (ilog2 x + 1) \<le> pow2 ?k" by simp
  then have "x \<le> pow2 ?k" using ilog2_bounds(2) [OF assms(1)] by linarith
  then have "rnd_rat x \<le> pow2 ?k" using assms(1) k by (intro rnd_rat_le_pow2) auto
  also have "pow2 ?k \<le> rnd_rat y"
    using k y by (intro rnd_rat_ge_pow2) (simp_all add: ilog2_le_iff flip: ilog2_le_iff)
  finally show ?thesis .
qed

lemma rnd_rat_mono: "x \<le> y \<Longrightarrow> rnd_rat x \<le> rnd_rat y"
proof -
  assume xy: "x \<le> y"
  consider "0 < x" | "x \<le> 0" "0 \<le> y" | "y < 0" using xy by linarith
  then show ?thesis
  proof cases
    case 1
    then show ?thesis using xy by (rule rnd_rat_mono_pos)
  next
    case 2
    then have "0 \<le> rnd_rat (- x)" "0 \<le> rnd_rat y" by (auto intro: rnd_rat_nonneg)
    then show ?thesis by (simp add: rnd_rat_uminus)
  next
    case 3
    then have "rnd_rat (- y) \<le> rnd_rat (- x)" using xy by (intro rnd_rat_mono_pos) auto
    then show ?thesis by (simp add: rnd_rat_uminus)
  qed
qed

text \<open>A number with at most 53 significant bits is its own rounding.\<close>

definition representable :: "rat \<Rightarrow> bool" where
  "representable x \<longleftrightarrow> x = of_int \<lfloor>x / ulp x\<rfloor> * ulp x"

lemma representableI: "x / ulp x = of_int j \<Longrightarrow> representable x"
  unfolding representable_def by (metis floor_of_int nonzero_divide_eq_eq ulp_nonzero)

lemma rnd_rat_representable: "representable x \<Longrightarrow> rnd_rat x = x"
proof (cases "x = 0")
  case False
  assume r: "representable x"
  then have "x / ulp x = of_int \<lfloor>x / ulp x\<rfloor>"
    by (simp add: representable_def field_simps)
  then have "of_int (round_even (x / ulp x)) = x / ulp x"
    by (metis round_even_of_int)
  then show ?thesis using False by (simp add: rnd_rat_nonzero)
qed simp

lemma representable_mult:
  assumes "\<bar>m\<bar> \<le> 2 ^ 53" "- 1074 \<le> k"
  shows "representable (of_int m * pow2 k)"
proof (cases "m = 0")
  case True
  then show ?thesis by (simp add: representable_def)
next
  case False
  let ?x = "of_int m * pow2 k :: rat"
  have ax: "\<bar>?x\<bar> = of_int \<bar>m\<bar> * pow2 k" by (simp add: abs_mult)
  have pos: "0 < \<bar>?x\<bar>" using False by simp
  let ?e = "max (ilog2 \<bar>?x\<bar>) (- 1022) - 52"
  have am: "of_int \<bar>m\<bar> \<le> (pow2 53 :: rat)"
    using assms(1) by (simp add: pow2_def flip: of_int_abs)
  show ?thesis
  proof (cases "\<bar>m\<bar> = 2 ^ 53")
    case True
    have "\<bar>?x\<bar> = pow2 (k + 53)" unfolding ax True pow2_add by (simp add: pow2_def)
    then have "k + 53 \<le> ilog2 \<bar>?x\<bar>" "\<not> k + 54 \<le> ilog2 \<bar>?x\<bar>"
      using ilog2_le_iff [OF pos] by simp_all
    then have "ilog2 \<bar>?x\<bar> = k + 53" by linarith
    then have "ulp ?x = pow2 (k + 1)" using assms(2) by (simp add: ulp_def add.commute)
    moreover have "even m" using True by (metis dvd_abs_iff dvd_power zero_less_numeral)
    then obtain j where "m = 2 * j" by (elim evenE)
    ultimately have "?x / ulp ?x = of_int j" by (simp add: pow2_add)
    then show ?thesis by (rule representableI)
  next
    case False
    then have "of_int \<bar>m\<bar> < (pow2 53 :: rat)" using am assms(1)
      by (metis (mono_tags, opaque_lifting) pow2_of_nat of_int_eq_iff of_int_numeral of_int_power of_nat_numeral order_less_le)
    then have "\<bar>?x\<bar> < pow2 (k + 53)" unfolding ax by (simp add: pow2_add mult.commute)
    then have "ilog2 \<bar>?x\<bar> < k + 53"
      using ilog2_le_iff [OF pos, of "k + 53"] by linarith
    then have e: "?e \<le> k" using assms(2) by simp
    have "?x / ulp ?x = of_int m * (pow2 k / pow2 ?e)" by (simp add: ulp_def)
    also have "pow2 k / pow2 ?e = of_int (2 ^ nat (k - ?e))"
      using e by (rule pow2_quotient)
    also have "of_int m * of_int (2 ^ nat (k - ?e)) = of_int (m * 2 ^ nat (k - ?e))" by simp
    finally show ?thesis by (rule representableI)
  qed
qed

lemma representable_of_int: "\<bar>n\<bar> \<le> 2 ^ 53 \<Longrightarrow> representable (of_int n)"
  using representable_mult [of n 0] by simp

lemma rnd_rat_of_int [simp]: "\<bar>n\<bar> \<le> 2 ^ 53 \<Longrightarrow> rnd_rat (of_int n) = of_int n"
  by (intro rnd_rat_representable representable_of_int)

text \<open>A rounded value is representable, so rounding twice is rounding once.\<close>

lemma ulp_quotient_le: "\<bar>x / ulp x\<bar> \<le> of_int (2 ^ 53)"
proof (cases "x = 0")
  case False
  then have "\<bar>x\<bar> < pow2 (ilog2 \<bar>x\<bar> + 1)" using ilog2_bounds(2) [of "\<bar>x\<bar>"] by simp
  also have "\<dots> \<le> pow2 (max (ilog2 \<bar>x\<bar>) (- 1022) - 52 + 53)" by simp
  also have "\<dots> = pow2 53 * ulp x" by (simp only: pow2_add ulp_def mult.commute)
  finally have "\<bar>x\<bar> \<le> 2 ^ 53 * ulp x" by (simp add: pow2_def)
  then show ?thesis using ulp_pos [of x] by (simp add: pos_divide_le_eq)
qed simp

lemma rnd_rat_idem [simp]: "rnd_rat (rnd_rat x) = rnd_rat x"
proof (cases "x = 0")
  case False
  have "x / ulp x \<le> of_int (2 ^ 53)" "of_int (- (2 ^ 53)) \<le> x / ulp x"
    using abs_le_D1 [OF ulp_quotient_le [of x]] abs_le_D2 [OF ulp_quotient_le [of x]] by simp_all
  then have "round_even (x / ulp x) \<le> 2 ^ 53" "- (2 ^ 53) \<le> round_even (x / ulp x)"
    by (simp_all only: round_even_le_int round_even_ge_int)
  then have "representable (of_int (round_even (x / ulp x)) * ulp x)"
    unfolding ulp_def [of x] by (intro representable_mult) (simp_all add: abs_le_iff ulp_def)
  then show ?thesis using rnd_rat_representable rnd_rat_nonzero [OF False] by metis
qed simp

subsection \<open>The laws of a rounding\<close>

locale rounding =
  fixes rd :: "rat \<Rightarrow> rat"
  assumes rd_mono: "x \<le> y \<Longrightarrow> rd x \<le> rd y"
    and rd_int: "\<bar>n\<bar> \<le> 2 ^ 53 \<Longrightarrow> rd (of_int n) = of_int n"
    and rd_uminus: "rd (- x) = - rd x"
begin

lemma rd_0: "rd 0 = 0"
  using rd_int [of 0] by simp

lemma rd_numeral: "numeral k \<le> (2 ^ 53 :: int) \<Longrightarrow> rd (numeral k) = numeral k"
  using rd_int [of "numeral k"] by simp

lemma rd_nonneg: "0 \<le> x \<Longrightarrow> 0 \<le> rd x"
  using rd_mono [of 0 x] rd_0 by simp

lemma rd_nonpos: "x \<le> 0 \<Longrightarrow> rd x \<le> 0"
  using rd_mono [of x 0] rd_0 by simp

lemma rd_le_int: "x \<le> of_int n \<Longrightarrow> \<bar>n\<bar> \<le> 2 ^ 53 \<Longrightarrow> rd x \<le> of_int n"
  using rd_mono [of x "of_int n"] rd_int [of n] by simp

lemma rd_ge_int: "of_int n \<le> x \<Longrightarrow> \<bar>n\<bar> \<le> 2 ^ 53 \<Longrightarrow> of_int n \<le> rd x"
  using rd_mono [of "of_int n" x] rd_int [of n] by simp

text \<open>Rounding never crosses an integer: the ceiling moves by less than one, and only down.\<close>

lemma rd_ceiling:
  assumes "0 \<le> x" "x \<le> 2 ^ 53"
  shows "\<lfloor>x\<rfloor> \<le> \<lceil>rd x\<rceil>" and "\<lceil>rd x\<rceil> \<le> \<lceil>x\<rceil>"
proof -
  have c: "0 \<le> \<lceil>x\<rceil>" "\<lceil>x\<rceil> \<le> 2 ^ 53" "0 \<le> \<lfloor>x\<rfloor>" "\<lfloor>x\<rfloor> \<le> 2 ^ 53"
    using assms by (simp_all add: ceiling_le_iff floor_le_iff)
  have "rd x \<le> of_int \<lceil>x\<rceil>" using c by (intro rd_le_int) simp_all
  then show "\<lceil>rd x\<rceil> \<le> \<lceil>x\<rceil>" by (simp add: ceiling_le_iff)
  have "of_int \<lfloor>x\<rfloor> \<le> rd x" using c by (intro rd_ge_int) simp_all
  then show "\<lfloor>x\<rfloor> \<le> \<lceil>rd x\<rceil>" by (metis ceiling_mono ceiling_of_int)
qed

lemma rd_abs_le: "\<bar>x\<bar> \<le> of_int n \<Longrightarrow> \<bar>n\<bar> \<le> 2 ^ 53 \<Longrightarrow> \<bar>rd x\<bar> \<le> of_int n"
  using rd_le_int [of x n] rd_le_int [of "- x" n] by (simp add: rd_uminus abs_le_iff)

end

interpretation f64: rounding rnd_rat
  by unfold_locales (simp_all add: rnd_rat_mono rnd_rat_uminus)

section \<open>The values and their arithmetic\<close>

datatype float64 = NaN | NInf | Fin rat | PInf

text \<open>The order of \<^verbatim>\<open>sort.Float64s\<close>: not-a-number before every other value. It is the
  \<open>linorder\<close> of the type, so that \<^const>\<open>sort\<close> is Go's sort; the comparisons
  of Go expressions are \<open>flt\<close>, \<open>fle\<close> and \<open>feq\<close> below.\<close>

fun sort_le :: "float64 \<Rightarrow> float64 \<Rightarrow> bool" where
  "sort_le NaN _ = True"
| "sort_le _ NaN = False"
| "sort_le NInf _ = True"
| "sort_le _ NInf = False"
| "sort_le (Fin x) (Fin y) = (x \<le> y)"
| "sort_le (Fin _) PInf = True"
| "sort_le PInf PInf = True"
| "sort_le PInf (Fin _) = False"

instantiation float64 :: linorder
begin
definition less_eq_float64 :: "float64 \<Rightarrow> float64 \<Rightarrow> bool" where
  "less_eq_float64 = sort_le"
definition less_float64 :: "float64 \<Rightarrow> float64 \<Rightarrow> bool" where
  "less_float64 a b = (sort_le a b \<and> a \<noteq> b)"
instance
proof
  fix a b c :: float64
  show "a < b \<longleftrightarrow> a \<le> b \<and> \<not> b \<le> a"
    by (cases a; cases b) (auto simp: less_eq_float64_def less_float64_def)
  show "a \<le> a" by (cases a) (auto simp: less_eq_float64_def)
  show "a \<le> b \<Longrightarrow> b \<le> c \<Longrightarrow> a \<le> c"
    by (cases a; cases b; cases c) (auto simp: less_eq_float64_def)
  show "a \<le> b \<Longrightarrow> b \<le> a \<Longrightarrow> a = b"
    by (cases a; cases b) (auto simp: less_eq_float64_def)
  show "a \<le> b \<or> b \<le> a"
    by (cases a; cases b) (auto simp: less_eq_float64_def)
qed
end

lemma Fin_le_iff [simp]: "Fin x \<le> Fin y \<longleftrightarrow> x \<le> y"
  by (simp add: less_eq_float64_def)

definition rnd :: "rat \<Rightarrow> float64" where
  "rnd x = (let v = rnd_rat x in
     if v = 0 \<or> ilog2 \<bar>v\<bar> < 1024 then Fin v else if 0 < v then PInf else NInf)"

lemma rnd_threshold:
  "rnd x = (if 2 ^ 1024 \<le> rnd_rat x then PInf
     else if rnd_rat x \<le> - (2 ^ 1024) then NInf else Fin (rnd_rat x))"
proof -
  have p: "pow2 1024 = 2 ^ 1024" using pow2_of_nat [of 1024] by simp
  have "1024 \<le> ilog2 \<bar>rnd_rat x\<bar> \<longleftrightarrow> 2 ^ 1024 \<le> \<bar>rnd_rat x\<bar>" if "rnd_rat x \<noteq> 0"
    using ilog2_le_iff [of "\<bar>rnd_rat x\<bar>" 1024] that p by simp
  moreover have "(0 :: rat) < 2 ^ 1024" by (rule zero_less_power) simp
  ultimately show ?thesis unfolding rnd_def Let_def by (cases "0 < rnd_rat x") auto
qed

text \<open>Comparisons of Go expressions: every comparison with not-a-number is false.\<close>

fun flt :: "float64 \<Rightarrow> float64 \<Rightarrow> bool" where
  "flt (Fin x) (Fin y) = (x < y)"
| "flt NInf (Fin _) = True"
| "flt NInf PInf = True"
| "flt (Fin _) PInf = True"
| "flt _ _ = False"

fun fle :: "float64 \<Rightarrow> float64 \<Rightarrow> bool" where
  "fle NaN _ = False"
| "fle _ NaN = False"
| "fle (Fin x) (Fin y) = (x \<le> y)"
| "fle NInf _ = True"
| "fle _ PInf = True"
| "fle _ _ = False"

definition feq :: "float64 \<Rightarrow> float64 \<Rightarrow> bool" where
  "feq a b \<longleftrightarrow> a \<noteq> NaN \<and> a = b"

fun fneg :: "float64 \<Rightarrow> float64" where
  "fneg NaN = NaN" | "fneg NInf = PInf" | "fneg PInf = NInf" | "fneg (Fin x) = Fin (- x)"

fun fadd :: "float64 \<Rightarrow> float64 \<Rightarrow> float64" where
  "fadd (Fin x) (Fin y) = rnd (x + y)"
| "fadd NaN _ = NaN"
| "fadd _ NaN = NaN"
| "fadd PInf NInf = NaN"
| "fadd NInf PInf = NaN"
| "fadd PInf _ = PInf"
| "fadd _ PInf = PInf"
| "fadd NInf _ = NInf"
| "fadd _ NInf = NInf"

definition fsub :: "float64 \<Rightarrow> float64 \<Rightarrow> float64" where
  "fsub a b = fadd a (fneg b)"

definition inf_sgn :: "rat \<Rightarrow> float64" where
  "inf_sgn s = (if s > 0 then PInf else if s < 0 then NInf else NaN)"

fun fsgn :: "float64 \<Rightarrow> rat" where
  "fsgn (Fin x) = sgn x" | "fsgn PInf = 1" | "fsgn NInf = - 1" | "fsgn NaN = 0"

fun fmul :: "float64 \<Rightarrow> float64 \<Rightarrow> float64" where
  "fmul (Fin x) (Fin y) = rnd (x * y)"
| "fmul NaN _ = NaN"
| "fmul _ NaN = NaN"
| "fmul a b = inf_sgn (fsgn a * fsgn b)"

fun fdiv :: "float64 \<Rightarrow> float64 \<Rightarrow> float64" where
  "fdiv (Fin x) (Fin y) = (if y = 0 then inf_sgn x else rnd (x / y))"
| "fdiv NaN _ = NaN"
| "fdiv _ NaN = NaN"
| "fdiv (Fin _) _ = Fin 0"
| "fdiv a (Fin y) = inf_sgn (fsgn a * (if y < 0 then - 1 else 1))"
| "fdiv _ _ = NaN"

fun fabs :: "float64 \<Rightarrow> float64" where
  "fabs (Fin x) = Fin \<bar>x\<bar>" | "fabs NaN = NaN" | "fabs _ = PInf"

text \<open>\<^verbatim>\<open>math.Max\<close>: an infinite argument \<^verbatim>\<open>+Inf\<close> wins even over not-a-number.\<close>

fun fmax :: "float64 \<Rightarrow> float64 \<Rightarrow> float64" where
  "fmax PInf _ = PInf"
| "fmax _ PInf = PInf"
| "fmax NaN _ = NaN"
| "fmax _ NaN = NaN"
| "fmax NInf b = b"
| "fmax a NInf = a"
| "fmax (Fin x) (Fin y) = Fin (max x y)"

text \<open>\<^verbatim>\<open>math.Ceil\<close> and \<^verbatim>\<open>math.Round\<close> (half away from zero) are exact: a finite number that is
  not already an integer is below \<open>2\<^sup>5\<^sup>2\<close> in magnitude, so the result has at most 53 bits.\<close>

fun fceil :: "float64 \<Rightarrow> float64" where
  "fceil (Fin x) = Fin (of_int \<lceil>x\<rceil>)" | "fceil a = a"

definition round_away :: "rat \<Rightarrow> int" where
  "round_away x = (if 0 \<le> x then \<lfloor>x + 1 / 2\<rfloor> else \<lceil>x - 1 / 2\<rceil>)"

fun fround :: "float64 \<Rightarrow> float64" where
  "fround (Fin x) = Fin (of_int (round_away x))" | "fround a = a"

subsection \<open>Square root\<close>

fun isqrt :: "nat \<Rightarrow> nat" where
  "isqrt n = (if n = 0 then 0 else
     let r = 2 * isqrt (n div 4) in if (r + 1) * (r + 1) \<le> n then r + 1 else r)"

declare isqrt.simps [simp del]

definition sqrt_even :: "rat \<Rightarrow> int" where
  "sqrt_even y = (let f = int (isqrt (nat \<lfloor>y\<rfloor>)); h = (of_int f + 1 / 2) * (of_int f + 1 / 2) in
     if y < h then f else if h < y then f + 1 else if even f then f else f + 1)"

definition sqrt_rat :: "rat \<Rightarrow> rat" where
  "sqrt_rat x = (if x \<le> 0 then 0 else
     let q = pow2 (ilog2 x div 2 - 52) in of_int (sqrt_even (x / (q * q))) * q)"

fun fsqrt :: "float64 \<Rightarrow> float64" where
  "fsqrt (Fin x) = (if x < 0 then NaN else Fin (sqrt_rat x))"
| "fsqrt PInf = PInf"
| "fsqrt _ = NaN"

subsection \<open>Conversions\<close>

record go_platform =
  cvt_i32 :: "float64 \<Rightarrow> int32" \<comment> \<open>float64 to int32 outside the range of int32\<close>
  cvt_i64 :: "float64 \<Rightarrow> int" \<comment> \<open>float64 to int64 outside the range of int64\<close>
  math_Log2 :: "float64 \<Rightarrow> float64"

text \<open>An instance for evaluating examples: the conversion of amd64, and a base-2 logarithm that is
  right on powers of two.\<close>

definition amd64 :: go_platform where
  "amd64 = \<lparr>cvt_i32 = \<lambda>_. i32 MinInt32, cvt_i64 = \<lambda>_. MinInt64,
     math_Log2 = \<lambda>a. case a of Fin x \<Rightarrow> if x \<le> 0 then NaN else Fin (of_int (ilog2 x)) | _ \<Rightarrow> a\<rparr>"

definition float_of_i32 :: "int32 \<Rightarrow> float64" where
  "float_of_i32 v = Fin (of_int (sint v))"

definition float_of_nat :: "nat \<Rightarrow> float64" where
  "float_of_nat n = rnd (of_nat n)"

definition trunc_rat :: "rat \<Rightarrow> int" where
  "trunc_rat x = (if 0 \<le> x then \<lfloor>x\<rfloor> else \<lceil>x\<rceil>)"

text \<open>\<^verbatim>\<open>int32(f)\<close>: truncation towards zero where the value fits, otherwise the platform's choice.\<close>

definition i32_of_float :: "go_platform \<Rightarrow> float64 \<Rightarrow> int32" where
  "i32_of_float pf a = (case a of
     Fin x \<Rightarrow> (if in_i32 (trunc_rat x) then i32 (trunc_rat x) else cvt_i32 pf a)
   | _ \<Rightarrow> cvt_i32 pf a)"

definition i64_of_float :: "go_platform \<Rightarrow> float64 \<Rightarrow> int" where
  "i64_of_float pf a = (case a of
     Fin x \<Rightarrow> (if MinInt64 \<le> trunc_rat x \<and> trunc_rat x \<le> MaxInt64 then trunc_rat x else cvt_i64 pf a)
   | _ \<Rightarrow> cvt_i64 pf a)"

subsection \<open>Facts about rounding to a value\<close>

lemma rnd_rat_abs_le_pow2:
  assumes "\<bar>x\<bar> \<le> pow2 k" "- 1074 \<le> k"
  shows "\<bar>rnd_rat x\<bar> \<le> pow2 k"
proof -
  have "rnd_rat \<bar>x\<bar> \<le> pow2 k"
    using rnd_rat_le_pow2 [of "\<bar>x\<bar>" k] assms by (cases "x = 0") auto
  moreover have "0 \<le> rnd_rat \<bar>x\<bar>" by (simp add: rnd_rat_nonneg)
  ultimately show ?thesis by (cases "0 \<le> x") (simp_all add: rnd_rat_uminus)
qed

text \<open>Below \<open>2\<^sup>1\<^sup>0\<^sup>2\<^sup>3\<close> nothing overflows.\<close>

lemma rnd_finite:
  assumes "\<bar>x\<bar> \<le> 2 ^ 1023"
  shows "rnd x = Fin (rnd_rat x)"
proof -
  have "\<bar>rnd_rat x\<bar> \<le> 2 ^ 1023"
    using rnd_rat_abs_le_pow2 [of x 1023] assms by (simp add: pow2_def)
  also have "(2 ^ 1023 :: rat) < 2 ^ 1024" by (rule power_strict_increasing) simp_all
  finally have "\<bar>rnd_rat x\<bar> < 2 ^ 1024" .
  then show ?thesis by (auto simp: rnd_threshold abs_less_iff)
qed

lemma two53_le_two1023: "(2 :: rat) ^ 53 \<le> 2 ^ 1023"
  by (rule power_increasing) simp_all

lemma rnd_finite_int: "\<bar>x\<bar> \<le> of_int n \<Longrightarrow> \<bar>n\<bar> \<le> 2 ^ 53 \<Longrightarrow> rnd x = Fin (rnd_rat x)"
proof -
  assume a: "\<bar>x\<bar> \<le> of_int n" "\<bar>n\<bar> \<le> 2 ^ 53"
  have "of_int n \<le> (of_int (2 ^ 53) :: rat)" using a(2) by (simp only: of_int_le_iff)
  then have "\<bar>x\<bar> \<le> 2 ^ 53" using a(1) by simp
  then show ?thesis by (intro rnd_finite) (rule order_trans [OF _ two53_le_two1023])
qed

lemma rnd_of_int: "\<bar>n\<bar> \<le> 2 ^ 53 \<Longrightarrow> rnd (of_int n) = Fin (of_int n)"
  using rnd_finite_int [of "of_int n" "\<bar>n\<bar>"] by simp

lemma float_of_nat_exact: "n \<le> 2 ^ 53 \<Longrightarrow> float_of_nat n = Fin (of_nat n)"
  using rnd_of_int [of "int n"] by (simp add: float_of_nat_def)

lemma rnd_nonneg_cases: "0 \<le> x \<Longrightarrow> rnd x = PInf \<or> (\<exists>v. rnd x = Fin v \<and> 0 \<le> v)"
proof -
  assume "0 \<le> x"
  then have "0 \<le> rnd_rat x" by (rule rnd_rat_nonneg)
  then show ?thesis by (auto simp: rnd_def Let_def)
qed

lemma rnd_mono: "x \<le> y \<Longrightarrow> rnd x \<le> rnd y"
proof -
  assume "x \<le> y"
  then have "rnd_rat x \<le> rnd_rat y" by (rule rnd_rat_mono)
  then show ?thesis by (auto simp: rnd_threshold less_eq_float64_def)
qed

lemma fle_iff: "fle a b \<longleftrightarrow> a \<noteq> NaN \<and> b \<noteq> NaN \<and> a \<le> b"
  by (cases a; cases b) (auto simp: less_eq_float64_def)

lemma flt_iff: "flt a b \<longleftrightarrow> a \<noteq> NaN \<and> b \<noteq> NaN \<and> a < b"
  by (cases a; cases b) (auto simp: less_float64_def)

lemma rnd_not_NaN [simp]: "rnd x \<noteq> NaN"
  by (simp add: rnd_def Let_def)

lemma fdiv_Fin_1: "fdiv (fdiv a b) (Fin 1) = fdiv a b"
proof -
  have r: "fdiv (rnd x) (Fin 1) = rnd x" for x
    by (simp add: rnd_threshold inf_sgn_def)
  have i: "fdiv (inf_sgn x) (Fin 1) = inf_sgn x" for x
    by (simp add: inf_sgn_def)
  have z: "rnd 0 = Fin 0" using rnd_of_int [of 0] by simp
  show ?thesis by (cases a; cases b) (simp_all add: r i z inf_sgn_def)
qed

subsection \<open>The square root is the nearest\<close>

lemma isqrt_bounds: "isqrt n * isqrt n \<le> n \<and> n < (isqrt n + 1) * (isqrt n + 1)"
proof (induction n rule: isqrt.induct)
  case (1 n)
  show ?case
  proof (cases "n = 0")
    case True
    then show ?thesis by (simp add: isqrt.simps)
  next
    case False
    define m where "m = isqrt (n div 4)"
    have ih: "m * m \<le> n div 4" "n div 4 < (m + 1) * (m + 1)"
      using 1 [OF False] by (auto simp: m_def)
    have lo: "(2 * m) * (2 * m) \<le> n" using ih(1) by (simp add: algebra_simps)
    have "n div 4 + 1 \<le> (m + 1) * (m + 1)" using ih(2) by simp
    then have "n < 4 * ((m + 1) * (m + 1))" by linarith
    then have hi: "n < (2 * m + 2) * (2 * m + 2)" by (simp add: algebra_simps)
    have s: "isqrt n = (if (2 * m + 1) * (2 * m + 1) \<le> n then 2 * m + 1 else 2 * m)"
      using False by (simp add: isqrt.simps [of n] m_def Let_def)
    show ?thesis using s lo hi by auto
  qed
qed

lemma sqrt_even_bounds:
  assumes "1 \<le> y"
  shows "1 \<le> sqrt_even y"
    and "(of_int (sqrt_even y) - 1 / 2) * (of_int (sqrt_even y) - 1 / 2) \<le> y"
    and "y \<le> (of_int (sqrt_even y) + 1 / 2) * (of_int (sqrt_even y) + 1 / 2)"
proof -
  define f where "f = int (isqrt (nat \<lfloor>y\<rfloor>))"
  have fl: "1 \<le> \<lfloor>y\<rfloor>" using assms by (simp add: le_floor_iff)
  have b: "f * f \<le> \<lfloor>y\<rfloor>" "\<lfloor>y\<rfloor> < (f + 1) * (f + 1)"
  proof -
    define m where "m = nat \<lfloor>y\<rfloor>"
    have m: "int m = \<lfloor>y\<rfloor>" using fl by (simp add: m_def)
    have "int (isqrt m * isqrt m) \<le> int m" "int m < int ((isqrt m + 1) * (isqrt m + 1))"
      using isqrt_bounds [of m] by (simp_all only: of_nat_le_iff of_nat_less_iff)
    then show "f * f \<le> \<lfloor>y\<rfloor>" "\<lfloor>y\<rfloor> < (f + 1) * (f + 1)"
      unfolding m by (simp_all add: f_def m_def algebra_simps)
  qed
  have f1: "1 \<le> f"
  proof (rule ccontr)
    assume "\<not> 1 \<le> f"
    then have "f = 0" by (simp add: f_def)
    then show False using b(2) fl by simp
  qed
  have lo: "of_int (f * f) \<le> y" using b(1) le_floor_iff by blast
  have hi: "y < of_int ((f + 1) * (f + 1))" using b(2) floor_less_iff by blast
  let ?h = "(of_int f + 1 / 2) * (of_int f + 1 / 2) :: rat"
  have s: "sqrt_even y = (if y < ?h then f else if ?h < y then f + 1 else if even f then f else f + 1)"
    by (simp add: sqrt_even_def f_def Let_def)
  have f1r: "1 \<le> (of_int f :: rat)" using f1 by simp
  show "1 \<le> sqrt_even y" using s f1 by auto
  show "(of_int (sqrt_even y) - 1 / 2) * (of_int (sqrt_even y) - 1 / 2) \<le> y"
    using s lo f1r by (auto simp: algebra_simps)
  show "y \<le> (of_int (sqrt_even y) + 1 / 2) * (of_int (sqrt_even y) + 1 / 2)"
    using s hi f1r by (auto simp: algebra_simps)
qed

text \<open>\<open>sqrt_rat x\<close> is within half a last bit of the real square root.\<close>

lemma sqrt_rat_nearest:
  assumes "0 < x"
  defines "q \<equiv> pow2 (ilog2 x div 2 - 52)"
  shows "(sqrt_rat x - q / 2) * (sqrt_rat x - q / 2) \<le> x"
    and "x \<le> (sqrt_rat x + q / 2) * (sqrt_rat x + q / 2)"
    and "0 < sqrt_rat x"
proof -
  let ?y = "x / (q * q)" let ?s = "of_int (sqrt_even ?y) :: rat"
  have q: "0 < q" by (simp add: q_def)
  have "q * q = pow2 (2 * (ilog2 x div 2) - 104)"
    by (simp add: q_def flip: pow2_add)
  also have "\<dots> \<le> pow2 (ilog2 x)" by simp
  also have "\<dots> \<le> x" using assms(1) by (rule ilog2_bounds)
  finally have y: "1 \<le> ?y" using q by (simp add: le_divide_eq_1)
  have s: "sqrt_rat x = ?s * q" using assms(1) by (simp add: sqrt_rat_def q_def Let_def)
  have x: "x = ?y * (q * q)" using q by simp
  have "(?s * q - q / 2) * (?s * q - q / 2) = ((?s - 1 / 2) * (?s - 1 / 2)) * (q * q)"
    by (simp add: algebra_simps)
  also have "\<dots> \<le> ?y * (q * q)"
    using sqrt_even_bounds(2) [OF y] q by (intro mult_right_mono) simp_all
  finally show "(sqrt_rat x - q / 2) * (sqrt_rat x - q / 2) \<le> x" using s x by simp
  have "?y * (q * q) \<le> ((?s + 1 / 2) * (?s + 1 / 2)) * (q * q)"
    using sqrt_even_bounds(3) [OF y] q by (intro mult_right_mono) simp_all
  also have "\<dots> = (?s * q + q / 2) * (?s * q + q / 2)" by (simp add: algebra_simps)
  finally show "x \<le> (sqrt_rat x + q / 2) * (sqrt_rat x + q / 2)" using s x by simp
  show "0 < sqrt_rat x" using s q sqrt_even_bounds(1) [OF y] by simp
qed

lemma sqrt_rat_nonneg [simp]: "0 \<le> sqrt_rat x"
  using sqrt_rat_nearest(3) [of x] by (cases "0 < x") (auto simp: sqrt_rat_def)

end
