(* ===== verification/GoText.thy ===== *)
theory GoText
  imports Float64
begin

text \<open>
  The parts of Go's \<^verbatim>\<open>fmt\<close> and \<^verbatim>\<open>strconv\<close> that the program uses: decimal integers
  (\<^verbatim>\<open>%d\<close>, \<^verbatim>\<open>strconv.Itoa\<close>), one-decimal floats (\<^verbatim>\<open>%.1f\<close>), quoted strings (\<^verbatim>\<open>%q\<close>, on
  ASCII text), \<^verbatim>\<open>strconv.ParseInt(s, 10, bits)\<close> with its two errors, and \<^verbatim>\<open>strings.Join\<close>.
  A string is the list of its bytes. The main fact is that printing and parsing an integer
  agree (\<open>ParseInt_itoa\<close>).
\<close>

definition digit_char :: "nat \<Rightarrow> char" where "digit_char d = char_of (48 + d)"

definition is_digit :: "char \<Rightarrow> bool" where
  "is_digit c \<longleftrightarrow> 48 \<le> (of_char c :: nat) \<and> (of_char c :: nat) \<le> 57"

definition digit_val :: "char \<Rightarrow> nat" where "digit_val c = of_char c - 48"

fun nat_digits :: "nat \<Rightarrow> string" where
  "nat_digits n = (if n < 10 then [digit_char n] else nat_digits (n div 10) @ [digit_char (n mod 10)])"

declare nat_digits.simps [simp del]

definition itoa :: "int \<Rightarrow> string" where
  "itoa i = (if i < 0 then CHR ''-'' # nat_digits (nat (- i)) else nat_digits (nat i))"

abbreviation itoa32 :: "int32 \<Rightarrow> string" where "itoa32 v \<equiv> itoa (sint v)"

text \<open>\<^verbatim>\<open>%.1f\<close>: the exact value rounded to one decimal, ties to even.\<close>

fun fmt_1f :: "float64 \<Rightarrow> string" where
  "fmt_1f NaN = ''NaN''"
| "fmt_1f PInf = ''+Inf''"
| "fmt_1f NInf = ''-Inf''"
| "fmt_1f (Fin x) = (let t = nat (round_even (10 * \<bar>x\<bar>)) in
     (if x < 0 then ''-'' else '''') @ nat_digits (t div 10) @ ''.'' @ [digit_char (t mod 10)])"

definition hex_char :: "nat \<Rightarrow> char" where
  "hex_char d = (if d < 10 then digit_char d else char_of (87 + d))"

text \<open>\<^verbatim>\<open>%q\<close> on a byte of ASCII text.\<close>

definition quote_char :: "char \<Rightarrow> string" where
  "quote_char c = (let n = (of_char c :: nat); bs = CHR 0x5C in
     if n = 34 then [bs, CHR 0x22]
     else if n = 92 then [bs, bs]
     else if n = 7 then [bs, CHR ''a'']
     else if n = 8 then [bs, CHR ''b'']
     else if n = 12 then [bs, CHR ''f'']
     else if n = 10 then [bs, CHR ''n'']
     else if n = 13 then [bs, CHR ''r'']
     else if n = 9 then [bs, CHR ''t'']
     else if n = 11 then [bs, CHR ''v'']
     else if n < 32 \<or> n = 127 then [bs, CHR ''x'', hex_char (n div 16), hex_char (n mod 16)]
     else [c])"

definition quote :: "string \<Rightarrow> string" where
  "quote s = [CHR 0x22] @ concat (map quote_char s) @ [CHR 0x22]"

fun join :: "string \<Rightarrow> string list \<Rightarrow> string" where
  "join sep [] = ''''"
| "join sep [x] = x"
| "join sep (x # xs) = x @ sep @ join sep xs"

datatype num_error = ErrSyntax | ErrRange

text \<open>\<^verbatim>\<open>strconv.ParseInt(s, 10, bits)\<close>: the digits are accumulated up to the unsigned maximum of the
  width, then the signed range is checked.\<close>

fun scan_uint :: "nat \<Rightarrow> nat \<Rightarrow> string \<Rightarrow> num_error + nat" where
  "scan_uint bits n [] = Inr n"
| "scan_uint bits n (c # cs) =
     (if \<not> is_digit c then Inl ErrSyntax
      else let n' = 10 * n + digit_val c in
        if n' \<ge> 2 ^ bits then Inl ErrRange else scan_uint bits n' cs)"

definition ParseInt :: "nat \<Rightarrow> string \<Rightarrow> num_error + int" where
  "ParseInt bits s =
     (let (neg, ds) = (case s of
         c # cs \<Rightarrow> (if c = CHR ''-'' then (True, cs) else if c = CHR ''+'' then (False, cs) else (False, s))
       | [] \<Rightarrow> (False, []))
      in if ds = [] then Inl ErrSyntax
         else case scan_uint bits 0 ds of
           Inl e \<Rightarrow> Inl e
         | Inr u \<Rightarrow> (if \<not> neg \<and> u \<ge> 2 ^ (bits - 1) then Inl ErrRange
                     else if neg \<and> u > 2 ^ (bits - 1) then Inl ErrRange
                     else Inr (if neg then - int u else int u)))"

abbreviation ParseInt32 :: "string \<Rightarrow> num_error + int" where "ParseInt32 \<equiv> ParseInt 32"

definition num_error_text :: "string \<Rightarrow> string \<Rightarrow> num_error \<Rightarrow> string" where
  "num_error_text fn s e = ''strconv.'' @ fn @ '': parsing '' @ quote s @ '': '' @
     (case e of ErrSyntax \<Rightarrow> ''invalid syntax'' | ErrRange \<Rightarrow> ''value out of range'')"

section \<open>Printing and parsing agree\<close>

lemma is_digit_digit_char [simp]: "d < 10 \<Longrightarrow> is_digit (digit_char d)"
  by (simp add: is_digit_def digit_char_def)

lemma digit_val_digit_char [simp]: "d < 10 \<Longrightarrow> digit_val (digit_char d) = d"
  by (simp add: digit_val_def digit_char_def)

lemma nat_digits_Cons: "nat_digits n \<noteq> []"
  by (subst nat_digits.simps) simp

lemma set_nat_digits: "c \<in> set (nat_digits n) \<Longrightarrow> is_digit c"
proof (induction n rule: nat_digits.induct)
  case (1 n)
  then show ?case
    by (cases "n < 10") (auto simp: nat_digits.simps [of n])
qed

lemma scan_uint_append:
  "scan_uint b n (xs @ ys) = (case scan_uint b n xs of Inl e \<Rightarrow> Inl e | Inr m \<Rightarrow> scan_uint b m ys)"
  by (induction xs arbitrary: n) (auto simp: Let_def)

lemma scan_uint_nat_digits: "n < 2 ^ b \<Longrightarrow> scan_uint b 0 (nat_digits n) = Inr n"
proof (induction n rule: nat_digits.induct)
  case (1 n)
  show ?case
  proof (cases "n < 10")
    case True
    then show ?thesis using "1.prems" by (simp add: nat_digits.simps [of n] Let_def)
  next
    case False
    then have "n div 10 < 2 ^ b" using "1.prems" by (meson div_le_dividend le_less_trans)
    then have "scan_uint b 0 (nat_digits (n div 10)) = Inr (n div 10)"
      using False 1 by simp
    then show ?thesis
      using False "1.prems" by (simp add: nat_digits.simps [of n] scan_uint_append Let_def)
  qed
qed

lemma nat_digits_head: "\<exists>c cs. nat_digits n = c # cs \<and> is_digit c"
  using nat_digits_Cons [of n] set_nat_digits [of _ n]
  by (cases "nat_digits n") auto

lemma is_digit_not_sign: "is_digit c \<Longrightarrow> c \<noteq> CHR ''-'' \<and> c \<noteq> CHR ''+''"
  by (auto simp: is_digit_def)

lemma ParseInt_itoa:
  assumes "0 < b" and "- (2 ^ (b - 1)) \<le> i" and "i < 2 ^ (b - 1)"
  shows "ParseInt b (itoa i) = Inr i"
proof -
  have p: "(2 :: nat) ^ b = 2 * 2 ^ (b - 1)" using assms(1) by (simp add: power_eq_if)
  have le: "nat \<bar>i\<bar> \<le> 2 ^ (b - 1)"
    using assms(2,3) by (simp add: nat_le_iff abs_le_iff)
  then have "nat \<bar>i\<bar> < 2 ^ b" unfolding p by (rule le_less_trans) simp
  then have s: "scan_uint b 0 (nat_digits (nat \<bar>i\<bar>)) = Inr (nat \<bar>i\<bar>)"
    by (rule scan_uint_nat_digits)
  show ?thesis
  proof (cases "i < 0")
    case True
    then show ?thesis
      using s le nat_digits_Cons by (simp add: itoa_def ParseInt_def not_less)
  next
    case False
    then have "nat i < 2 ^ (b - 1)" using assms(3) by (simp add: nat_less_iff)
    moreover obtain c cs where "nat_digits (nat i) = c # cs" "is_digit c"
      using nat_digits_head by blast
    ultimately show ?thesis
      using False s is_digit_not_sign [of c] by (simp add: itoa_def ParseInt_def not_le)
  qed
qed

lemma ParseInt32_itoa: "in_i32 i \<Longrightarrow> ParseInt32 (itoa i) = Inr i"
  by (rule ParseInt_itoa) (simp_all add: in_i32_def)

lemma ParseInt_range:
  assumes "ParseInt b s = Inr i"
  shows "- (2 ^ (b - 1)) \<le> i \<and> i < 2 ^ (b - 1)"
proof -
  have "int u < 2 ^ k \<longleftrightarrow> u < 2 ^ k" "int u \<le> 2 ^ k \<longleftrightarrow> u \<le> 2 ^ k" for u k
    by (metis of_nat_less_iff of_nat_numeral of_nat_power, metis of_nat_le_iff of_nat_numeral of_nat_power)
  moreover have "- (2 ^ k) \<le> int u" "- int u < 2 ^ k" for u k
    by (simp_all add: order_trans [of _ 0] le_less_trans [of _ 0])
  ultimately show ?thesis
    using assms by (auto simp: ParseInt_def Let_def not_le not_less split: list.splits if_splits sum.splits)
qed

lemma ParseInt32_range: "ParseInt32 s = Inr i \<Longrightarrow> in_i32 i"
  using ParseInt_range [of 32 s i] by (simp add: in_i32_def)

end
