(* ===== verification/Reasoning.thy ===== *)
theory Reasoning
  imports GoText
begin

text \<open>
  \<^verbatim>\<open>internal/reasoning/tokens.go\<close> and \<^verbatim>\<open>internal/promql/builder.go\<close>: the reasoning tokens
  the controller writes into Events, the annotation keys operators set, the table that turns a
  token into the Event's PascalCase reason, and the PromQL text.
\<close>

section \<open>Tokens\<close>

definition ScaleUp :: string where "ScaleUp = ''scale_up''"
definition ScaleDown :: string where "ScaleDown = ''scale_down''"
definition NoChange :: string where "NoChange = ''no_change''"
definition StepCappedUp :: string where "StepCappedUp = ''step_capped_up''"
definition StepCappedDown :: string where "StepCappedDown = ''step_capped_down''"
definition CooldownHoldingUp :: string where "CooldownHoldingUp = ''cooldown_holding_up''"
definition CooldownHoldingDown :: string where "CooldownHoldingDown = ''cooldown_holding_down''"
definition MaxReplicasBinding :: string where "MaxReplicasBinding = ''max_replicas_binding''"
definition MinReplicasBinding :: string where "MinReplicasBinding = ''min_replicas_binding''"
definition KillSwitched :: string where "KillSwitched = ''kill_switched''"
definition ConflictDetected :: string where "ConflictDetected = ''conflict_detected''"
definition ForecastUnavailable :: string where "ForecastUnavailable = ''forecast_unavailable''"
definition MetricsUnavailable :: string where "MetricsUnavailable = ''metrics_unavailable''"
definition PatternClassified :: string where "PatternClassified = ''pattern_classified''"
definition PatternUnknown :: string where "PatternUnknown = ''pattern_unknown''"
definition ScaleExplained :: string where "ScaleExplained = ''scale_explained''"

lemmas token_defs = ScaleUp_def ScaleDown_def NoChange_def StepCappedUp_def StepCappedDown_def
  CooldownHoldingUp_def CooldownHoldingDown_def MaxReplicasBinding_def MinReplicasBinding_def
  KillSwitched_def ConflictDetected_def ForecastUnavailable_def MetricsUnavailable_def
  PatternClassified_def PatternUnknown_def ScaleExplained_def

definition AnnotationKillSwitch :: string where
  "AnnotationKillSwitch = ''autoscaling.agentic.io/kill-switch''"
definition AnnotationReclassify :: string where
  "AnnotationReclassify = ''autoscaling.agentic.io/reclassify''"

text \<open>\<^verbatim>\<open>AllTokens\<close>: the tokens keyed by their Go constant name.\<close>

definition AllTokens :: "(string \<times> string) list" where
  "AllTokens = [
     (''ScaleUp'', ScaleUp), (''ScaleDown'', ScaleDown), (''NoChange'', NoChange),
     (''StepCappedUp'', StepCappedUp), (''StepCappedDown'', StepCappedDown),
     (''CooldownHoldingUp'', CooldownHoldingUp), (''CooldownHoldingDown'', CooldownHoldingDown),
     (''MaxReplicasBinding'', MaxReplicasBinding), (''MinReplicasBinding'', MinReplicasBinding),
     (''KillSwitched'', KillSwitched), (''ConflictDetected'', ConflictDetected),
     (''ForecastUnavailable'', ForecastUnavailable), (''MetricsUnavailable'', MetricsUnavailable),
     (''PatternClassified'', PatternClassified), (''PatternUnknown'', PatternUnknown),
     (''ScaleExplained'', ScaleExplained)]"

definition pascalMap :: "(string \<times> string) list" where
  "pascalMap = [
     (ScaleUp, ''ScaleUp''), (ScaleDown, ''ScaleDown''), (NoChange, ''NoChange''),
     (StepCappedUp, ''StepCappedUp''), (StepCappedDown, ''StepCappedDown''),
     (CooldownHoldingUp, ''CooldownHoldingUp''), (CooldownHoldingDown, ''CooldownHoldingDown''),
     (MaxReplicasBinding, ''MaxReplicasBinding''), (MinReplicasBinding, ''MinReplicasBinding''),
     (KillSwitched, ''KillSwitched''), (ConflictDetected, ''ConflictDetected''),
     (ForecastUnavailable, ''ForecastUnavailable''), (MetricsUnavailable, ''MetricsUnavailable''),
     (PatternClassified, ''PatternClassified''), (PatternUnknown, ''PatternUnknown''),
     (ScaleExplained, ''ScaleExplained'')]"

definition PascalReason :: "string \<Rightarrow> string" where
  "PascalReason snake = (case map_of pascalMap snake of Some p \<Rightarrow> p | None \<Rightarrow> snake)"

section \<open>PromQL\<close>

definition InstantRPS :: "string \<Rightarrow> string" where
  "InstantRPS deploymentName =
     ''sum(rate(http_requests_total{deployment='' @ [CHR 0x22] @ deploymentName @ [CHR 0x22] @ ''}[2m]))''"

definition RangeRPS :: "string \<Rightarrow> string" where
  "RangeRPS deploymentName = InstantRPS deploymentName"

section \<open>The Event reason is the CamelCase of the token\<close>

text \<open>A specification of the table: drop each underscore and capitalise the letter that starts a word.\<close>

definition upper :: "char \<Rightarrow> char" where
  "upper c = (let n = (of_char c :: nat) in if 97 \<le> n \<and> n \<le> 122 then char_of (n - 32) else c)"

fun camel :: "bool \<Rightarrow> string \<Rightarrow> string" where
  "camel start [] = []"
| "camel start (c # cs) =
     (if c = CHR ''_'' then camel True cs else (if start then upper c else c) # camel False cs)"

lemma AllTokens_distinct: "distinct (map fst AllTokens)" "distinct (map snd AllTokens)"
  by (simp_all add: AllTokens_def token_defs)

lemma PascalReason_camel_all: "\<forall>t \<in> snd ` set AllTokens. PascalReason t = camel True t"
  by code_simp

lemma PascalReason_name: "\<forall>(n, t) \<in> set AllTokens. PascalReason t = n"
  by (simp add: AllTokens_def PascalReason_def pascalMap_def token_defs)

lemma PascalReason_unknown: "t \<notin> snd ` set AllTokens \<Longrightarrow> PascalReason t = t"
  by (simp add: AllTokens_def PascalReason_def pascalMap_def)

end
