(* ===== verification/Api.thy ===== *)
theory Api
  imports Reasoning
begin

text \<open>
  \<^verbatim>\<open>api/v1alpha1/agenticautoscaler_types.go\<close>: the custom resource. A Go pointer field is an
  \<open>option\<close> (\<^verbatim>\<open>nil\<close> is \<^const>\<open>None\<close>); a field of a record carries a prefix naming its struct
  where two structs have a field of the same name. Object metadata is reduced to what the
  program reads: namespace, name, annotations and the deletion timestamp.
\<close>

record cross_version_ref =
  ref_APIVersion :: string
  ref_Kind :: string
  ref_Name :: string

record aas_spec =
  spec_TargetRef :: cross_version_ref
  spec_MinReplicas :: "int32 option"
  spec_MaxReplicas :: "int32 option"
  spec_RpsPerPodMin :: "int32 option"
  spec_RpsPerPodMax :: "int32 option"
  spec_MaxStepSize :: "int32 option"
  spec_ScaleUpCooldownSeconds :: "int32 option"
  spec_ScaleDownCooldownSeconds :: "int32 option"
  spec_PreferredForecaster :: "string option"

record context_fields =
  cf_BaselineRPS :: int32
  cf_PeakP95RPS :: int32
  cf_Trend24hSlope :: float64
  cf_HourlyProfile :: "int32 list"
  cf_HourlyProfileValid :: bool

record classified_params =
  cp_Pattern :: string
  cp_ScaleUpCooldownSeconds :: int32
  cp_ScaleDownCooldownSeconds :: int32
  cp_MaxStepSize :: int32
  cp_PreferredForecaster :: string
  cp_ClassifiedAt :: time
  cp_HistoryPoints :: int32
  cp_Confidence :: string
  cp_Context :: "context_fields option"

datatype phase = PhaseUnset | PhaseReady | PhaseDisabled | PhaseConflict

record aas_status =
  st_Phase :: phase
  st_ConflictReason :: string
  st_CurrentReplicas :: int32
  st_RecommendedReplicas :: int32
  st_UnboundedRecommended :: int32
  st_PredictedRPS :: int32
  st_RpsPerPodCurrent :: int32
  st_LastScaleTime :: "time option"
  st_ClassifiedParams :: "classified_params option"

record namespaced_name =
  nn_Namespace :: string
  nn_Name :: string

record aas =
  aas_Namespace :: string
  aas_Name :: string
  aas_Annotations :: "string \<rightharpoonup> string"
  aas_DeletionTimestamp :: "time option"
  aas_Spec :: aas_spec
  aas_Status :: aas_status

text \<open>Reading a Go map: a missing key, or a nil map, gives the empty string.\<close>

definition annotation :: "(string \<rightharpoonup> string) \<Rightarrow> string \<Rightarrow> string" where
  "annotation m k = (case m k of Some v \<Rightarrow> v | None \<Rightarrow> '''')"

definition aas_key :: "aas \<Rightarrow> namespaced_name" where
  "aas_key a = \<lparr>nn_Namespace = aas_Namespace a, nn_Name = aas_Name a\<rparr>"

text \<open>\<^verbatim>\<open>types.NamespacedName.String()\<close>\<close>

definition nn_String :: "namespaced_name \<Rightarrow> string" where
  "nn_String k = nn_Namespace k @ ''/'' @ nn_Name k"

text \<open>Errors of the Kubernetes client: not found, or any other error with its text.\<close>

datatype api_error = ApiNotFound string | ApiError string

definition IsNotFound :: "api_error \<Rightarrow> bool" where
  "IsNotFound e \<longleftrightarrow> (case e of ApiNotFound _ \<Rightarrow> True | ApiError _ \<Rightarrow> False)"

text \<open>\<^verbatim>\<open>client.IgnoreNotFound\<close>\<close>

definition IgnoreNotFound :: "api_error \<Rightarrow> api_error option" where
  "IgnoreNotFound e = (if IsNotFound e then None else Some e)"

definition zero_status :: aas_status where
  "zero_status = \<lparr>st_Phase = PhaseUnset, st_ConflictReason = '''', st_CurrentReplicas = 0,
     st_RecommendedReplicas = 0, st_UnboundedRecommended = 0, st_PredictedRPS = 0,
     st_RpsPerPodCurrent = 0, st_LastScaleTime = None, st_ClassifiedParams = None\<rparr>"

end
