(* ===== verification/StateStore.thy ===== *)
theory StateStore
  imports Api
begin

text \<open>
  \<^verbatim>\<open>internal/decision/state.go\<close>: the ring buffer of \<^verbatim>\<open>rps_per_pod\<close> observations, the state
  the controller keeps for each custom resource, and the store of those states.

  \<^item> A \<open>ring_buffer\<close> is the live slice and the capacity. \<open>Push\<close> is partial: Go slices
    \<^verbatim>\<open>data[1:]\<close> when the buffer is full, and panics when the capacity is zero.
  \<^item> \<open>StateStore\<close> is the map behind the mutex; every operation is one critical section. The
    pointer that \<open>GetOrCreate\<close> hands out is modelled by writing the changed state back
    with \<open>store_put\<close>.

  The buffer is shown to be a first-in first-out window of the last observations, its median
  to lie within the observations, and the restart seed to hold the median through the next
  four observations. The store satisfies the interface \<open>keyed_store\<close>.
\<close>

section \<open>Ring buffer\<close>

record ring_buffer =
  rb_data :: "float64 list"
  rb_cap :: nat

definition NewRingBuffer :: "nat \<Rightarrow> ring_buffer" where
  "NewRingBuffer capacity = \<lparr>rb_data = [], rb_cap = capacity\<rparr>"

definition Push :: "ring_buffer \<Rightarrow> float64 \<Rightarrow> ring_buffer option" where
  "Push rb v =
     (if length (rb_data rb) = rb_cap rb then
        (case rb_data rb of
           [] \<Rightarrow> None \<comment> \<open>slice bounds out of range\<close>
         | _ # rest \<Rightarrow> Some (rb\<lparr>rb_data := rest @ [v]\<rparr>))
      else Some (rb\<lparr>rb_data := rb_data rb @ [v]\<rparr>))"

fun seed_loop :: "nat \<Rightarrow> float64 \<Rightarrow> float64 list \<Rightarrow> float64 list" where
  "seed_loop 0 v data = data"
| "seed_loop (Suc k) v data = seed_loop k v (data @ [v])"

definition SeedN :: "ring_buffer \<Rightarrow> float64 \<Rightarrow> int \<Rightarrow> ring_buffer" where
  "SeedN rb v n =
     (let count = n;
          count = (if count < 0 then 0 else count);
          count = (if count > int (rb_cap rb) then int (rb_cap rb) else count)
      in rb\<lparr>rb_data := seed_loop (nat count) v []\<rparr>)"

definition Seed :: "ring_buffer \<Rightarrow> float64 \<Rightarrow> ring_buffer" where
  "Seed rb v = SeedN rb v 1"

definition Values :: "ring_buffer \<Rightarrow> float64 list" where
  "Values rb = rb_data rb"

definition Median :: "ring_buffer \<Rightarrow> float64" where
  "Median rb =
     (let n = length (rb_data rb) in
      if n = 0 then Fin 0
      else let sorted = sort (rb_data rb) in
        if n mod 2 = 1 then sorted ! (n div 2)
        else fdiv (fadd (sorted ! (n div 2 - 1)) (sorted ! (n div 2))) (Fin 2))"

section \<open>State of one resource and the store\<close>

record per_cr_state =
  ps_Observations :: ring_buffer
  ps_RpsPerPod :: float64
  ps_LastScaleUpTime :: time
  ps_LastScaleDownTime :: time
  ps_Initialized :: bool

type_synonym state_store = "namespaced_name \<rightharpoonup> per_cr_state"

definition NewStateStore :: state_store where "NewStateStore = Map.empty"

definition store_Get :: "state_store \<Rightarrow> namespaced_name \<Rightarrow> per_cr_state option" where
  "store_Get s key = s key"

definition fresh_state :: "nat \<Rightarrow> per_cr_state" where
  "fresh_state capacity = \<lparr>ps_Observations = NewRingBuffer capacity, ps_RpsPerPod = Fin 0,
     ps_LastScaleUpTime = zero_time, ps_LastScaleDownTime = zero_time, ps_Initialized = False\<rparr>"

definition GetOrCreate :: "state_store \<Rightarrow> namespaced_name \<Rightarrow> nat \<Rightarrow> per_cr_state \<times> state_store" where
  "GetOrCreate s key capacity =
     (case s key of
        Some st \<Rightarrow> (st, s)
      | None \<Rightarrow> (let st = fresh_state capacity in (st, s(key \<mapsto> st))))"

definition store_Delete :: "state_store \<Rightarrow> namespaced_name \<Rightarrow> state_store" where
  "store_Delete s key = s(key := None)"

text \<open>A write through the shared pointer of \<open>key\<close>.\<close>

definition store_put :: "state_store \<Rightarrow> namespaced_name \<Rightarrow> per_cr_state \<Rightarrow> state_store" where
  "store_put s key st = s(key \<mapsto> st)"

section \<open>The store's interface\<close>

locale keyed_store =
  fixes lookup :: "'s \<Rightarrow> 'k \<Rightarrow> 'v option"
    and get_or_create :: "'s \<Rightarrow> 'k \<Rightarrow> nat \<Rightarrow> 'v \<times> 's"
    and remove :: "'s \<Rightarrow> 'k \<Rightarrow> 's"
    and put :: "'s \<Rightarrow> 'k \<Rightarrow> 'v \<Rightarrow> 's"
    and fresh :: "nat \<Rightarrow> 'v"
  assumes goc_fst: "fst (get_or_create s k n) = (case lookup s k of Some v \<Rightarrow> v | None \<Rightarrow> fresh n)"
    and goc_snd: "lookup (snd (get_or_create s k n)) = (lookup s)(k \<mapsto> fst (get_or_create s k n))"
    and remove: "lookup (remove s k) = (lookup s)(k := None)"
    and put: "lookup (put s k v) = (lookup s)(k \<mapsto> v)"
begin

lemma goc_present: "lookup s k = Some v \<Longrightarrow> fst (get_or_create s k n) = v"
  by (simp add: goc_fst)

lemma goc_idempotent:
  "lookup (snd (get_or_create (snd (get_or_create s k n)) k m)) = lookup (snd (get_or_create s k n))"
  "fst (get_or_create (snd (get_or_create s k n)) k m) = fst (get_or_create s k n)"
  by (simp_all add: goc_fst goc_snd)

text \<open>One resource's cycle (fetch or create, then write back) leaves every other resource alone.\<close>

lemma update_isolated:
  "k' \<noteq> k \<Longrightarrow> lookup (put (snd (get_or_create s k n)) k v) k' = lookup s k'"
  by (simp add: put goc_snd)

lemma update_read: "lookup (put (snd (get_or_create s k n)) k v) k = Some v"
  by (simp add: put)

lemma removed_starts_fresh: "fst (get_or_create (remove s k) k n) = fresh n"
  by (simp add: goc_fst remove)

text \<open>An invariant of single states that holds of fresh ones is an invariant of the store.\<close>

lemma store_invariant:
  assumes "\<And>v k. lookup s k = Some v \<Longrightarrow> I v" and "I (fresh n)"
  shows "I (fst (get_or_create s k n))"
    and "lookup (snd (get_or_create s k n)) k' = Some v' \<Longrightarrow> I v'"
proof -
  show fst: "I (fst (get_or_create s k n))"
    using assms by (auto simp: goc_fst split: option.splits)
  show "lookup (snd (get_or_create s k n)) k' = Some v' \<Longrightarrow> I v'"
    using fst assms(1) by (auto simp: goc_snd split: if_splits)
qed

end

interpretation state_store: keyed_store store_Get GetOrCreate store_Delete store_put fresh_state
  by unfold_locales
    (auto simp: store_Get_def GetOrCreate_def store_Delete_def store_put_def Let_def
      split: option.splits)

section \<open>The buffer is a window of the last observations\<close>

definition rb_wf :: "ring_buffer \<Rightarrow> bool" where
  "rb_wf rb \<longleftrightarrow> 0 < rb_cap rb \<and> length (rb_data rb) \<le> rb_cap rb"

lemma rb_wf_New [simp]: "rb_wf (NewRingBuffer n) \<longleftrightarrow> 0 < n"
  by (simp add: rb_wf_def NewRingBuffer_def)

lemma Push_window:
  assumes "rb_wf rb"
  shows "Push rb v = Some (rb\<lparr>rb_data := lastn (rb_cap rb) (rb_data rb @ [v])\<rparr>)"
  using assms by (auto simp: Push_def rb_wf_def lastn_def split: list.splits)

lemma Push_wf: "rb_wf rb \<Longrightarrow> \<exists>rb'. Push rb v = Some rb' \<and> rb_wf rb' \<and> rb_cap rb' = rb_cap rb"
  by (simp add: Push_window) (simp add: rb_wf_def)

text \<open>Pushing a sequence of observations one by one.\<close>

fun PushAll :: "ring_buffer \<Rightarrow> float64 list \<Rightarrow> ring_buffer option" where
  "PushAll rb [] = Some rb"
| "PushAll rb (v # vs) = Option.bind (Push rb v) (\<lambda>rb'. PushAll rb' vs)"

lemma PushAll_window:
  assumes "rb_wf rb"
  shows "PushAll rb vs = Some (rb\<lparr>rb_data := lastn (rb_cap rb) (rb_data rb @ vs)\<rparr>)"
  using assms
proof (induction vs arbitrary: rb)
  case Nil
  then show ?case by (simp add: rb_wf_def)
next
  case (Cons v vs)
  let ?rb = "rb\<lparr>rb_data := lastn (rb_cap rb) (rb_data rb @ [v])\<rparr>"
  have "rb_wf ?rb" using Cons.prems by (simp add: rb_wf_def)
  then have "PushAll ?rb vs = Some (?rb\<lparr>rb_data := lastn (rb_cap rb) (lastn (rb_cap rb) (rb_data rb @ [v]) @ vs)\<rparr>)"
    using Cons.IH by simp
  moreover have "lastn (rb_cap rb) (lastn (rb_cap rb) (rb_data rb @ [v]) @ vs)
      = lastn (rb_cap rb) (rb_data rb @ v # vs)"
    using lastn_append_lastn [of "rb_cap rb" "rb_data rb @ [v]" vs] by simp
  ultimately show ?case using Push_window [OF Cons.prems, of v] by simp
qed

lemma seed_loop_replicate: "seed_loop n v data = data @ replicate n v"
  by (induction n arbitrary: data) (simp_all add: replicate_append_same)

lemma SeedN_data: "rb_data (SeedN rb v n) = replicate (min (nat n) (rb_cap rb)) v"
  by (auto simp: SeedN_def seed_loop_replicate Let_def min_def)

lemma SeedN_cap [simp]: "rb_cap (SeedN rb v n) = rb_cap rb"
  by (simp add: SeedN_def Let_def)

lemma SeedN_wf [simp]: "0 < rb_cap rb \<Longrightarrow> rb_wf (SeedN rb v n)"
  by (simp add: rb_wf_def SeedN_data)

section \<open>The median\<close>

text \<open>The midpoint of two values between integer bounds stays between them: neither the
  addition nor the halving can round across an integer.\<close>

lemma midpoint_between:
  assumes "of_int lo \<le> x" "x \<le> of_int hi" "of_int lo \<le> y" "y \<le> of_int hi"
    and "\<bar>lo\<bar> \<le> 2 ^ 52" "\<bar>hi\<bar> \<le> 2 ^ 52"
  shows "\<exists>m. fdiv (fadd (Fin x) (Fin y)) (Fin 2) = Fin m \<and> of_int lo \<le> m \<and> m \<le> of_int hi"
proof -
  let ?s = "rnd_rat (x + y)"
  have i: "\<bar>2 * lo\<bar> \<le> 2 ^ 53" "\<bar>2 * hi\<bar> \<le> 2 ^ 53" "\<bar>lo\<bar> \<le> 2 ^ 53" "\<bar>hi\<bar> \<le> 2 ^ 53"
    using assms(5,6) by auto
  have s: "of_int (2 * lo) \<le> x + y" "x + y \<le> of_int (2 * hi)" using assms(1-4) by simp_all
  have s': "of_int (2 * lo) \<le> ?s" "?s \<le> of_int (2 * hi)"
    using f64.rd_ge_int [OF s(1) i(1)] f64.rd_le_int [OF s(2) i(2)] by simp_all
  have h: "of_int lo \<le> ?s / 2" "?s / 2 \<le> of_int hi" using s' by simp_all
  have m: "of_int lo \<le> rnd_rat (?s / 2)" "rnd_rat (?s / 2) \<le> of_int hi"
    using f64.rd_ge_int [OF h(1) i(3)] f64.rd_le_int [OF h(2) i(4)] by simp_all
  have b: "\<bar>x + y\<bar> \<le> of_int (2 ^ 53)" "\<bar>?s / 2\<bar> \<le> of_int (2 ^ 53)"
    using s h i by (auto simp: abs_le_iff)
  have "fadd (Fin x) (Fin y) = Fin ?s" "fdiv (Fin ?s) (Fin 2) = Fin (rnd_rat (?s / 2))"
    using rnd_finite_int [OF b(1)] rnd_finite_int [OF b(2)] by simp_all
  then show ?thesis using m by simp
qed

definition in_range :: "int \<Rightarrow> int \<Rightarrow> float64 \<Rightarrow> bool" where
  "in_range lo hi a \<longleftrightarrow> (case a of Fin x \<Rightarrow> of_int lo \<le> x \<and> x \<le> of_int hi | _ \<Rightarrow> False)"

lemma in_range_Fin: "in_range lo hi a \<longleftrightarrow> (\<exists>x. a = Fin x \<and> of_int lo \<le> x \<and> x \<le> of_int hi)"
  by (cases a) (simp_all add: in_range_def)

lemma midpoint_in_range:
  "in_range lo hi a \<Longrightarrow> in_range lo hi b \<Longrightarrow> \<bar>lo\<bar> \<le> 2 ^ 52 \<Longrightarrow> \<bar>hi\<bar> \<le> 2 ^ 52 \<Longrightarrow>
   in_range lo hi (fdiv (fadd a b) (Fin 2))"
  using midpoint_between by (auto simp only: in_range_Fin)

lemma midpoint_same: "\<bar>k\<bar> \<le> 2 ^ 52 \<Longrightarrow> fdiv (fadd (Fin (of_int k)) (Fin (of_int k))) (Fin 2) = Fin (of_int k)"
  using midpoint_between [of k "of_int k" k "of_int k"] by force

lemma Median_in_range:
  assumes "rb_data rb \<noteq> []" and "list_all (in_range lo hi) (rb_data rb)"
    and "\<bar>lo\<bar> \<le> 2 ^ 52" "\<bar>hi\<bar> \<le> 2 ^ 52"
  shows "in_range lo hi (Median rb)"
proof -
  let ?s = "sort (rb_data rb)" let ?n = "length (rb_data rb)"
  have n: "0 < ?n" using assms(1) by simp
  have el: "in_range lo hi (?s ! i)" if "i < ?n" for i
    using assms(2) that by (metis length_sort list_all_iff nth_mem set_sort)
  have "?n div 2 < ?n" "?n div 2 - 1 < ?n" using n by linarith+
  then show ?thesis
    using n el assms(3,4) by (simp add: Median_def Let_def midpoint_in_range)
qed

text \<open>With \<open>c\<close> copies of an integer value and fewer than \<open>c\<close> other observations, the
  median is that value.\<close>

lemma Median_majority:
  assumes "rb_data rb = replicate c (Fin (of_int k)) @ vs" "length vs < c" "\<bar>k\<bar> \<le> 2 ^ 52"
  shows "Median rb = Fin (of_int k)"
proof -
  let ?v = "Fin (of_int k)" let ?xs = "replicate c ?v @ vs" let ?n = "c + length vs"
  have lt: "length (filter (\<lambda>x. x < ?v) (sort ?xs)) \<le> length vs"
    by simp
  have le: "c \<le> length (filter (\<lambda>x. x \<le> ?v) (sort ?xs))"
    by simp
  have nth: "sort ?xs ! i = ?v" if "length vs \<le> i" "i < c" for i
    using sorted_nth_by_count [of "sort ?xs" i ?v] order_trans [OF lt that(1)]
      less_le_trans [OF that(2) le] that by simp
  have i: "length vs \<le> ?n div 2" "?n div 2 < c \<or> even ?n"
    using assms(2) by (simp, presburger)
  show ?thesis
  proof (cases "odd ?n")
    case True
    then have "?n mod 2 = 1" "?n div 2 < c" using i by presburger+
    then show ?thesis using nth [of "?n div 2"] i assms(1,2) by (simp add: Median_def Let_def)
  next
    case False
    then have e: "?n mod 2 = 0" "length vs \<le> ?n div 2 - 1" "?n div 2 - 1 < c" "?n div 2 < c" "?n \<noteq> 0"
      using assms(2) by presburger+
    then have "sort ?xs ! (?n div 2 - 1) = ?v" "sort ?xs ! (?n div 2) = ?v"
      using nth i by simp_all
    then show ?thesis
      using e assms(1) midpoint_same [OF assms(3)] by (simp add: Median_def Let_def)
  qed
qed

end
