(* ===== verification/Decision.thy ===== *)
theory Decision
  imports StateStore
begin

text \<open>
  \<^verbatim>\<open>internal/decision/decision.go\<close>: the pure scaling logic. Parameter resolution
  (\<open>ResolveEffectiveParams\<close>), the raw recommendation (\<open>ComputeUnboundedRecommended\<close>), the
  CRD clamp (\<open>ClampRecommended\<close>), step cap, cooldown and hysteresis
  (\<open>ApplyCapAndCooldown\<close>), the calibration gate and clamp of \<^verbatim>\<open>rps_per_pod\<close>, and the
  restart seed (\<open>InitializeFromStatus\<close>).

  The specification of steps 6 to 8 over the integers is \<open>decide_spec\<close>; the code refines it
  as long as \<^verbatim>\<open>Current + MaxStep\<close> and \<^verbatim>\<open>Current - MaxStep\<close> do not leave the 32-bit range.
\<close>

section \<open>Effective parameters\<close>

record spec_params =
  sp_ScaleUpCooldown :: "int32 option"
  sp_ScaleDownCooldown :: "int32 option"
  sp_MaxStepSize :: "int32 option"
  sp_PreferredForecaster :: "string option"

record dec_classified_params =
  dcp_ScaleUpCooldown :: int32
  dcp_ScaleDownCooldown :: int32
  dcp_MaxStepSize :: int32
  dcp_PreferredForecaster :: string

record default_params =
  dp_ScaleUpCooldown :: int32
  dp_ScaleDownCooldown :: int32
  dp_MaxStepSize :: int32

record param_sources =
  src_Spec :: spec_params
  src_Classified :: "dec_classified_params option"
  src_Defaults :: default_params

record effective_params =
  ep_CooldownUp :: int32
  ep_CooldownDown :: int32
  ep_MaxStep :: int32
  ep_Forecaster :: string

definition coalesce32 :: "int32 option \<Rightarrow> int32 option \<Rightarrow> int32 \<Rightarrow> int32" where
  "coalesce32 spec classified def =
     (case spec of Some v \<Rightarrow> v | None \<Rightarrow> (case classified of Some v \<Rightarrow> v | None \<Rightarrow> def))"

definition classifiedField32 ::
    "dec_classified_params option \<Rightarrow> (dec_classified_params \<Rightarrow> int32) \<Rightarrow> int32 option" where
  "classifiedField32 c f = (case c of None \<Rightarrow> None | Some cp \<Rightarrow> Some (f cp))"

definition coalesceStr :: "string option \<Rightarrow> string option \<Rightarrow> string \<Rightarrow> string" where
  "coalesceStr spec classified def =
     (if spec \<noteq> None \<and> the spec \<noteq> '''' then the spec
      else if classified \<noteq> None \<and> the classified \<noteq> '''' then the classified
      else def)"

definition classifiedFieldStr ::
    "dec_classified_params option \<Rightarrow> (dec_classified_params \<Rightarrow> string) \<Rightarrow> string option" where
  "classifiedFieldStr c f =
     (case c of None \<Rightarrow> None | Some cp \<Rightarrow> (let v = f cp in if v = '''' then None else Some v))"

definition ResolveEffectiveParams :: "param_sources \<Rightarrow> effective_params" where
  "ResolveEffectiveParams src = \<lparr>
     ep_CooldownUp = coalesce32 (sp_ScaleUpCooldown (src_Spec src))
       (classifiedField32 (src_Classified src) dcp_ScaleUpCooldown)
       (dp_ScaleUpCooldown (src_Defaults src)),
     ep_CooldownDown = coalesce32 (sp_ScaleDownCooldown (src_Spec src))
       (classifiedField32 (src_Classified src) dcp_ScaleDownCooldown)
       (dp_ScaleDownCooldown (src_Defaults src)),
     ep_MaxStep = coalesce32 (sp_MaxStepSize (src_Spec src))
       (classifiedField32 (src_Classified src) dcp_MaxStepSize)
       (dp_MaxStepSize (src_Defaults src)),
     ep_Forecaster = coalesceStr (sp_PreferredForecaster (src_Spec src))
       (classifiedFieldStr (src_Classified src) dcp_PreferredForecaster) ''auto''\<rparr>"

section \<open>Recommendation, clamp, cap and cooldown\<close>

definition ComputeUnboundedRecommended :: "go_platform \<Rightarrow> float64 \<Rightarrow> float64 \<Rightarrow> int32" where
  "ComputeUnboundedRecommended pf predictedRPS rpsPerPod =
     (if fle rpsPerPod (Fin 0) then i32 MaxInt32
      else i32_of_float pf (fceil (fdiv predictedRPS rpsPerPod)))"

definition ClampRecommended :: "int32 \<Rightarrow> int32 \<Rightarrow> int32 \<Rightarrow> int32 \<times> string" where
  "ClampRecommended unbounded minReplicas maxReplicas =
     (if maxReplicas <s unbounded then (maxReplicas, ''max_replicas_binding'')
      else if unbounded <s minReplicas then (minReplicas, ''min_replicas_binding'')
      else (unbounded, ''''))"

record cap_input =
  ci_Recommended :: int32
  ci_Current :: int32
  ci_MaxStep :: int32
  ci_CooldownUp :: int32
  ci_CooldownDown :: int32
  ci_LastScaleUp :: time
  ci_LastScaleDown :: time
  ci_Now :: time
  ci_BindingReason :: string

record cap_output =
  co_Target :: int32
  co_Reason :: string
  co_ShouldPatch :: bool

definition ApplyCapAndCooldown :: "cap_input \<Rightarrow> cap_output" where
  "ApplyCapAndCooldown inp =
     (let target = ci_Recommended inp; reason = ci_BindingReason inp;
          (target, reason) =
            (if ci_Current inp <s target then
               (let (target, reason) =
                      (if ci_Current inp + ci_MaxStep inp <s target
                       then (ci_Current inp + ci_MaxStep inp, StepCappedUp)
                       else (target, ScaleUp))
                in if Sub (ci_Now inp) (ci_LastScaleUp inp) <s Duration_of_i32 (ci_CooldownUp inp) * Second
                   then (ci_Current inp, CooldownHoldingUp)
                   else (target, reason))
             else if target <s ci_Current inp then
               (let (target, reason) =
                      (if target <s ci_Current inp - ci_MaxStep inp
                       then (ci_Current inp - ci_MaxStep inp, StepCappedDown)
                       else (target, ScaleDown))
                in if Sub (ci_Now inp) (ci_LastScaleDown inp) <s Duration_of_i32 (ci_CooldownDown inp) * Second
                   then (ci_Current inp, CooldownHoldingDown)
                   else (target, reason))
             else (ci_Current inp, if reason = '''' then NoChange else reason))
      in \<lparr>co_Target = target, co_Reason = reason, co_ShouldPatch = (target \<noteq> ci_Current inp)\<rparr>)"

section \<open>Calibration of rps_per_pod\<close>

definition DefaultRpsPerPodNoiseFloor :: float64 where "DefaultRpsPerPodNoiseFloor = Fin 10"

definition ShouldUpdateRpsPerPodWithFloor ::
    "float64 \<Rightarrow> int32 \<Rightarrow> time \<Rightarrow> time \<Rightarrow> duration \<Rightarrow> float64 \<Rightarrow> bool" where
  "ShouldUpdateRpsPerPodWithFloor currentRPS replicas lastScale now interval noiseFloor =
     (if fle currentRPS (Fin 0) \<or> replicas <s 1 then False
      else if flt currentRPS noiseFloor then False
      else 2 * interval \<le>s Sub now lastScale)"

definition ShouldUpdateRpsPerPod :: "float64 \<Rightarrow> int32 \<Rightarrow> time \<Rightarrow> time \<Rightarrow> duration \<Rightarrow> bool" where
  "ShouldUpdateRpsPerPod currentRPS replicas lastScale now interval =
     ShouldUpdateRpsPerPodWithFloor currentRPS replicas lastScale now interval DefaultRpsPerPodNoiseFloor"

definition ClampRpsPerPod :: "float64 \<Rightarrow> int32 \<Rightarrow> int32 \<Rightarrow> float64" where
  "ClampRpsPerPod v minRpsPerPod maxRpsPerPod =
     (if flt v (float_of_i32 minRpsPerPod) then float_of_i32 minRpsPerPod
      else if flt (float_of_i32 maxRpsPerPod) v then float_of_i32 maxRpsPerPod
      else v)"

record status_seed =
  seed_RpsPerPodCurrent :: float64
  seed_InBounds :: bool
  seed_Midpoint :: float64
  seed_LastScaleTime :: time

definition RestartSeedCopies :: int where "RestartSeedCopies = 5"

definition InitializeFromStatus :: "per_cr_state \<Rightarrow> status_seed \<Rightarrow> per_cr_state" where
  "InitializeFromStatus state seed =
     (let state =
            (if seed_InBounds seed \<and> flt (Fin 0) (seed_RpsPerPodCurrent seed) then
               state\<lparr>ps_RpsPerPod := seed_RpsPerPodCurrent seed,
                     ps_Observations := SeedN (ps_Observations state) (seed_RpsPerPodCurrent seed) RestartSeedCopies\<rparr>
             else state\<lparr>ps_RpsPerPod := seed_Midpoint seed\<rparr>);
          state =
            (if \<not> IsZero (seed_LastScaleTime seed) then
               state\<lparr>ps_LastScaleUpTime := seed_LastScaleTime seed,
                     ps_LastScaleDownTime := seed_LastScaleTime seed\<rparr>
             else state)
      in state\<lparr>ps_Initialized := True\<rparr>)"

section \<open>The specification of steps 6 to 8\<close>

text \<open>Move towards the recommendation by at most \<open>step\<close>, unless the direction is cooling down.\<close>

definition decide_spec :: "int \<Rightarrow> int \<Rightarrow> int \<Rightarrow> bool \<Rightarrow> bool \<Rightarrow> int" where
  "decide_spec recommended current step up_ready down_ready =
     (if recommended > current then (if up_ready then min recommended (current + step) else current)
      else if recommended < current then (if down_ready then max recommended (current - step) else current)
      else current)"

definition up_ready :: "cap_input \<Rightarrow> bool" where
  "up_ready inp \<longleftrightarrow> sint (ci_CooldownUp inp) * ns_Second \<le> ci_Now inp - ci_LastScaleUp inp"

definition down_ready :: "cap_input \<Rightarrow> bool" where
  "down_ready inp \<longleftrightarrow> sint (ci_CooldownDown inp) * ns_Second \<le> ci_Now inp - ci_LastScaleDown inp"

definition no_overflow :: "cap_input \<Rightarrow> bool" where
  "no_overflow inp \<longleftrightarrow> in_i32 (sint (ci_Current inp) + sint (ci_MaxStep inp)) \<and>
     in_i32 (sint (ci_Current inp) - sint (ci_MaxStep inp))"

text \<open>The saturation of \<^verbatim>\<open>Time.Sub\<close> never changes a cooldown comparison.\<close>

lemma cooldown_compare:
  "Sub now prev <s Duration_of_i32 cd * Second \<longleftrightarrow> now - prev < sint cd * ns_Second"
proof -
  have "MinInt64 < sint cd * ns_Second" "sint cd * ns_Second < MaxInt64"
    using sint32_ge [of cd] sint32_le [of cd] by linarith+
  then show ?thesis by (auto simp: signed_less)
qed

lemma not_ready:
  "Sub (ci_Now inp) (ci_LastScaleUp inp) <s Duration_of_i32 (ci_CooldownUp inp) * Second \<longleftrightarrow> \<not> up_ready inp"
  "Sub (ci_Now inp) (ci_LastScaleDown inp) <s Duration_of_i32 (ci_CooldownDown inp) * Second \<longleftrightarrow> \<not> down_ready inp"
  by (auto simp: cooldown_compare up_ready_def down_ready_def)

lemma ApplyCap_target_word:
  "co_Target (ApplyCapAndCooldown inp) =
     (if ci_Current inp <s ci_Recommended inp then
        (if \<not> up_ready inp then ci_Current inp
         else if ci_Current inp + ci_MaxStep inp <s ci_Recommended inp
           then ci_Current inp + ci_MaxStep inp else ci_Recommended inp)
      else if ci_Recommended inp <s ci_Current inp then
        (if \<not> down_ready inp then ci_Current inp
         else if ci_Recommended inp <s ci_Current inp - ci_MaxStep inp
           then ci_Current inp - ci_MaxStep inp else ci_Recommended inp)
      else ci_Current inp)"
  by (simp add: ApplyCapAndCooldown_def not_ready Let_def)

lemma ApplyCap_reason:
  "co_Reason (ApplyCapAndCooldown inp) =
     (if ci_Current inp <s ci_Recommended inp then
        (if \<not> up_ready inp then CooldownHoldingUp
         else if ci_Current inp + ci_MaxStep inp <s ci_Recommended inp then StepCappedUp else ScaleUp)
      else if ci_Recommended inp <s ci_Current inp then
        (if \<not> down_ready inp then CooldownHoldingDown
         else if ci_Recommended inp <s ci_Current inp - ci_MaxStep inp then StepCappedDown else ScaleDown)
      else if ci_BindingReason inp = '''' then NoChange else ci_BindingReason inp)"
  by (simp add: ApplyCapAndCooldown_def not_ready Let_def)

lemma ApplyCap_patch:
  "co_ShouldPatch (ApplyCapAndCooldown inp) \<longleftrightarrow>
     sint (co_Target (ApplyCapAndCooldown inp)) \<noteq> sint (ci_Current inp)"
  by (simp add: ApplyCapAndCooldown_def Let_def sint_eq_iff32 split: prod.splits)

lemma no_overflow_sums:
  assumes "no_overflow inp"
  shows "sint (ci_Current inp + ci_MaxStep inp) = sint (ci_Current inp) + sint (ci_MaxStep inp)"
    and "sint (ci_Current inp - ci_MaxStep inp) = sint (ci_Current inp) - sint (ci_MaxStep inp)"
  using assms by (simp_all add: no_overflow_def i32_arith)

lemma ApplyCap_target:
  assumes "no_overflow inp"
  shows "sint (co_Target (ApplyCapAndCooldown inp)) =
     decide_spec (sint (ci_Recommended inp)) (sint (ci_Current inp)) (sint (ci_MaxStep inp))
       (up_ready inp) (down_ready inp)"
  unfolding ApplyCap_target_word signed_less decide_spec_def no_overflow_sums [OF assms]
  by (simp add: no_overflow_sums [OF assms] min_def max_def)

lemma decide_spec_between:
  assumes "0 \<le> step"
  shows "\<bar>decide_spec r c step u d - c\<bar> \<le> step"
    and "min r c \<le> decide_spec r c step u d" and "decide_spec r c step u d \<le> max r c"
  using assms by (auto simp: decide_spec_def)

section \<open>Properties of the decision\<close>

text \<open>Steps 6 to 8 refine the integer specification: when neither \<^verbatim>\<open>Current + MaxStep\<close> nor
  \<^verbatim>\<open>Current - MaxStep\<close> overflows, the patched target is the recommendation cut to a step of at
  most \<^verbatim>\<open>MaxStep\<close>, or the current count while the direction cools down; a patch is asked for
  exactly when the target differs from the current count.\<close>

theorem ApplyCapAndCooldown_refines:
  assumes "no_overflow inp"
  shows "sint (co_Target (ApplyCapAndCooldown inp)) =
      decide_spec (sint (ci_Recommended inp)) (sint (ci_Current inp)) (sint (ci_MaxStep inp))
        (up_ready inp) (down_ready inp) \<and>
    (co_ShouldPatch (ApplyCapAndCooldown inp) \<longleftrightarrow>
      sint (co_Target (ApplyCapAndCooldown inp)) \<noteq> sint (ci_Current inp))"
  using ApplyCap_target [OF assms] ApplyCap_patch [of inp] by simp

definition ex_cap_input :: cap_input where
  "ex_cap_input = \<lparr>ci_Recommended = 9, ci_Current = 3, ci_MaxStep = 4, ci_CooldownUp = 60,
     ci_CooldownDown = 300, ci_LastScaleUp = zero_time, ci_LastScaleDown = zero_time,
     ci_Now = 1700000000 * ns_Second, ci_BindingReason = ''''\<rparr>"

lemma ex_cap_input_no_overflow: "no_overflow ex_cap_input"
  by (simp add: no_overflow_def ex_cap_input_def in_i32_def)

lemma ex_cap_input_target: "sint (co_Target (ApplyCapAndCooldown ex_cap_input)) = 7"
  by (simp add: ApplyCap_target [OF ex_cap_input_no_overflow])
    (simp add: decide_spec_def up_ready_def ex_cap_input_def zero_time_def)

theorem ApplyCapAndCooldown_refines_witness:
  "no_overflow ex_cap_input \<and> co_ShouldPatch (ApplyCapAndCooldown ex_cap_input) \<and>
   decide_spec 9 3 4 (up_ready ex_cap_input) (down_ready ex_cap_input) = 7"
  using ApplyCapAndCooldown_refines [OF ex_cap_input_no_overflow] ex_cap_input_no_overflow
    ex_cap_input_target
  by (simp add: ex_cap_input_def)

text \<open>C15. The reported reason is truthful about the patch: with a step of at least one and no
  overflow, a patch upwards is reported as \<^verbatim>\<open>scale_up\<close> or \<^verbatim>\<open>step_capped_up\<close> and a patch downwards
  as \<^verbatim>\<open>scale_down\<close> or \<^verbatim>\<open>step_capped_down\<close>, and these four tokens are reported only with a patch.
  In particular a CRD-binding reason is never reported with a replica change.\<close>

theorem patch_reason_sound:
  assumes "no_overflow inp" and "1 \<le> sint (ci_MaxStep inp)"
    and "ci_BindingReason inp \<in> {'''', MaxReplicasBinding, MinReplicasBinding}"
  defines "out \<equiv> ApplyCapAndCooldown inp"
  shows "(sint (ci_Current inp) < sint (co_Target out) \<longleftrightarrow> co_Reason out \<in> {ScaleUp, StepCappedUp}) \<and>
    (sint (co_Target out) < sint (ci_Current inp) \<longleftrightarrow> co_Reason out \<in> {ScaleDown, StepCappedDown}) \<and>
    (co_ShouldPatch out \<longrightarrow> co_Reason out \<notin> {MaxReplicasBinding, MinReplicasBinding})"
proof -
  let ?r = "sint (ci_Recommended inp)" let ?c = "sint (ci_Current inp)"
  have t: "sint (co_Target out) = decide_spec ?r ?c (sint (ci_MaxStep inp)) (up_ready inp) (down_ready inp)"
    unfolding out_def by (rule ApplyCap_target [OF assms(1)])
  have p: "co_ShouldPatch out \<longleftrightarrow> sint (co_Target out) \<noteq> ?c"
    unfolding out_def by (rule ApplyCap_patch)
  consider "?c < ?r" | "?r < ?c" | "?r = ?c" by linarith
  then show ?thesis
    unfolding p t unfolding out_def ApplyCap_reason signed_less decide_spec_def
    using assms(2,3) by cases (auto simp: token_defs)
qed

theorem patch_reason_sound_witness:
  "no_overflow ex_cap_input \<and> 1 \<le> sint (ci_MaxStep ex_cap_input) \<and>
   co_Reason (ApplyCapAndCooldown ex_cap_input) \<in> {ScaleUp, StepCappedUp}"
proof -
  have h: "1 \<le> sint (ci_MaxStep ex_cap_input)"
    "ci_BindingReason ex_cap_input \<in> {'''', MaxReplicasBinding, MinReplicasBinding}"
    "sint (ci_Current ex_cap_input) = 3"
    by (simp_all add: ex_cap_input_def)
  then show ?thesis
    using patch_reason_sound [OF ex_cap_input_no_overflow h(1,2)] ex_cap_input_no_overflow
      ex_cap_input_target by simp
qed

text \<open>C18. Without the no-overflow condition the step cap fails: when \<^verbatim>\<open>Current + MaxStep\<close> exceeds the
  32-bit range, an elapsed cooldown and a recommendation above the current count make the code
  patch a negative replica count and report it as \<^verbatim>\<open>step_capped_up\<close>.\<close>

theorem step_cap_overflow:
  assumes "sint (ci_Current inp) < sint (ci_Recommended inp)" and "0 \<le> sint (ci_Current inp)"
    and "MaxInt32 < sint (ci_Current inp) + sint (ci_MaxStep inp)" and "up_ready inp"
  shows "sint (co_Target (ApplyCapAndCooldown inp)) < 0 \<and>
    co_ShouldPatch (ApplyCapAndCooldown inp) \<and> co_Reason (ApplyCapAndCooldown inp) = StepCappedUp"
proof -
  have s: "sint (ci_Current inp + ci_MaxStep inp) = sint (ci_Current inp) + sint (ci_MaxStep inp) - 4294967296"
    using assms(3) by (rule sint_add32_overflow)
  then have neg: "sint (ci_Current inp + ci_MaxStep inp) < 0"
    using sint32_le [of "ci_Current inp"] sint32_le [of "ci_MaxStep inp"] by linarith
  then have cap: "ci_Current inp + ci_MaxStep inp <s ci_Recommended inp"
    using assms(1,2) by (simp add: signed_less)
  have t: "co_Target (ApplyCapAndCooldown inp) = ci_Current inp + ci_MaxStep inp"
    using assms(1,4) cap by (simp add: ApplyCap_target_word signed_less)
  then show ?thesis
    using neg assms(1,2,4) cap by (simp add: ApplyCap_patch ApplyCap_reason signed_less)
qed

theorem step_cap_overflow_witness:
  "sint (co_Target (ApplyCapAndCooldown (ex_cap_input\<lparr>ci_MaxStep := 2147483647\<rparr>))) < 0"
  using step_cap_overflow [of "ex_cap_input\<lparr>ci_MaxStep := 2147483647\<rparr>"]
  by (simp add: ex_cap_input_def up_ready_def zero_time_def)

text \<open>The first scaling of a resource is never held back: with the zero time as the last
  scale-up and any clock after 1970, every \<^verbatim>\<open>int32\<close> cooldown has elapsed.\<close>

theorem first_scale_up_ready:
  assumes "ci_LastScaleUp inp = zero_time" and "0 \<le> ci_Now inp"
    and "sint (ci_Current inp) < sint (ci_Recommended inp)" and "no_overflow inp"
    and "1 \<le> sint (ci_MaxStep inp)"
  shows "co_ShouldPatch (ApplyCapAndCooldown inp)"
proof -
  have "up_ready inp"
    unfolding up_ready_def assms(1) zero_time_def
    using assms(2) sint32_le [of "ci_CooldownUp inp"] by linarith
  then have "sint (co_Target (ApplyCapAndCooldown inp)) \<noteq> sint (ci_Current inp)"
    using ApplyCap_target [OF assms(4)] assms(3,5) by (auto simp: decide_spec_def)
  then show ?thesis by (auto simp: ApplyCap_patch)
qed

theorem first_scale_up_ready_witness: "co_ShouldPatch (ApplyCapAndCooldown ex_cap_input)"
  using first_scale_up_ready [of ex_cap_input] ex_cap_input_no_overflow
  by (simp add: ex_cap_input_def)

fun scale_rounds :: "cap_input \<Rightarrow> nat \<Rightarrow> cap_input" where
  "scale_rounds inp 0 = inp"
| "scale_rounds inp (Suc n) = scale_rounds (inp\<lparr>ci_Current := co_Target (ApplyCapAndCooldown inp)\<rparr>) n"

lemma small_no_overflow:
  "\<bar>sint (ci_Current inp)\<bar> \<le> 2 ^ 30 \<Longrightarrow> \<bar>sint (ci_MaxStep inp)\<bar> < 2 ^ 30 \<Longrightarrow> no_overflow inp"
  by (auto simp: no_overflow_def in_i32_def)

lemma ready_update [simp]:
  "up_ready (inp\<lparr>ci_Current := c\<rparr>) = up_ready inp" "down_ready (inp\<lparr>ci_Current := c\<rparr>) = down_ready inp"
  by (simp_all add: up_ready_def down_ready_def)

text \<open>Rounds that no cooldown holds back converge: after \<open>n\<close> such rounds with
  \<open>n * MaxStep\<close> at least the distance, the replica count equals the recommendation (counts and
  step within 30 bits, so that no sum overflows).\<close>

theorem scale_rounds_converge:
  assumes "up_ready inp" "down_ready inp" "1 \<le> sint (ci_MaxStep inp)" "sint (ci_MaxStep inp) < 2 ^ 30"
    and "0 \<le> sint (ci_Current inp)" "sint (ci_Current inp) \<le> 2 ^ 30"
    and "0 \<le> sint (ci_Recommended inp)" "sint (ci_Recommended inp) \<le> 2 ^ 30"
    and "\<bar>sint (ci_Recommended inp) - sint (ci_Current inp)\<bar> \<le> int n * sint (ci_MaxStep inp)"
  shows "ci_Current (scale_rounds inp n) = ci_Recommended inp"
  using assms
proof (induction n arbitrary: inp)
  case 0
  then show ?case by (simp add: sint_eq_iff32)
next
  case (Suc n)
  let ?t = "co_Target (ApplyCapAndCooldown inp)" let ?i = "inp\<lparr>ci_Current := ?t\<rparr>"
  let ?r = "sint (ci_Recommended inp)" let ?c = "sint (ci_Current inp)" let ?s = "sint (ci_MaxStep inp)"
  have t: "sint ?t = decide_spec ?r ?c ?s True True"
    using ApplyCap_target [OF small_no_overflow, of inp] Suc.prems by simp
  define k where "k = int n * ?s"
  have k: "0 \<le> k" "\<bar>?r - ?c\<bar> \<le> k + ?s" using Suc.prems by (simp_all add: k_def algebra_simps)
  have d: "\<bar>?r - sint ?t\<bar> \<le> k" "min ?r ?c \<le> sint ?t" "sint ?t \<le> max ?r ?c"
    using k Suc.prems(3) t by (auto simp: decide_spec_def min_def max_def)
  then have "0 \<le> sint ?t" "sint ?t \<le> 2 ^ 30" using Suc.prems by (auto simp: min_def max_def split: if_splits)
  then have "ci_Current (scale_rounds ?i n) = ci_Recommended ?i"
    using Suc.prems d(1) by (intro Suc.IH) (simp_all add: k_def)
  then show ?case by simp
qed

theorem scale_rounds_converge_witness: "ci_Current (scale_rounds ex_cap_input 2) = 9"
  using scale_rounds_converge [of ex_cap_input 2]
  by (simp add: ex_cap_input_def up_ready_def down_ready_def zero_time_def)

section \<open>Properties of the recommendation\<close>

lemma trunc_rat_of_int [simp]: "trunc_rat (of_int n) = n"
  by (simp add: trunc_rat_def)

lemma ComputeUnbounded_in_range:
  assumes "0 \<le> p" "1 \<le> r" "p \<le> 2147483647"
  shows "sint (ComputeUnboundedRecommended pf (Fin p) (Fin r)) = \<lceil>rnd_rat (p / r)\<rceil>"
    and "\<lfloor>p / r\<rfloor> \<le> \<lceil>rnd_rat (p / r)\<rceil>" and "\<lceil>rnd_rat (p / r)\<rceil> \<le> \<lceil>p / r\<rceil>"
    and "0 \<le> \<lceil>rnd_rat (p / r)\<rceil>"
proof -
  have q: "0 \<le> p / r" "p / r \<le> 2147483647"
  proof -
    have "p * 1 \<le> p * r" using assms by (intro mult_left_mono) simp_all
    then have "p / r \<le> p" using assms(2) by (simp add: divide_le_eq)
    then show "p / r \<le> 2147483647" using assms(3) by linarith
  qed (use assms in simp)
  then have q53: "p / r \<le> 2 ^ 53" by simp
  show fl: "\<lfloor>p / r\<rfloor> \<le> \<lceil>rnd_rat (p / r)\<rceil>" and cl: "\<lceil>rnd_rat (p / r)\<rceil> \<le> \<lceil>p / r\<rceil>"
    using f64.rd_ceiling [OF q(1) q53] by simp_all
  have "0 \<le> \<lfloor>p / r\<rfloor>" using q(1) by simp
  then show nn: "0 \<le> \<lceil>rnd_rat (p / r)\<rceil>" using fl by linarith
  have "\<lceil>p / r\<rceil> \<le> MaxInt32" using q(2) by (simp add: ceiling_le_iff)
  then have i: "in_i32 \<lceil>rnd_rat (p / r)\<rceil>" using nn cl unfolding in_i32_def by linarith
  have "rnd (p / r) = Fin (rnd_rat (p / r))"
    using q by (intro rnd_finite_int [of _ 2147483647]) simp_all
  then show "sint (ComputeUnboundedRecommended pf (Fin p) (Fin r)) = \<lceil>rnd_rat (p / r)\<rceil>"
    using assms(2) i by (simp add: ComputeUnboundedRecommended_def i32_of_float_def sint_i32)
qed

text \<open>C16. The raw recommendation is the forecast divided by the capacity of a pod, rounded up, to
  within the rounding of the division: it lies between the floor and the ceiling of the exact
  quotient on every platform, for every finite non-negative forecast up to \<open>2\<^sup>3\<^sup>1 - 1\<close> and every
  capacity of at least one request per second.\<close>

theorem ComputeUnboundedRecommended_sandwich:
  assumes "0 \<le> p" "1 \<le> r" "p \<le> 2147483647"
  shows "\<lfloor>p / r\<rfloor> \<le> sint (ComputeUnboundedRecommended pf (Fin p) (Fin r)) \<and>
    sint (ComputeUnboundedRecommended pf (Fin p) (Fin r)) \<le> \<lceil>p / r\<rceil>"
  using ComputeUnbounded_in_range [OF assms] by simp

theorem ComputeUnboundedRecommended_sandwich_witness:
  "10 \<le> sint (ComputeUnboundedRecommended \<lparr>cvt_i32 = \<lambda>_. 0, cvt_i64 = \<lambda>_. 0, math_Log2 = id\<rparr> (Fin 1040) (Fin 100)) \<and>
   sint (ComputeUnboundedRecommended \<lparr>cvt_i32 = \<lambda>_. 0, cvt_i64 = \<lambda>_. 0, math_Log2 = id\<rparr> (Fin 1040) (Fin 100)) \<le> 11"
proof -
  have "\<lfloor>1040 / 100 :: rat\<rfloor> = 10" "\<lceil>1040 / 100 :: rat\<rceil> = 11"
    by (simp_all add: floor_eq_iff ceiling_eq_iff)
  then show ?thesis using ComputeUnboundedRecommended_sandwich [of 1040 100] by simp
qed

text \<open>Beyond the \<^verbatim>\<open>int32\<close> range the conversion is the platform's. On amd64, where it yields the
  smallest \<^verbatim>\<open>int32\<close>, a forecast of \<open>2\<^sup>3\<^sup>1\<close> pods or more is clamped to the minimum replica count
  and reported as \<^verbatim>\<open>min_replicas_binding\<close>.\<close>

theorem ComputeUnbounded_wraps_low:
  assumes "cvt_i32 pf = (\<lambda>_. i32 MinInt32)" and "1 \<le> r" and "2147483648 * r \<le> p" and "p \<le> 2 ^ 53"
    and "MinInt32 < sint mn" and "sint mn \<le> sint mx"
  shows "ClampRecommended (ComputeUnboundedRecommended pf (Fin p) (Fin r)) mn mx
    = (mn, ''min_replicas_binding'')"
proof -
  have p: "0 \<le> p" using assms(2,3) by linarith
  have q: "2147483648 \<le> p / r" using assms(2,3) by (simp add: le_divide_eq)
  have "p * 1 \<le> p * r" using p assms(2) by (intro mult_left_mono)
  then have "p / r \<le> p" using assms(2) by (simp add: divide_le_eq)
  then have q53: "p / r \<le> of_int (2 ^ 53)" using assms(4) by simp
  have r: "rnd (p / r) = Fin (rnd_rat (p / r))"
    using q q53 by (intro rnd_finite_int [of _ "2 ^ 53"]) simp_all
  have "2147483648 \<le> rnd_rat (p / r)"
    using f64.rd_ge_int [of 2147483648 "p / r"] q by simp
  then have "2147483648 \<le> \<lceil>rnd_rat (p / r)\<rceil>" by (simp add: le_ceiling_iff)
  then have "ComputeUnboundedRecommended pf (Fin p) (Fin r) = i32 MinInt32"
    using assms(1,2) r by (simp add: ComputeUnboundedRecommended_def i32_of_float_def in_i32_def)
  moreover have "sint (i32 MinInt32) = MinInt32" by (simp add: sint_i32 in_i32_def)
  ultimately show ?thesis using assms(5,6) by (simp add: ClampRecommended_def signed_less)
qed

theorem ComputeUnbounded_wraps_low_witness:
  "ClampRecommended (ComputeUnboundedRecommended \<lparr>cvt_i32 = \<lambda>_. i32 MinInt32, cvt_i64 = \<lambda>_. 0, math_Log2 = id\<rparr>
     (Fin 4294967296) (Fin 1)) 2 10 = (2, ''min_replicas_binding'')"
  using ComputeUnbounded_wraps_low [of "\<lparr>cvt_i32 = \<lambda>_. i32 MinInt32, cvt_i64 = \<lambda>_. 0, math_Log2 = id\<rparr>" 1 4294967296 2 10]
  by simp

text \<open>The clamp returns the nearest value of the CRD range and names the bound that was binding:
  \<^verbatim>\<open>max_replicas_binding\<close> exactly when the raw value is above the maximum, \<^verbatim>\<open>min_replicas_binding\<close>
  exactly when it is below the minimum, nothing otherwise.\<close>

theorem ClampRecommended_nearest:
  assumes "sint mn \<le> sint mx"
  shows "sint (fst (ClampRecommended u mn mx)) = max (sint mn) (min (sint mx) (sint u)) \<and>
    (snd (ClampRecommended u mn mx) = MaxReplicasBinding \<longleftrightarrow> sint mx < sint u) \<and>
    (snd (ClampRecommended u mn mx) = MinReplicasBinding \<longleftrightarrow> sint u < sint mn) \<and>
    (snd (ClampRecommended u mn mx) = '''' \<longleftrightarrow> sint mn \<le> sint u \<and> sint u \<le> sint mx)"
  using assms by (auto simp: ClampRecommended_def signed_less token_defs)

theorem ClampRecommended_nearest_witness:
  "sint (fst (ClampRecommended 15 2 10)) = 10 \<and> snd (ClampRecommended 15 2 10) = MaxReplicasBinding"
  using ClampRecommended_nearest [of 2 10 15] by simp

section \<open>Properties of the calibration\<close>

text \<open>The clamped capacity lies in the configured range for every value but not-a-number,
  infinities included, and not-a-number passes the clamp unchanged.\<close>

theorem ClampRpsPerPod_in_range:
  assumes "sint mn \<le> sint mx"
  shows "(v \<noteq> NaN \<longrightarrow> in_range (sint mn) (sint mx) (ClampRpsPerPod v mn mx)) \<and>
    ClampRpsPerPod NaN mn mx = NaN"
proof -
  have "(of_int (sint mn) :: rat) \<le> of_int (sint mx)" using assms by simp
  then show ?thesis
    by (cases v) (auto simp: ClampRpsPerPod_def float_of_i32_def in_range_def)
qed

theorem ClampRpsPerPod_in_range_witness: "in_range 50 500 (ClampRpsPerPod PInf 50 500)"
  using ClampRpsPerPod_in_range [of 50 500 PInf] by simp

text \<open>A not-a-number reading of the current load passes the steady-state gate: with at least one
  replica and the system past its transient the gate opens, so the value reaches the ring buffer.\<close>

theorem nan_observation_accepted:
  assumes "1 \<le> sint replicas" and "2 * interval \<le>s Sub now lastScale"
  shows "ShouldUpdateRpsPerPodWithFloor NaN replicas lastScale now interval nf \<and>
    (Push rb (fdiv NaN (float_of_i32 replicas)) = Some rb' \<longrightarrow> NaN \<in> set (Values rb'))"
  using assms
  by (auto simp: ShouldUpdateRpsPerPodWithFloor_def signed_less float_of_i32_def Push_def Values_def
      split: if_splits list.splits)

theorem nan_observation_accepted_witness:
  "ShouldUpdateRpsPerPodWithFloor NaN 2 zero_time (1700000000 * ns_Second) (Duration_of_i32 60 * Second) (Fin 10)"
proof -
  have "2 * (Duration_of_i32 60 * Second) \<le>s Sub (1700000000 * ns_Second) zero_time"
    by (simp add: signed_le Duration_of_i32_def Second_def Sub_def zero_time_def)
  then show ?thesis using nan_observation_accepted [of 2] by simp
qed

text \<open>The restart seed keeps the persisted calibration: after \<open>InitializeFromStatus\<close> with a
  usable persisted value, the median of the ring buffer is exactly that value through the next
  four observations, whatever they are.\<close>

theorem restart_seed_dominates:
  assumes "seed_InBounds seed" "seed_RpsPerPodCurrent seed = float_of_i32 k" "0 < sint k"
    and "length vs \<le> 4"
  defines "st \<equiv> InitializeFromStatus (fresh_state 10) seed"
  shows "ps_RpsPerPod st = float_of_i32 k \<and>
    (\<exists>rb. PushAll (ps_Observations st) vs = Some rb \<and> Median rb = float_of_i32 k)"
proof -
  let ?rb = "SeedN (NewRingBuffer 10) (float_of_i32 k) 5"
  have st: "ps_Observations st = ?rb" "ps_RpsPerPod st = float_of_i32 k"
    using assms(1-3) by (simp_all add: st_def InitializeFromStatus_def fresh_state_def Let_def
        RestartSeedCopies_def float_of_i32_def)
  have d: "rb_data ?rb = replicate 5 (Fin (of_int (sint k)))" and c: "rb_cap ?rb = 10"
    by (simp_all add: SeedN_data NewRingBuffer_def float_of_i32_def)
  have wf: "rb_wf ?rb" by (simp add: NewRingBuffer_def)
  let ?rb' = "?rb\<lparr>rb_data := rb_data ?rb @ vs\<rparr>"
  have "PushAll ?rb vs = Some ?rb'"
    using PushAll_window [OF wf, of vs] assms(4) lastn_id [of "rb_data ?rb @ vs" 10] c d
    by (simp del: SeedN_cap)
  moreover have "Median ?rb' = Fin (of_int (sint k))"
    using assms(4) sint32_small [of k]
    by (intro Median_majority [of _ 5 _ vs]) (simp_all add: d)
  ultimately show ?thesis using st by (simp add: float_of_i32_def)
qed

theorem restart_seed_dominates_witness:
  "\<exists>rb. PushAll (ps_Observations (InitializeFromStatus (fresh_state 10)
      \<lparr>seed_RpsPerPodCurrent = float_of_i32 120, seed_InBounds = True, seed_Midpoint = Fin 275,
       seed_LastScaleTime = zero_time\<rparr>)) [Fin 1, Fin 900, NaN, PInf] = Some rb \<and>
    Median rb = float_of_i32 120"
  using restart_seed_dominates [of "\<lparr>seed_RpsPerPodCurrent = float_of_i32 120, seed_InBounds = True,
    seed_Midpoint = Fin 275, seed_LastScaleTime = zero_time\<rparr>" 120 "[Fin 1, Fin 900, NaN, PInf]"]
  by simp

end
