(* ===== verification/ParseFloat.thy ===== *)
theory ParseFloat
  imports GoText
begin

text \<open>
  \<^verbatim>\<open>strconv.ParseFloat(s, 64)\<close>, which reads the configuration's \<^verbatim>\<open>CV_GUARD_MEAN_RPS\<close> and every
  sample of a Prometheus response: the special values, decimal and hexadecimal literals with
  digit separators, and the nearest \<^verbatim>\<open>float64\<close> of the exact value; out of range is an error.
  The scanner reads the exact significand, so no digit is lost before the one rounding.
\<close>

definition lower :: "char \<Rightarrow> char" where
  "lower c = (let n = (of_char c :: nat) in if 65 \<le> n \<and> n \<le> 90 then char_of (n + 32) else c)"

definition is_hex_letter :: "char \<Rightarrow> bool" where
  "is_hex_letter c \<longleftrightarrow> lower c \<in> set ''abcdef''"

definition hex_val :: "char \<Rightarrow> nat" where
  "hex_val c = (if is_digit c then digit_val c else of_char (lower c) - 87)"

definition special :: "string \<Rightarrow> float64 option" where
  "special s =
     (let t = map lower s in
      if t = ''nan'' then Some NaN
      else if t \<in> {''inf'', ''infinity'', ''+inf'', ''+infinity''} then Some PInf
      else if t \<in> {''-inf'', ''-infinity''} then Some NInf
      else None)"

text \<open>Digits with an optional point: significand, digits after the point, digits seen, rest.\<close>

fun scan_mant :: "bool \<Rightarrow> nat \<Rightarrow> nat \<Rightarrow> bool \<Rightarrow> bool \<Rightarrow> string \<Rightarrow> nat \<times> nat \<times> bool \<times> string" where
  "scan_mant hex m fd dot seen [] = (m, fd, seen, [])"
| "scan_mant hex m fd dot seen (c # cs) =
     (if c = CHR ''_'' then scan_mant hex m fd dot seen cs
      else if c = CHR ''.'' then
        (if dot then (m, fd, seen, c # cs) else scan_mant hex m fd True seen cs)
      else if is_digit c \<or> hex \<and> is_hex_letter c then
        scan_mant hex ((if hex then 16 else 10) * m + hex_val c)
          (if dot then fd + 1 else fd) dot True cs
      else (m, fd, seen, c # cs))"

fun scan_exp :: "int \<Rightarrow> string \<Rightarrow> int \<times> string" where
  "scan_exp e [] = (e, [])"
| "scan_exp e (c # cs) =
     (if c = CHR ''_'' then scan_exp e cs
      else if is_digit c then scan_exp (if e < 10000 then 10 * e + int (digit_val c) else e) cs
      else (e, c # cs))"

definition read_exp :: "string \<Rightarrow> (int \<times> string) option" where
  "read_exp s =
     (let (sg, t) = (case s of
          c # cs \<Rightarrow> (if c = CHR ''+'' then (1, cs) else if c = CHR ''-'' then (- 1, cs) else (1, s))
        | [] \<Rightarrow> (1, []))
      in case t of
           [] \<Rightarrow> None
         | c # _ \<Rightarrow> (if is_digit c then (let (e, r) = scan_exp 0 t in Some (sg * e, r)) else None))"

datatype us_state = Us_Start | Us_Digit | Us_Under | Us_Other

fun underscores :: "bool \<Rightarrow> us_state \<Rightarrow> string \<Rightarrow> bool" where
  "underscores hex saw [] \<longleftrightarrow> saw \<noteq> Us_Under"
| "underscores hex saw (c # cs) \<longleftrightarrow>
     (if is_digit c \<or> hex \<and> is_hex_letter c then underscores hex Us_Digit cs
      else if c = CHR ''_'' then saw = Us_Digit \<and> underscores hex Us_Under cs
      else saw \<noteq> Us_Under \<and> underscores hex Us_Other cs)"

definition strip_sign :: "string \<Rightarrow> bool \<times> string" where
  "strip_sign s = (case s of
     c # cs \<Rightarrow> (if c = CHR ''+'' then (False, cs) else if c = CHR ''-'' then (True, cs) else (False, s))
   | [] \<Rightarrow> (False, []))"

definition underscoreOK :: "string \<Rightarrow> bool" where
  "underscoreOK s =
     (let t = snd (strip_sign s) in
      case t of
        z # x # rest \<Rightarrow>
          (if z = CHR ''0'' \<and> lower x \<in> set ''box''
           then underscores (lower x = CHR ''x'') Us_Digit rest
           else underscores False Us_Start t)
      | _ \<Rightarrow> underscores False Us_Start t)"

text \<open>The exact value of a literal, \<^const>\<open>None\<close> if the text is not one.\<close>

definition read_float :: "string \<Rightarrow> rat option" where
  "read_float s =
     (let (neg, t) = strip_sign s;
          (hex, body) = (case t of
             z # x # y # rest \<Rightarrow> (if z = CHR ''0'' \<and> lower x = CHR ''x'' then (True, y # rest) else (False, t))
           | _ \<Rightarrow> (False, t));
          (m, fd, seen, rest) = scan_mant hex 0 0 False False body;
          base_val = (\<lambda>e. (if hex then of_nat m / 16 ^ fd * pow2 e
             else of_nat m / 10 ^ fd * (if 0 \<le> e then 10 ^ nat e else 1 / 10 ^ nat (- e))) :: rat);
          val = (if \<not> seen then None
                 else case rest of
                   c # r \<Rightarrow>
                     (if lower c = (if hex then CHR ''p'' else CHR ''e'') then
                        (case read_exp r of
                           Some (e, []) \<Rightarrow> Some (base_val e)
                         | _ \<Rightarrow> None)
                      else None)
                 | [] \<Rightarrow> (if hex then None else Some (base_val 0)))
      in case val of
           None \<Rightarrow> None
         | Some v \<Rightarrow> (if CHR ''_'' \<in> set s \<and> \<not> underscoreOK s then None
                     else Some (if neg then - v else v)))"

definition ParseFloat64 :: "string \<Rightarrow> num_error + float64" where
  "ParseFloat64 s =
     (case special s of
        Some v \<Rightarrow> Inr v
      | None \<Rightarrow>
        (case read_float s of
           None \<Rightarrow> Inl ErrSyntax
         | Some v \<Rightarrow> (case rnd v of Fin x \<Rightarrow> Inr (Fin x) | _ \<Rightarrow> Inl ErrRange)))"

lemma ParseFloat64_examples:
  "ParseFloat64 ''1.0'' = Inr (Fin 1)" "ParseFloat64 ''NaN'' = Inr NaN"
  "ParseFloat64 ''-0.5e+1'' = Inr (Fin (-5))" "ParseFloat64 ''0x1p-2'' = Inr (Fin (1 / 4))"
  "ParseFloat64 ''1_0'' = Inr (Fin 10)" "ParseFloat64 ''1__0'' = Inl ErrSyntax"
  "ParseFloat64 ''abc'' = Inl ErrSyntax" "ParseFloat64 '''' = Inl ErrSyntax"
  by code_simp+

text \<open>Infinities and not-a-number are read only from their names.\<close>

lemma ParseFloat64_special:
  "ParseFloat64 s = Inr v \<Longrightarrow> v \<in> {NaN, PInf, NInf} \<Longrightarrow> special s = Some v"
  by (auto simp: ParseFloat64_def split: option.splits float64.splits)

end
