(* ===== verification/Config.thy ===== *)
theory Config
  imports ParseFloat
begin

text \<open>
  \<^verbatim>\<open>internal/config/config.go\<close>: the controller's configuration from environment variables.
  The environment is a function from names to values, the empty string for an unset variable
  (as \<^verbatim>\<open>os.Getenv\<close> returns). The accumulated list of problems is threaded through the readers
  as in the code, with one constructor of \<open>config_error\<close> per message.
\<close>

record config =
  cfg_ForecastServiceURL :: string
  cfg_PrometheusURL :: string
  cfg_ReconcileInterval :: duration
  cfg_HotPathHistory :: duration
  cfg_HotPathMinPoints :: int32
  cfg_ForecastTimeout :: duration
  cfg_ProphetMinPoints :: int32
  cfg_ClassifierInterval :: duration
  cfg_ClassifierHistory :: duration
  cfg_ClassifierMinPoints :: int32
  cfg_ClassifierHighConfidencePoints :: int32
  cfg_ClassifierDedup :: duration
  cfg_ContextResolutionMinutes :: int32
  cfg_CVGuardMeanRPS :: float64
  cfg_RpsPerPodNoiseFloorRPS :: int32
  cfg_HourlyProfileMinHours :: int32
  cfg_DefaultScaleUpCooldown :: duration
  cfg_DefaultScaleDownCooldown :: duration
  cfg_DefaultMaxStepSize :: int32
  cfg_OllamaURL :: string
  cfg_OllamaModel :: string
  cfg_OllamaTimeout :: duration
  cfg_OllamaMaxTokens :: int32

datatype config_error =
    Required string
  | ParseError string string num_error \<comment> \<open>variable, its value, the error of strconv\<close>
  | ResolutionBelow1 int32
  | MinPointsBelowFloor int32 int32 int32
  | ProfileHoursRange int32
  | CVGuardNegative float64
  | NoiseFloorNegative int32
  | HighConfidenceBelowMin int32 int32
  | MaxStepBelow1 int32
  | HotPathPointsBelow1 int32
  | UpCooldownNegative int
  | DownCooldownNegative int

section \<open>Readers\<close>

definition cfg_envIntOrDefault ::
    "(string \<Rightarrow> string) \<Rightarrow> string \<Rightarrow> int32 \<Rightarrow> config_error list \<Rightarrow> int32 \<times> config_error list" where
  "cfg_envIntOrDefault env name def errs =
     (let raw = env name in
      if raw = '''' then (def, errs)
      else case ParseInt32 raw of
        Inl e \<Rightarrow> (def, errs @ [ParseError name raw e])
      | Inr v \<Rightarrow> (i32 v, errs))"

definition envFloat64OrDefault ::
    "(string \<Rightarrow> string) \<Rightarrow> string \<Rightarrow> float64 \<Rightarrow> config_error list \<Rightarrow> float64 \<times> config_error list" where
  "envFloat64OrDefault env name def errs =
     (let raw = env name in
      if raw = '''' then (def, errs)
      else case ParseFloat64 raw of
        Inl e \<Rightarrow> (def, errs @ [ParseError name raw e])
      | Inr v \<Rightarrow> (v, errs))"

definition durationAsInt32 :: "duration \<Rightarrow> duration \<Rightarrow> int32" where
  "durationAsInt32 d unit =
     (let v = trunc_div (sint d) (sint unit) in
      if v > MaxInt32 then i32 MaxInt32 else if v < MinInt32 then i32 MinInt32 else i32 v)"

definition env_unit_OrDefault ::
    "duration \<Rightarrow> (string \<Rightarrow> string) \<Rightarrow> string \<Rightarrow> duration \<Rightarrow> config_error list \<Rightarrow> duration \<times> config_error list" where
  "env_unit_OrDefault unit env name def errs =
     (let (v, errs) = cfg_envIntOrDefault env name (durationAsInt32 def unit) errs
      in (Duration_of_i32 v * unit, errs))"

definition envSecondsOrDefault ::
    "(string \<Rightarrow> string) \<Rightarrow> string \<Rightarrow> duration \<Rightarrow> config_error list \<Rightarrow> duration \<times> config_error list" where
  "envSecondsOrDefault = env_unit_OrDefault Second"

definition envMinutesOrDefault ::
    "(string \<Rightarrow> string) \<Rightarrow> string \<Rightarrow> duration \<Rightarrow> config_error list \<Rightarrow> duration \<times> config_error list" where
  "envMinutesOrDefault = env_unit_OrDefault Minute"

definition envHoursOrDefault ::
    "(string \<Rightarrow> string) \<Rightarrow> string \<Rightarrow> duration \<Rightarrow> config_error list \<Rightarrow> duration \<times> config_error list" where
  "envHoursOrDefault = env_unit_OrDefault Hour"

definition envStringOrDefault :: "(string \<Rightarrow> string) \<Rightarrow> string \<Rightarrow> string \<Rightarrow> string" where
  "envStringOrDefault env name def = (if env name \<noteq> '''' then env name else def)"

section \<open>Validation\<close>

definition validate_resolution :: "config \<Rightarrow> config_error list" where
  "validate_resolution c =
     (if cfg_ContextResolutionMinutes c <s 1 then [ResolutionBelow1 (cfg_ContextResolutionMinutes c)]
      else let lag = i32 (trunc_div 60 (sint (cfg_ContextResolutionMinutes c)));
               floor = lag + 10
           in if cfg_ClassifierMinPoints c <s floor
              then [MinPointsBelowFloor (cfg_ClassifierMinPoints c) floor (cfg_ContextResolutionMinutes c)]
              else [])"

definition cfg_validate :: "config \<Rightarrow> config_error list" where
  "cfg_validate c =
     validate_resolution c
     @ (if cfg_HourlyProfileMinHours c <s 1 \<or> 24 <s cfg_HourlyProfileMinHours c
        then [ProfileHoursRange (cfg_HourlyProfileMinHours c)] else [])
     @ (if flt (cfg_CVGuardMeanRPS c) (Fin 0) then [CVGuardNegative (cfg_CVGuardMeanRPS c)] else [])
     @ (if cfg_RpsPerPodNoiseFloorRPS c <s 0 then [NoiseFloorNegative (cfg_RpsPerPodNoiseFloorRPS c)] else [])
     @ (if cfg_ClassifierHighConfidencePoints c <s cfg_ClassifierMinPoints c
        then [HighConfidenceBelowMin (cfg_ClassifierHighConfidencePoints c) (cfg_ClassifierMinPoints c)] else [])
     @ (if cfg_DefaultMaxStepSize c <s 1 then [MaxStepBelow1 (cfg_DefaultMaxStepSize c)] else [])
     @ (if cfg_HotPathMinPoints c <s 1 then [HotPathPointsBelow1 (cfg_HotPathMinPoints c)] else [])
     @ (if cfg_DefaultScaleUpCooldown c <s 0
        then [UpCooldownNegative (trunc_div (sint (cfg_DefaultScaleUpCooldown c)) ns_Second)] else [])
     @ (if cfg_DefaultScaleDownCooldown c <s 0
        then [DownCooldownNegative (trunc_div (sint (cfg_DefaultScaleDownCooldown c)) ns_Second)] else [])"

section \<open>Loading\<close>

definition secs :: "int \<Rightarrow> duration" where "secs n = word_of_int (n * ns_Second)"
definition mins :: "int \<Rightarrow> duration" where "mins n = word_of_int (n * ns_Minute)"
definition hours :: "int \<Rightarrow> duration" where "hours n = word_of_int (n * ns_Hour)"

text \<open>The body of \<^verbatim>\<open>LoadFromEnv\<close> up to the call of \<^verbatim>\<open>validate\<close>.\<close>

definition read_env :: "(string \<Rightarrow> string) \<Rightarrow> config \<times> config_error list" where
  "read_env env =
     (let errs = [];
          forecastURL = env ''FORECAST_SERVICE_URL'';
          errs = (if forecastURL = '''' then errs @ [Required ''FORECAST_SERVICE_URL''] else errs);
          promURL = env ''PROMETHEUS_URL'';
          errs = (if promURL = '''' then errs @ [Required ''PROMETHEUS_URL''] else errs);
          (reconcileInterval, errs) = envSecondsOrDefault env ''RECONCILE_INTERVAL_SECONDS'' (secs 60) errs;
          (hotPathHistory, errs) = envMinutesOrDefault env ''HOT_PATH_HISTORY_MINUTES'' (mins 60) errs;
          (hotPathMinPoints, errs) = cfg_envIntOrDefault env ''HOT_PATH_MIN_POINTS'' 10 errs;
          (forecastTimeout, errs) = envSecondsOrDefault env ''FORECAST_TIMEOUT_SECONDS'' (secs 5) errs;
          (prophetMinPoints, errs) = cfg_envIntOrDefault env ''PROPHET_MIN_POINTS'' 30 errs;
          (classifierInterval, errs) = envMinutesOrDefault env ''CLASSIFIER_INTERVAL_MINUTES'' (mins 30) errs;
          (classifierHistory, errs) = envHoursOrDefault env ''CLASSIFIER_HISTORY_HOURS'' (hours 24) errs;
          (classifierMinPoints, errs) = cfg_envIntOrDefault env ''CLASSIFIER_MIN_POINTS'' 72 errs;
          (classifierHighConf, errs) = cfg_envIntOrDefault env ''CLASSIFIER_HIGH_CONFIDENCE_POINTS'' 240 errs;
          (classifierDedup, errs) = envSecondsOrDefault env ''CLASSIFIER_DEDUP_SECONDS'' (secs 60) errs;
          (contextResolution, errs) = cfg_envIntOrDefault env ''CONTEXT_DOWNSAMPLE_RESOLUTION_MIN'' 5 errs;
          (cvGuard, errs) = envFloat64OrDefault env ''CV_GUARD_MEAN_RPS'' (Fin 1) errs;
          (noiseFloor, errs) = cfg_envIntOrDefault env ''RPS_PER_POD_NOISE_FLOOR_RPS'' 10 errs;
          (profileMinHours, errs) = cfg_envIntOrDefault env ''HOURLY_PROFILE_MIN_HOURS'' 12 errs;
          (upCooldown, errs) = envSecondsOrDefault env ''DEFAULT_SCALE_UP_COOLDOWN_SECONDS'' (secs 60) errs;
          (downCooldown, errs) = envSecondsOrDefault env ''DEFAULT_SCALE_DOWN_COOLDOWN_SECONDS'' (secs 300) errs;
          (maxStep, errs) = cfg_envIntOrDefault env ''DEFAULT_MAX_STEP_SIZE'' 4 errs;
          ollamaURL = envStringOrDefault env ''OLLAMA_URL'' ''http://localhost:11434'';
          ollamaModel = envStringOrDefault env ''OLLAMA_MODEL'' ''llama3.2'';
          (ollamaTimeout, errs) = envSecondsOrDefault env ''OLLAMA_TIMEOUT_SECONDS'' (secs 30) errs;
          (ollamaMaxTokens, errs) = cfg_envIntOrDefault env ''OLLAMA_MAX_TOKENS'' 150 errs
      in (\<lparr>cfg_ForecastServiceURL = forecastURL, cfg_PrometheusURL = promURL,
            cfg_ReconcileInterval = reconcileInterval, cfg_HotPathHistory = hotPathHistory,
            cfg_HotPathMinPoints = hotPathMinPoints, cfg_ForecastTimeout = forecastTimeout,
            cfg_ProphetMinPoints = prophetMinPoints, cfg_ClassifierInterval = classifierInterval,
            cfg_ClassifierHistory = classifierHistory, cfg_ClassifierMinPoints = classifierMinPoints,
            cfg_ClassifierHighConfidencePoints = classifierHighConf, cfg_ClassifierDedup = classifierDedup,
            cfg_ContextResolutionMinutes = contextResolution, cfg_CVGuardMeanRPS = cvGuard,
            cfg_RpsPerPodNoiseFloorRPS = noiseFloor, cfg_HourlyProfileMinHours = profileMinHours,
            cfg_DefaultScaleUpCooldown = upCooldown, cfg_DefaultScaleDownCooldown = downCooldown,
            cfg_DefaultMaxStepSize = maxStep, cfg_OllamaURL = ollamaURL, cfg_OllamaModel = ollamaModel,
            cfg_OllamaTimeout = ollamaTimeout, cfg_OllamaMaxTokens = ollamaMaxTokens\<rparr>, errs))"

definition LoadFromEnv :: "(string \<Rightarrow> string) \<Rightarrow> config_error list + config" where
  "LoadFromEnv env =
     (let (cfg, errs) = read_env env;
          errs = errs @ cfg_validate cfg
      in if errs \<noteq> [] then Inl errs else Inr cfg)"

section \<open>What the readers return\<close>

definition int_value :: "(string \<Rightarrow> string) \<Rightarrow> string \<Rightarrow> int32 \<Rightarrow> int32" where
  "int_value env name def =
     (if env name = '''' then def else case ParseInt32 (env name) of Inl _ \<Rightarrow> def | Inr v \<Rightarrow> i32 v)"

definition int_problem :: "(string \<Rightarrow> string) \<Rightarrow> string \<Rightarrow> config_error list" where
  "int_problem env name =
     (if env name = '''' then [] else case ParseInt32 (env name) of
        Inl e \<Rightarrow> [ParseError name (env name) e] | Inr _ \<Rightarrow> [])"

lemma envInt_eq: "cfg_envIntOrDefault env name def errs = (int_value env name def, errs @ int_problem env name)"
  by (simp add: cfg_envIntOrDefault_def int_value_def int_problem_def Let_def split: sum.splits)

lemma env_unit_eq:
  "env_unit_OrDefault unit env name def errs =
     (Duration_of_i32 (int_value env name (durationAsInt32 def unit)) * unit, errs @ int_problem env name)"
  by (simp add: env_unit_OrDefault_def envInt_eq)

definition float_value :: "(string \<Rightarrow> string) \<Rightarrow> string \<Rightarrow> float64 \<Rightarrow> float64" where
  "float_value env name def =
     (if env name = '''' then def else case ParseFloat64 (env name) of Inl _ \<Rightarrow> def | Inr v \<Rightarrow> v)"

definition float_problem :: "(string \<Rightarrow> string) \<Rightarrow> string \<Rightarrow> config_error list" where
  "float_problem env name =
     (if env name = '''' then [] else case ParseFloat64 (env name) of
        Inl e \<Rightarrow> [ParseError name (env name) e] | Inr _ \<Rightarrow> [])"

lemma envFloat_eq:
  "envFloat64OrDefault env name def errs = (float_value env name def, errs @ float_problem env name)"
  by (simp add: envFloat64OrDefault_def float_value_def float_problem_def Let_def split: sum.splits)

lemmas reader_eqs = envInt_eq envFloat_eq env_unit_eq envSecondsOrDefault_def envMinutesOrDefault_def
  envHoursOrDefault_def

definition int_vars :: "string list" where
  "int_vars = [''RECONCILE_INTERVAL_SECONDS'', ''HOT_PATH_HISTORY_MINUTES'', ''HOT_PATH_MIN_POINTS'',
     ''FORECAST_TIMEOUT_SECONDS'', ''PROPHET_MIN_POINTS'', ''CLASSIFIER_INTERVAL_MINUTES'',
     ''CLASSIFIER_HISTORY_HOURS'', ''CLASSIFIER_MIN_POINTS'', ''CLASSIFIER_HIGH_CONFIDENCE_POINTS'',
     ''CLASSIFIER_DEDUP_SECONDS'', ''CONTEXT_DOWNSAMPLE_RESOLUTION_MIN'', ''RPS_PER_POD_NOISE_FLOOR_RPS'',
     ''HOURLY_PROFILE_MIN_HOURS'', ''DEFAULT_SCALE_UP_COOLDOWN_SECONDS'',
     ''DEFAULT_SCALE_DOWN_COOLDOWN_SECONDS'', ''DEFAULT_MAX_STEP_SIZE'', ''OLLAMA_TIMEOUT_SECONDS'',
     ''OLLAMA_MAX_TOKENS'']"

definition url_problem :: "(string \<Rightarrow> string) \<Rightarrow> string \<Rightarrow> config_error list" where
  "url_problem env name = (if env name = '''' then [Required name] else [])"

text \<open>The problems found while reading: the two required variables, then every unreadable one.\<close>

lemma read_env_problems:
  "set (snd (read_env env)) =
     set (url_problem env ''FORECAST_SERVICE_URL'') \<union> set (url_problem env ''PROMETHEUS_URL'') \<union>
     (\<Union>name \<in> set int_vars. set (int_problem env name)) \<union> set (float_problem env ''CV_GUARD_MEAN_RPS'')"
  by (simp add: read_env_def Let_def reader_eqs url_problem_def int_vars_def) blast

lemma read_env_urls:
  "cfg_ForecastServiceURL (fst (read_env env)) = env ''FORECAST_SERVICE_URL''"
  "cfg_PrometheusURL (fst (read_env env)) = env ''PROMETHEUS_URL''"
  by (simp_all add: read_env_def Let_def reader_eqs)

lemma LoadFromEnv_Inr:
  "LoadFromEnv env = Inr cfg \<longleftrightarrow> read_env env = (cfg, []) \<and> cfg_validate cfg = []"
  by (auto simp: LoadFromEnv_def Let_def split: prod.splits if_splits)

lemma LoadFromEnv_Inl:
  "LoadFromEnv env = Inl errs \<longleftrightarrow>
     errs = snd (read_env env) @ cfg_validate (fst (read_env env)) \<and> errs \<noteq> []"
  by (auto simp: LoadFromEnv_def Let_def split: prod.splits if_splits)

section \<open>What validation guarantees\<close>

definition config_ok :: "config \<Rightarrow> bool" where
  "config_ok c \<longleftrightarrow>
     1 \<le> sint (cfg_ContextResolutionMinutes c) \<and>
     60 div sint (cfg_ContextResolutionMinutes c) + 10 \<le> sint (cfg_ClassifierMinPoints c) \<and>
     1 \<le> sint (cfg_HourlyProfileMinHours c) \<and> sint (cfg_HourlyProfileMinHours c) \<le> 24 \<and>
     \<not> flt (cfg_CVGuardMeanRPS c) (Fin 0) \<and>
     0 \<le> sint (cfg_RpsPerPodNoiseFloorRPS c) \<and>
     sint (cfg_ClassifierMinPoints c) \<le> sint (cfg_ClassifierHighConfidencePoints c) \<and>
     1 \<le> sint (cfg_DefaultMaxStepSize c) \<and> 1 \<le> sint (cfg_HotPathMinPoints c) \<and>
     0 \<le> sint (cfg_DefaultScaleUpCooldown c) \<and> 0 \<le> sint (cfg_DefaultScaleDownCooldown c)"

lemma lag_floor:
  assumes "1 \<le> r"
  shows "sint (i32 (trunc_div 60 r) + 10) = 60 div r + 10"
proof -
  have "60 div r \<le> 60 div 1" using assms by (intro zdiv_mono2) simp_all
  then have b: "0 \<le> 60 div r" "60 div r \<le> 60" using assms by (simp_all add: pos_imp_zdiv_nonneg_iff)
  have "trunc_div 60 r = 60 div r" using assms by (simp add: trunc_div_def Let_def)
  then have "sint (i32 (trunc_div 60 r)) = 60 div r" using b by (simp add: sint_i32 in_i32_def)
  then show ?thesis using b by (subst sint_add32) (simp_all add: in_i32_def)
qed

lemma validate_resolution_Nil:
  "validate_resolution c = [] \<longleftrightarrow> 1 \<le> sint (cfg_ContextResolutionMinutes c) \<and>
     60 div sint (cfg_ContextResolutionMinutes c) + 10 \<le> sint (cfg_ClassifierMinPoints c)"
  by (auto simp: validate_resolution_def Let_def signed_less lag_floor)

lemma cfg_validate_Nil: "cfg_validate c = [] \<longleftrightarrow> config_ok c"
  by (auto simp: cfg_validate_def config_ok_def validate_resolution_Nil signed_less)

text \<open>C24. A configuration that loads has passed every check of the design: both service URLs are
  set, and all bounds and cross-field conditions of \<open>config_ok\<close> hold.\<close>

theorem LoadFromEnv_validated:
  assumes "LoadFromEnv env = Inr cfg"
  shows "config_ok cfg \<and> cfg_ForecastServiceURL cfg \<noteq> '''' \<and> cfg_PrometheusURL cfg \<noteq> ''''"
proof -
  have r: "read_env env = (cfg, [])" and v: "cfg_validate cfg = []"
    using assms by (simp_all add: LoadFromEnv_Inr)
  have u: "cfg_ForecastServiceURL cfg = env ''FORECAST_SERVICE_URL''"
    "cfg_PrometheusURL cfg = env ''PROMETHEUS_URL''"
    using read_env_urls [of env] r by simp_all
  have "url_problem env ''FORECAST_SERVICE_URL'' = []" "url_problem env ''PROMETHEUS_URL'' = []"
    using read_env_problems [of env] r by auto
  then show ?thesis using u v by (auto simp: cfg_validate_Nil url_problem_def split: if_splits)
qed

definition default_env :: "string \<Rightarrow> string" where
  "default_env n = (if n = ''FORECAST_SERVICE_URL'' then ''http://forecast''
     else if n = ''PROMETHEUS_URL'' then ''http://prometheus'' else '''')"

definition default_config :: config where
  "default_config = \<lparr>cfg_ForecastServiceURL = ''http://forecast'', cfg_PrometheusURL = ''http://prometheus'',
     cfg_ReconcileInterval = secs 60, cfg_HotPathHistory = mins 60, cfg_HotPathMinPoints = 10,
     cfg_ForecastTimeout = secs 5, cfg_ProphetMinPoints = 30, cfg_ClassifierInterval = mins 30,
     cfg_ClassifierHistory = hours 24, cfg_ClassifierMinPoints = 72,
     cfg_ClassifierHighConfidencePoints = 240, cfg_ClassifierDedup = secs 60,
     cfg_ContextResolutionMinutes = 5, cfg_CVGuardMeanRPS = Fin 1, cfg_RpsPerPodNoiseFloorRPS = 10,
     cfg_HourlyProfileMinHours = 12, cfg_DefaultScaleUpCooldown = secs 60,
     cfg_DefaultScaleDownCooldown = secs 300, cfg_DefaultMaxStepSize = 4,
     cfg_OllamaURL = ''http://localhost:11434'', cfg_OllamaModel = ''llama3.2'',
     cfg_OllamaTimeout = secs 30, cfg_OllamaMaxTokens = 150\<rparr>"

lemma default_seconds:
  "Duration_of_i32 (durationAsInt32 (secs 60) Second) * Second = secs 60"
  "Duration_of_i32 (durationAsInt32 (secs 5) Second) * Second = secs 5"
  "Duration_of_i32 (durationAsInt32 (secs 300) Second) * Second = secs 300"
  "Duration_of_i32 (durationAsInt32 (secs 30) Second) * Second = secs 30"
  by code_simp+

lemma default_minutes_hours:
  "Duration_of_i32 (durationAsInt32 (mins 60) Minute) * Minute = mins 60"
  "Duration_of_i32 (durationAsInt32 (mins 30) Minute) * Minute = mins 30"
  "Duration_of_i32 (durationAsInt32 (hours 24) Hour) * Hour = hours 24"
  by code_simp+

lemmas default_durations = default_seconds default_minutes_hours

lemma read_env_defaults: "read_env default_env = (default_config, [])"
  by (simp add: read_env_def default_env_def Let_def reader_eqs int_value_def int_problem_def
      float_value_def float_problem_def envStringOrDefault_def default_durations default_config_def)

lemma config_ok_default: "config_ok default_config"
  by (simp add: config_ok_def default_config_def secs_def)

lemma LoadFromEnv_defaults: "LoadFromEnv default_env = Inr default_config"
  by (simp add: LoadFromEnv_Inr read_env_defaults cfg_validate_Nil config_ok_default)

theorem LoadFromEnv_validated_witness:
  "LoadFromEnv default_env = Inr default_config \<and> config_ok default_config"
  using LoadFromEnv_validated [OF LoadFromEnv_defaults] LoadFromEnv_defaults by simp

text \<open>Every unreadable integer variable is reported, whatever else is wrong with the environment:
  loading fails and the list of problems names the variable, its text and the parse error.\<close>

theorem LoadFromEnv_reports_all:
  assumes "name \<in> set int_vars" and "env name \<noteq> ''''" and "ParseInt32 (env name) = Inl e"
  shows "\<exists>errs. LoadFromEnv env = Inl errs \<and> ParseError name (env name) e \<in> set errs"
proof -
  have "ParseError name (env name) e \<in> set (int_problem env name)"
    using assms(2,3) by (simp add: int_problem_def)
  then have m: "ParseError name (env name) e \<in> set (snd (read_env env))"
    using assms(1) unfolding read_env_problems by blast
  then have "snd (read_env env) \<noteq> []" by auto
  then show ?thesis using m by (auto simp: LoadFromEnv_Inl)
qed

theorem LoadFromEnv_reports_all_witness:
  "\<exists>errs. LoadFromEnv (\<lambda>_. ''1x'') = Inl errs \<and>
     ParseError ''HOT_PATH_MIN_POINTS'' ''1x'' ErrSyntax \<in> set errs"
proof -
  have "ParseInt32 ''1x'' = Inl ErrSyntax" by (simp add: ParseInt_def is_digit_def digit_val_def)
  then show ?thesis
    using LoadFromEnv_reports_all [of "''HOT_PATH_MIN_POINTS''" "\<lambda>_. ''1x''" ErrSyntax]
    by (simp add: int_vars_def)
qed

text \<open>A minutes-valued variable is not checked against the range of \<^verbatim>\<open>time.Duration\<close>: with
  \<^verbatim>\<open>HOT_PATH_HISTORY_MINUTES=2147483647\<close> the configuration loads and the hot-path history is
  negative, so the query window starts after it ends.\<close>

theorem minutes_overflow_accepted:
  "\<exists>cfg. LoadFromEnv (default_env(''HOT_PATH_HISTORY_MINUTES'' := ''2147483647'')) = Inr cfg \<and>
     sint (cfg_HotPathHistory cfg) < 0"
proof -
  let ?c = "default_config\<lparr>cfg_HotPathHistory := Duration_of_i32 2147483647 * Minute\<rparr>"
  have p: "ParseInt32 ''2147483647'' = Inr 2147483647"
    by (simp add: ParseInt_def is_digit_def digit_val_def)
  have "read_env (default_env(''HOT_PATH_HISTORY_MINUTES'' := ''2147483647'')) = (?c, [])"
    by (simp add: read_env_def default_env_def Let_def reader_eqs int_value_def int_problem_def p i32_def
        float_value_def float_problem_def envStringOrDefault_def default_durations default_config_def)
  then have "LoadFromEnv (default_env(''HOT_PATH_HISTORY_MINUTES'' := ''2147483647'')) = Inr ?c"
    using config_ok_default by (simp add: LoadFromEnv_Inr cfg_validate_Nil config_ok_def)
  moreover have "sint (cfg_HotPathHistory ?c) < 0"
    by (simp add: Duration_of_i32_def Minute_def)
  ultimately show ?thesis by blast
qed

text \<open>Nor is the reconcile interval checked: zero, which to controller-runtime means not to requeue, loads.\<close>

lemma zero_reconcile_interval_accepted:
  "LoadFromEnv (default_env(''RECONCILE_INTERVAL_SECONDS'' := ''0'')) = Inr (default_config\<lparr>cfg_ReconcileInterval := 0\<rparr>)"
proof -
  have p: "ParseInt32 ''0'' = Inr 0" by (simp add: ParseInt_def is_digit_def digit_val_def)
  have z: "Duration_of_i32 0 = 0" by (simp add: Duration_of_i32_def)
  have "read_env (default_env(''RECONCILE_INTERVAL_SECONDS'' := ''0'')) = (default_config\<lparr>cfg_ReconcileInterval := 0\<rparr>, [])"
    by (simp add: read_env_def default_env_def Let_def reader_eqs int_value_def int_problem_def p i32_def z
        float_value_def float_problem_def envStringOrDefault_def default_durations default_config_def)
  then show ?thesis
    using config_ok_default by (simp add: LoadFromEnv_Inr cfg_validate_Nil config_ok_def)
qed

end
