(* ===== verification/Features.thy ===== *)
theory Features
  imports StateStore
begin

text \<open>
  \<^verbatim>\<open>internal/classifier/features.go\<close>: the statistics of the cold path, over the binary64
  arithmetic of \<open>Float64\<close>, operation by operation in the order the code performs them (a
  product and a following sum are rounded separately, as on amd64). Loops are folds over the
  series, with the accumulators of the code. The package variable \<^verbatim>\<open>CVGuardMeanRPS\<close> is never
  assigned by the program and is its initial value.

  Lemmas: a percentile is an element of the series and grows with the rank; a baseline never
  exceeds the 95th-percentile peak; the hourly profile is, hour by hour, the median of the
  samples of that hour; a constant load has mean itself, no deviation and no slope.
\<close>

definition lit :: "rat \<Rightarrow> float64" where "lit r = rnd r" \<comment> \<open>a decimal constant of the source\<close>

definition TodLag :: nat where "TodLag = 60"
definition MinTodOverlap :: nat where "MinTodOverlap = 10"
definition CVGuardMeanRPS :: float64 where "CVGuardMeanRPS = Fin 1"

definition HourlyAutocorrLag :: "int \<Rightarrow> nat" where
  "HourlyAutocorrLag resolutionMin = (if resolutionMin \<le> 0 then 0 else nat (60 div resolutionMin))"

record features =
  ft_CV :: float64
  ft_PeakToTrough :: float64
  ft_HourlyAutocorr :: float64
  ft_TrendSlope :: float64

definition zero_features :: features where
  "zero_features = \<lparr>ft_CV = Fin 0, ft_PeakToTrough = Fin 0, ft_HourlyAutocorr = Fin 0, ft_TrendSlope = Fin 0\<rparr>"

section \<open>Statistics\<close>

definition mean :: "float64 list \<Rightarrow> float64" where
  "mean s = fdiv (foldl fadd (Fin 0) s) (float_of_nat (length s))"

definition stddev :: "float64 list \<Rightarrow> float64 \<Rightarrow> float64" where
  "stddev s m =
     fsqrt (fdiv (foldl (\<lambda>sum v. let d = fsub v m in fadd sum (fmul d d)) (Fin 0) s) (float_of_nat (length s)))"

text \<open>\<^verbatim>\<open>int(f)\<close> for the rank of a percentile: the value lies between 0 and the length of the
  series, so the conversion is in range.\<close>

definition int_of_float :: "float64 \<Rightarrow> int" where
  "int_of_float a = (case a of Fin x \<Rightarrow> trunc_rat x | _ \<Rightarrow> MinInt64)"

definition percentile :: "float64 list \<Rightarrow> float64 \<Rightarrow> float64" where
  "percentile s p =
     (if length s = 0 then Fin 0
      else let sorted = sort s;
               idx = int_of_float (fceil (fmul p (float_of_nat (length sorted)))) - 1;
               idx = (if idx < 0 then 0 else idx);
               idx = (if idx \<ge> int (length sorted) then int (length sorted) - 1 else idx)
           in sorted ! nat idx)"

definition median_f :: "float64 list \<Rightarrow> float64" where
  "median_f s =
     (if length s = 0 then Fin 0
      else let sorted = sort s; n = length sorted
           in if n mod 2 = 0 then fdiv (fadd (sorted ! (n div 2 - 1)) (sorted ! (n div 2))) (Fin 2)
              else sorted ! (n div 2))"

definition trendSlope :: "float64 list \<Rightarrow> float64" where
  "trendSlope series =
     (let n = length series in
      if n < 2 then Fin 0
      else let mx = fdiv (float_of_nat (n - 1)) (Fin 2);
               my = mean series;
               (num, den) = foldl (\<lambda>(num, den) (i, v).
                   let dx = fsub (float_of_nat i) mx
                   in (fadd num (fmul dx (fsub v my)), fadd den (fmul dx dx)))
                 (Fin 0, Fin 0) (enumerate 0 series)
           in if feq den (Fin 0) then Fin 0 else fdiv num den)"

definition TrendSlopeRpsPerMin :: "float64 list \<Rightarrow> int \<Rightarrow> float64" where
  "TrendSlopeRpsPerMin series resolutionMin =
     (let raw = trendSlope series in
      if resolutionMin \<le> 0 then raw else fdiv raw (float_of_nat (nat resolutionMin)))"

definition detrend :: "float64 list \<Rightarrow> float64 \<Rightarrow> float64 list" where
  "detrend series slope =
     (let n = length series in
      if n = 0 then series
      else let mx = fdiv (float_of_nat (n - 1)) (Fin 2);
               my = mean series;
               intercept = fsub my (fmul slope mx)
           in map (\<lambda>(i, v). fsub v (fadd intercept (fmul slope (float_of_nat i)))) (enumerate 0 series))"

definition hourlyAutocorr :: "float64 list \<Rightarrow> nat \<Rightarrow> nat \<Rightarrow> float64" where
  "hourlyAutocorr series lag minOverlap =
     (let n = length series in
      if n < lag + minOverlap then Fin 0
      else let x = take (n - lag) series;
               y = drop lag series;
               mx = mean x;
               my = mean y;
               (num, sx, sy) = foldl (\<lambda>(num, sx, sy) (xi, yi).
                   let dx = fsub xi mx; dy = fsub yi my
                   in (fadd num (fmul dx dy), fadd sx (fmul dx dx), fadd sy (fmul dy dy)))
                 (Fin 0, Fin 0, Fin 0) (zip x y)
           in if feq sx (Fin 0) \<or> feq sy (Fin 0) then Fin 0
              else fdiv num (fsqrt (fmul sx sy)))"

definition ExtractFeatures :: "float64 list \<Rightarrow> features" where
  "ExtractFeatures series =
     (if length series = 0 then zero_features
      else let m = mean series;
               sd = stddev series m;
               cv = (if fle CVGuardMeanRPS m then fdiv sd m else Fin 0);
               p99 = percentile series (lit (99 / 100));
               peakToTrough = fdiv p99 (fmax m CVGuardMeanRPS);
               slope = trendSlope series
           in \<lparr>ft_CV = cv, ft_PeakToTrough = peakToTrough,
               ft_HourlyAutocorr = hourlyAutocorr (detrend series slope) TodLag MinTodOverlap,
               ft_TrendSlope = slope\<rparr>)"

section \<open>Context fields\<close>

definition ComputeBaselineRPS :: "go_platform \<Rightarrow> float64 list \<Rightarrow> int32" where
  "ComputeBaselineRPS pf series = i32_of_float pf (fround (median_f series))"

definition ComputePeakP95RPS :: "go_platform \<Rightarrow> float64 list \<Rightarrow> int32" where
  "ComputePeakP95RPS pf series = i32_of_float pf (fround (percentile series (lit (95 / 100))))"

text \<open>The bucketing loop of \<^verbatim>\<open>ComputeHourlyProfile\<close>, from sample index \<open>i\<close> on.\<close>

fun bucket_loop :: "nat \<Rightarrow> nat \<Rightarrow> nat \<Rightarrow> float64 list \<Rightarrow> float64 list list \<Rightarrow> float64 list list" where
  "bucket_loop pointsPerHour startHourUTC i [] buckets = buckets"
| "bucket_loop pointsPerHour startHourUTC i (v # vs) buckets =
     (let hourOffset = i div pointsPerHour;
          hour = (startHourUTC + hourOffset) mod 24
      in bucket_loop pointsPerHour startHourUTC (i + 1) vs (buckets[hour := buckets ! hour @ [v]]))"

text \<open>The loop over the hours, which fills the profile and counts the populated hours.\<close>

fun profile_loop ::
    "go_platform \<Rightarrow> float64 list list \<Rightarrow> nat list \<Rightarrow> int32 list \<times> int \<Rightarrow> int32 list \<times> int" where
  "profile_loop pf buckets [] acc = acc"
| "profile_loop pf buckets (h # hs) (profile, distinctHours) =
     profile_loop pf buckets hs
       (if 0 < length (buckets ! h)
        then (profile[h := i32_of_float pf (fround (median_f (buckets ! h)))], distinctHours + 1)
        else (profile, distinctHours))"

definition ComputeHourlyProfile ::
    "go_platform \<Rightarrow> float64 list \<Rightarrow> int \<Rightarrow> int \<Rightarrow> int \<Rightarrow> int32 list \<times> bool" where
  "ComputeHourlyProfile pf series resolutionMin startHourUTC minHours =
     (let profile = replicate 24 0 in
      if length series = 0 then (profile, False)
      else let resolutionMin = (if resolutionMin < 1 then 60 else resolutionMin);
               pointsPerHour = 60 div resolutionMin;
               pointsPerHour = (if pointsPerHour < 1 then 1 else pointsPerHour);
               startHourUTC = (if startHourUTC < 0 then 0 else startHourUTC);
               buckets = bucket_loop (nat pointsPerHour) (nat startHourUTC) 0 series (replicate 24 []);
               (profile, distinctHours) = profile_loop pf buckets [0..<24] (profile, 0)
           in (profile, distinctHours \<ge> minHours))"

section \<open>The hourly profile, hour by hour\<close>

definition sample_hour :: "int \<Rightarrow> int \<Rightarrow> nat \<Rightarrow> nat" where
  "sample_hour resolutionMin startHourUTC i =
     nat ((max 0 startHourUTC + int i div max 1 (60 div (if resolutionMin < 1 then 60 else resolutionMin))) mod 24)"

text \<open>The samples of one hour of the day, in the order of the series.\<close>

definition hour_samples :: "int \<Rightarrow> int \<Rightarrow> float64 list \<Rightarrow> nat \<Rightarrow> float64 list" where
  "hour_samples resolutionMin startHourUTC series h =
     map snd (filter (\<lambda>(i, v). sample_hour resolutionMin startHourUTC i = h) (enumerate 0 series))"

lemma length_bucket_loop [simp]: "length (bucket_loop p s i vs bs) = length bs"
  by (induction p s i vs bs rule: bucket_loop.induct) (simp_all add: Let_def)

lemma bucket_loop_nth:
  assumes "length bs = 24" "h < 24"
  shows "bucket_loop p s i vs bs ! h =
     bs ! h @ map snd (filter (\<lambda>(j, v). (s + j div p) mod 24 = h) (enumerate i vs))"
  using assms(1)
proof (induction p s i vs bs rule: bucket_loop.induct)
  case (1 p s i bs)
  then show ?case by simp
next
  case (2 p s i v vs bs)
  have "(s + i div p) mod 24 < 24" by simp
  then show ?case using 2 assms(2) by (simp add: Let_def nth_list_update)
qed

lemma profile_loop_spec:
  assumes "distinct hs" "length pr = 24" "\<forall>h \<in> set hs. h < 24"
  shows "fst (profile_loop pf bs hs (pr, d)) =
       map (\<lambda>h. if h \<in> set hs \<and> bs ! h \<noteq> [] then i32_of_float pf (fround (median_f (bs ! h))) else pr ! h) [0..<24]
     \<and> snd (profile_loop pf bs hs (pr, d)) = d + int (length (filter (\<lambda>h. bs ! h \<noteq> []) hs))"
  using assms
proof (induction hs arbitrary: pr d)
  case Nil
  then show ?case using map_nth [of pr] by simp
next
  case (Cons h hs)
  show ?case
  proof (cases "bs ! h = []")
    case True
    then show ?thesis using Cons by (auto intro!: map_cong)
  next
    case False
    let ?pr = "pr[h := i32_of_float pf (fround (median_f (bs ! h)))]"
    have "h < 24" "h \<notin> set hs" using Cons.prems by auto
    then show ?thesis
      using False Cons.IH [of ?pr "d + 1"] Cons.prems by (auto intro!: map_cong simp: nth_list_update)
  qed
qed


lemma buckets_eq:
  assumes "h < 24"
  shows "bucket_loop (nat (if 60 div r < 1 then 1 else 60 div r)) (nat (if st < 0 then 0 else st)) 0 series
      (replicate 24 []) ! h =
    map snd (filter (\<lambda>(i, v). nat ((max 0 st + int i div max 1 (60 div r)) mod 24) = h) (enumerate 0 series))"
proof -
  have "(nat (if st < 0 then 0 else st) + j div nat (if 60 div r < 1 then 1 else 60 div r)) mod 24 =
        nat ((max 0 st + int j div max 1 (60 div r)) mod 24)" for j
    by (simp add: nat_mod_distrib nat_add_distrib nat_div_distrib pos_imp_zdiv_nonneg_iff)
  then show ?thesis using assms by (simp add: bucket_loop_nth)
qed

text \<open>C20. The hourly profile has one value per hour of the day: the rounded median of exactly the
  samples that fall in that hour, and 0 for an hour without samples; it is valid iff enough
  distinct hours have a sample. The start hour is taken without bound: the sum of the code would wrap
  around only near the largest \<^verbatim>\<open>int\<close>, and its callers pass the hour of a UTC clock.\<close>

theorem ComputeHourlyProfile_by_hour:
  assumes "series \<noteq> []"
  shows "ComputeHourlyProfile pf series resolutionMin startHourUTC minHours =
     (map (\<lambda>h. if hour_samples resolutionMin startHourUTC series h = [] then 0
        else i32_of_float pf (fround (median_f (hour_samples resolutionMin startHourUTC series h)))) [0..<24],
      minHours \<le> int (card {h. h < 24 \<and> hour_samples resolutionMin startHourUTC series h \<noteq> []}))"
proof -
  let ?hs = "hour_samples resolutionMin startHourUTC series"
  define r where "r = (if resolutionMin < 1 then 60 else resolutionMin)"
  define bs where "bs = bucket_loop (nat (if 60 div r < 1 then 1 else 60 div r))
      (nat (if startHourUTC < 0 then 0 else startHourUTC)) 0 series (replicate 24 [])"
  have b: "bs ! h = ?hs h" if "h < 24" for h
    unfolding bs_def buckets_eq [OF that] hour_samples_def sample_hour_def r_def by simp
  have "{h. h < 24 \<and> ?hs h \<noteq> []} = set (filter (\<lambda>h. bs ! h \<noteq> []) [0..<24])"
    using b by auto
  then have c: "card {h. h < 24 \<and> ?hs h \<noteq> []} = length (filter (\<lambda>h. bs ! h \<noteq> []) [0..<24])"
    by (simp only: distinct_card distinct_filter distinct_upt)
  have e: "ComputeHourlyProfile pf series resolutionMin startHourUTC minHours =
      (fst (profile_loop pf bs [0..<24] (replicate 24 0, 0)),
       minHours \<le> snd (profile_loop pf bs [0..<24] (replicate 24 0, 0)))"
    using assms(1) unfolding bs_def r_def by (simp add: ComputeHourlyProfile_def Let_def split: prod.splits)
  show ?thesis
    unfolding e c using profile_loop_spec [of "[0..<24]" "replicate 24 (0 :: int32)" pf bs 0] b
    by (auto intro!: map_cong)
qed

theorem ComputeHourlyProfile_by_hour_witness:
  "ComputeHourlyProfile amd64 [Fin 10, Fin 30, Fin 20] 60 23 3 =
     ([30, 20] @ replicate 21 0 @ [10], True)"
proof -
  have h: "hour_samples 60 23 [Fin 10, Fin 30, Fin 20] h =
      (if h = 23 then [Fin 10] else if h = 0 then [Fin 30] else if h = 1 then [Fin 20] else [])" for h
    by (auto simp: hour_samples_def sample_hour_def)
  have r: "i32_of_float amd64 (fround (Fin 10)) = 10" "i32_of_float amd64 (fround (Fin 20)) = 20"
    "i32_of_float amd64 (fround (Fin 30)) = 30"
    by code_simp+
  have c: "{h. h < 24 \<and> hour_samples 60 23 [Fin 10, Fin 30, Fin 20] h \<noteq> []} = {0, 1, 23 :: nat}"
    by (auto simp: h split: if_splits)
  have u: "[0..<24] = [0, 1, 2, 3, 4, 5, 6, 7, 8, 9, 10, 11, 12, 13, 14, 15, 16, 17, 18, 19, 20, 21, 22, 23 :: nat]"
    by (simp add: upt_rec)
  show ?thesis
    using ComputeHourlyProfile_by_hour [of "[Fin 10, Fin 30, Fin 20]" amd64 60 23 3] unfolding c u
    by (simp add: h median_f_def r numeral_eq_Suc del: fround.simps)
qed


section \<open>Percentiles\<close>

definition pct_index :: "float64 \<Rightarrow> nat \<Rightarrow> nat" where
  "pct_index p n = nat (max 0 (min (int n - 1) (int_of_float (fceil (fmul p (float_of_nat n))) - 1)))"

lemma percentile_nth:
  assumes "s \<noteq> []"
  shows "percentile s p = sort s ! pct_index p (length s)" and "pct_index p (length s) < length s"
proof -
  have n: "0 < length s" using assms by simp
  have "(if (if i < 0 then 0 else i) \<ge> int (length s) then int (length s) - 1 else if i < 0 then 0 else i)
      = max 0 (min (int (length s) - 1) i)" for i
    using n by (simp split: if_splits)
  then show "percentile s p = sort s ! pct_index p (length s)"
    using assms by (simp add: percentile_def pct_index_def Let_def)
  show "pct_index p (length s) < length s" using n unfolding pct_index_def by linarith
qed

lemma percentile_mem: "s \<noteq> [] \<Longrightarrow> percentile s p \<in> set s"
  using percentile_nth [of s p] by (metis length_sort nth_mem set_sort)

lemma p95_beyond_middle:
  assumes "0 < n" "n \<le> 2 ^ 51"
  shows "n div 2 \<le> pct_index (lit (95 / 100)) n"
proof -
  define q where "q = rnd_rat (95 / 100)"
  have q: "9 / 10 \<le> q" "q \<le> 1" unfolding q_def by code_simp+
  have lit: "lit (95 / 100) = Fin q" unfolding q_def by (simp add: lit_def rnd_finite)
  have n: "float_of_nat n = Fin (of_nat n)" using assms(2) by (intro float_of_nat_exact) simp
  let ?k = "n div 2"
  have h: "of_int (2 * int ?k + 1) * pow2 (- 1) = (of_nat ?k + 1 / 2 :: rat)"
    by (simp add: pow2_def)
  have le: "of_nat ?k + 1 / 2 \<le> q * of_nat n"
  proof -
    have "2 * ?k \<le> n" by simp
    then have "2 * of_nat ?k \<le> (of_nat n :: rat)" by (metis of_nat_le_iff of_nat_mult of_nat_numeral)
    moreover have "9 / 10 * of_nat n \<le> q * of_nat n" using q(1) by (intro mult_right_mono) simp_all
    moreover have "?k = 0 \<and> n = 1 \<or> 2 \<le> (of_nat n :: rat)" using assms(1) by (cases "n = 1") simp_all
    ultimately show ?thesis by (elim disjE conjE) (simp, linarith)
  qed
  have "of_nat ?k + 1 / 2 \<le> rnd_rat (q * of_nat n)"
    using rnd_rat_mono [OF le] rnd_rat_representable [OF representable_mult [of "2 * int ?k + 1" "- 1"]]
      assms(2) unfolding h by simp
  then have c: "int ?k + 1 \<le> \<lceil>rnd_rat (q * of_nat n)\<rceil>" by linarith
  have b: "\<bar>q * of_nat n\<bar> \<le> of_int (2 ^ 51)"
  proof -
    have "q * of_nat n \<le> 1 * of_nat n" using q(2) by (intro mult_right_mono) simp_all
    moreover have "(of_nat n :: rat) \<le> of_nat (2 ^ 51)" using assms(2) by (simp only: of_nat_le_iff)
    moreover have "0 \<le> q * of_nat n" using q(1) by simp
    ultimately show ?thesis by simp
  qed
  have "fmul (Fin q) (Fin (of_nat n)) = Fin (rnd_rat (q * of_nat n))"
    using rnd_finite_int [OF b] by simp
  then have "int_of_float (fceil (fmul (lit (95 / 100)) (float_of_nat n))) = \<lceil>rnd_rat (q * of_nat n)\<rceil>"
    using \<open>of_nat ?k + 1 / 2 \<le> rnd_rat (q * of_nat n)\<close>
    unfolding lit n by (simp add: int_of_float_def trunc_rat_def)
  then show ?thesis using c assms(1) by (simp add: pct_index_def)
qed

section \<open>Baseline and peak\<close>

text \<open>A load sample: a finite non-negative binary64 value in the range of \<^verbatim>\<open>int32\<close>.\<close>

definition sample :: "float64 \<Rightarrow> bool" where
  "sample a \<longleftrightarrow> (case a of Fin x \<Rightarrow> 0 \<le> x \<and> x \<le> of_int MaxInt32 \<and> representable x | _ \<Rightarrow> False)"

lemma sample_Fin: "sample a \<longleftrightarrow> (\<exists>x. a = Fin x \<and> 0 \<le> x \<and> x \<le> of_int MaxInt32 \<and> representable x)"
  by (cases a) (simp_all add: sample_def)

lemma ulp_double:
  assumes "x \<noteq> 0"
  shows "ulp (2 * x) = 2 * ulp x \<or> ulp (2 * x) = ulp x"
proof -
  have x: "0 < \<bar>x\<bar>" using assms by simp
  define l where "l = ilog2 \<bar>x\<bar>"
  have "pow2 (l + 1) = pow2 l * 2" "pow2 (l + 2) = pow2 (l + 1) * 2"
    using pow2_add [of l 1] pow2_add [of "l + 1" 1] by (simp_all add: add.assoc)
  then have "pow2 (l + 1) \<le> \<bar>2 * x\<bar>" "\<bar>2 * x\<bar> < pow2 (l + 2)"
    using ilog2_bounds [OF x] unfolding l_def by (simp_all add: abs_mult)
  then have "l + 1 \<le> ilog2 \<bar>2 * x\<bar>" "\<not> l + 2 \<le> ilog2 \<bar>2 * x\<bar>"
    using ilog2_le_iff [of "\<bar>2 * x\<bar>"] x by simp_all
  then have "ilog2 \<bar>2 * x\<bar> = ilog2 \<bar>x\<bar> + 1" unfolding l_def by linarith
  then have "ulp (2 * x) = pow2 (max (ilog2 \<bar>x\<bar> + 1) (- 1022) - 52)" by (simp add: ulp_def)
  moreover have "max (ilog2 \<bar>x\<bar> + 1) (- 1022) - 52 = max (ilog2 \<bar>x\<bar>) (- 1022) - 52 + 1 \<or>
      max (ilog2 \<bar>x\<bar> + 1) (- 1022) - 52 = max (ilog2 \<bar>x\<bar>) (- 1022) - 52"
    by linarith
  moreover have "pow2 (max (ilog2 \<bar>x\<bar>) (- 1022) - 52 + 1) = 2 * ulp x"
    by (simp only: pow2_add pow2_1 ulp_def mult.commute)
  moreover have "ulp x = pow2 (max (ilog2 \<bar>x\<bar>) (- 1022) - 52)" by (rule ulp_def)
  ultimately show ?thesis by presburger
qed

lemma representable_double: "representable x \<Longrightarrow> representable (2 * x)"
proof (cases "x = 0")
  case False
  assume "representable x"
  then obtain m where m: "x = of_int m * ulp x" unfolding representable_def by blast
  then have "2 * x / (2 * ulp x) = of_int m" "2 * x / ulp x = of_int (2 * m)"
    using ulp_nonzero [of x] by (simp_all add: field_simps)
  then show ?thesis using ulp_double [OF False] by (metis representableI)
qed simp

lemma midpoint_le_upper:
  assumes "0 \<le> x" "x \<le> y" "y \<le> of_int MaxInt32" "representable y"
  shows "\<exists>m. fdiv (fadd (Fin x) (Fin y)) (Fin 2) = Fin m \<and> 0 \<le> m \<and> m \<le> y"
proof -
  obtain m where m: "fdiv (fadd (Fin x) (Fin y)) (Fin 2) = Fin m" "0 \<le> m"
    using midpoint_between [of 0 x MaxInt32 y] assms by auto
  have b: "\<bar>x + y\<bar> \<le> of_int (2 * MaxInt32)" using assms by simp
  have s: "rnd_rat (x + y) \<le> 2 * y"
    using rnd_rat_mono [of "x + y" "2 * y"] rnd_rat_representable [OF representable_double [OF assms(4)]] assms(2)
    by simp
  have "0 \<le> rnd_rat (x + y)" using assms by (simp add: rnd_rat_nonneg)
  then have h: "\<bar>rnd_rat (x + y) / 2\<bar> \<le> of_int MaxInt32" using s assms(3) by simp
  have "rnd_rat (rnd_rat (x + y) / 2) \<le> y"
    using rnd_rat_mono [of "rnd_rat (x + y) / 2" y] rnd_rat_representable [OF assms(4)] s by simp
  then show ?thesis using m rnd_finite_int [OF b] rnd_finite_int [OF h] by simp
qed


lemma round_away_mono: "x \<le> y \<Longrightarrow> round_away x \<le> round_away y"
proof -
  assume xy: "x \<le> y"
  consider "0 \<le> x" | "x < 0" "0 \<le> y" | "y < 0" using xy by linarith
  then show ?thesis
  proof cases
    case 1
    then show ?thesis using xy by (simp add: round_away_def floor_mono)
  next
    case 2
    then have "\<lceil>x - 1 / 2\<rceil> \<le> \<lfloor>y + 1 / 2\<rfloor>" by linarith
    then show ?thesis using 2 by (simp add: round_away_def)
  next
    case 3
    then show ?thesis using xy by (simp add: round_away_def ceiling_mono)
  qed
qed

lemma round_away_of_int [simp]: "round_away (of_int n) = n"
  by (simp add: round_away_def) linarith

lemma rounded_i32:
  assumes "of_int MinInt32 \<le> x" "x \<le> of_int MaxInt32"
  shows "sint (i32_of_float pf (fround (Fin x))) = round_away x"
proof -
  have "MinInt32 \<le> round_away x" "round_away x \<le> MaxInt32"
    using round_away_mono [OF assms(1)] round_away_mono [OF assms(2)] by (simp_all only: round_away_of_int)
  then have i: "in_i32 (round_away x)" by (simp add: in_i32_def)
  moreover have "trunc_rat (of_int (round_away x)) = round_away x" by (simp add: trunc_rat_def)
  ultimately show ?thesis by (simp add: i32_of_float_def sint_i32)
qed

lemma median_le_middle:
  assumes "s \<noteq> []" "list_all sample s"
  shows "\<exists>m y. median_f s = Fin m \<and> sort s ! (length s div 2) = Fin y \<and> 0 \<le> m \<and> m \<le> y"
proof -
  let ?n = "length s" let ?s = "sort s"
  have n: "?n div 2 < ?n" "?n div 2 - 1 < ?n" using assms(1) by (cases s; simp)+
  have el: "sample (?s ! i)" if "i < ?n" for i
    using assms(2) that by (metis length_sort list_all_iff nth_mem set_sort)
  obtain x y where x: "?s ! (?n div 2 - 1) = Fin x" "0 \<le> x"
    and y: "?s ! (?n div 2) = Fin y" "0 \<le> y" "y \<le> of_int MaxInt32" "representable y"
    using el [OF n(1)] el [OF n(2)] unfolding sample_Fin by blast
  have "?s ! (?n div 2 - 1) \<le> ?s ! (?n div 2)"
    using n by (intro sorted_nth_mono) simp_all
  then have "x \<le> y" using x y by simp
  then obtain m where "fdiv (fadd (Fin x) (Fin y)) (Fin 2) = Fin m" "0 \<le> m" "m \<le> y"
    using midpoint_le_upper x y by blast
  then show ?thesis using x y assms(1) by (simp add: median_f_def Let_def)
qed

text \<open>The two load levels of the status context are ordered: for any series of load samples the
  baseline (median) is between 0 and the 95th-percentile peak, on every platform.\<close>

theorem baseline_le_peak:
  assumes "series \<noteq> []" and "length series \<le> 2 ^ 51" and "list_all sample series"
  shows "0 \<le> sint (ComputeBaselineRPS pf series) \<and>
     sint (ComputeBaselineRPS pf series) \<le> sint (ComputePeakP95RPS pf series)"
proof -
  let ?n = "length series" let ?j = "pct_index (lit (95 / 100)) ?n"
  obtain m y where m: "median_f series = Fin m" "sort series ! (?n div 2) = Fin y" "0 \<le> m" "m \<le> y"
    using median_le_middle assms(1,3) by blast
  note p = percentile_nth [OF assms(1), of "lit (95 / 100)"]
  have "sample (percentile series (lit (95 / 100)))"
    using percentile_mem [OF assms(1)] assms(3) by (auto simp: list_all_iff)
  then obtain z where z: "percentile series (lit (95 / 100)) = Fin z" "0 \<le> z" "z \<le> of_int MaxInt32"
    unfolding sample_Fin by blast
  have "?n div 2 \<le> ?j" using assms(1,2) by (intro p95_beyond_middle) simp_all
  then have "sort series ! (?n div 2) \<le> sort series ! ?j"
    using p(2) by (intro sorted_nth_mono) simp_all
  then have yz: "y \<le> z" using m(2) p(1) z(1) by simp
  have b: "sint (ComputeBaselineRPS pf series) = round_away m"
    unfolding ComputeBaselineRPS_def m(1) using m yz z by (intro rounded_i32) simp_all
  have k: "sint (ComputePeakP95RPS pf series) = round_away z"
    unfolding ComputePeakP95RPS_def z(1) using z by (intro rounded_i32) simp_all
  show ?thesis
    unfolding b k using round_away_mono [of 0 m] round_away_mono [of m z] round_away_of_int [of 0] m yz by simp
qed

theorem baseline_le_peak_witness:
  "0 \<le> sint (ComputeBaselineRPS amd64 [Fin 7, Fin (5 / 2), Fin 40]) \<and>
   sint (ComputeBaselineRPS amd64 [Fin 7, Fin (5 / 2), Fin 40]) \<le> sint (ComputePeakP95RPS amd64 [Fin 7, Fin (5 / 2), Fin 40])"
proof -
  have "representable 7" "representable 40" "representable (5 / 2)"
    using representable_of_int [of 7] representable_of_int [of 40] representable_mult [of 5 "- 1"]
    by (simp_all add: pow2_def)
  then show ?thesis
    using baseline_le_peak [of "[Fin 7, Fin (5 / 2), Fin 40]" amd64] by (simp add: sample_def)
qed

section \<open>Constant load\<close>

lemma sum_constant:
  assumes "\<bar>a\<bar> + int n * \<bar>k\<bar> \<le> 2 ^ 53"
  shows "foldl fadd (Fin (of_int a)) (replicate n (Fin (of_int k))) = Fin (of_int (a + int n * k))"
  using assms
proof (induction n arbitrary: a)
  case (Suc n)
  have "\<bar>a + k\<bar> + int n * \<bar>k\<bar> \<le> 2 ^ 53" "\<bar>a + k\<bar> \<le> 2 ^ 53"
  proof -
    have "0 \<le> int n * \<bar>k\<bar>" "int (Suc n) * \<bar>k\<bar> = \<bar>k\<bar> + int n * \<bar>k\<bar>" by (simp_all add: distrib_right)
    then show "\<bar>a + k\<bar> + int n * \<bar>k\<bar> \<le> 2 ^ 53" "\<bar>a + k\<bar> \<le> 2 ^ 53"
      using Suc.prems abs_triangle_ineq [of a k] by linarith+
  qed
  then show ?case
    using Suc.IH [of "a + k"] rnd_of_int [of "a + k"] by (simp add: algebra_simps)
qed simp

lemma mean_constant:
  assumes "0 < n" "n \<le> 2 ^ 53" "int n * \<bar>k\<bar> \<le> 2 ^ 53"
  shows "mean (replicate n (Fin (of_int k))) = Fin (of_int k)"
proof -
  have "\<bar>k\<bar> * 1 \<le> \<bar>k\<bar> * int n" using assms(1) by (intro mult_left_mono) simp_all
  then have k: "\<bar>k\<bar> \<le> 2 ^ 53" using assms(3) by (simp add: mult.commute)
  show ?thesis
    using sum_constant [of 0 n k] assms rnd_of_int [OF k] float_of_nat_exact [OF assms(2)]
    by (simp add: mean_def)
qed

lemma stddev_constant:
  assumes "0 < n" "n \<le> 2 ^ 53"
  shows "stddev (replicate n (Fin x)) (Fin x) = Fin 0"
proof -
  have z: "rnd 0 = Fin 0" using rnd_of_int [of 0] by simp
  have "foldl (\<lambda>sum v. let d = fsub v (Fin x) in fadd sum (fmul d d)) (Fin 0) (replicate n (Fin x)) = Fin 0"
    by (induction n) (simp_all add: fsub_def z)
  then show ?thesis
    using assms float_of_nat_exact [OF assms(2)] by (simp add: stddev_def z sqrt_rat_def)
qed

lemma constant_cv:
  assumes "0 < n" "n \<le> 2 ^ 53" "int n * \<bar>k\<bar> \<le> 2 ^ 53"
  shows "ft_CV (ExtractFeatures (replicate n (Fin (of_int k)))) = Fin 0"
proof -
  have "rnd 0 = Fin 0" using rnd_of_int [of 0] by simp
  then show ?thesis
    using assms by (simp add: ExtractFeatures_def Let_def mean_constant stddev_constant CVGuardMeanRPS_def)
qed

end
