(* ===== verification/Classify.thy ===== *)
theory Classify
  imports Features
begin

text \<open>
  \<^verbatim>\<open>internal/classifier/classify.go\<close>, \<^verbatim>\<open>confidence.go\<close>, \<^verbatim>\<open>params.go\<close> and \<^verbatim>\<open>pipeline.go\<close>: from
  features to a pattern, a confidence label and scaling parameters, and the two pipelines. The
  conversion of an out-of-range float and \<^verbatim>\<open>math.Log2\<close> come from the \<open>go_platform\<close> argument.

  Lemmas: every parameter the classifier can produce lies in its hard range, for any features
  (not-a-number included) and on any platform; burstier load gives shorter scale-up and longer
  scale-down cooldowns; the 5-minute pipeline at one-minute resolution extracts the features of
  the one-minute pipeline; a constant load is flat; short histories are never periodic.
\<close>

section \<open>Patterns\<close>

definition PatternFlat :: string where "PatternFlat = ''flat''"
definition PatternPeriodic :: string where "PatternPeriodic = ''periodic''"
definition PatternSpiky :: string where "PatternSpiky = ''spiky''"
definition PatternGradualRamp :: string where "PatternGradualRamp = ''gradual_ramp''"
definition PatternDefault :: string where "PatternDefault = ''default''"

lemmas pattern_defs = PatternFlat_def PatternPeriodic_def PatternSpiky_def PatternGradualRamp_def
  PatternDefault_def

definition cvFlatBelow :: float64 where "cvFlatBelow = lit (10 / 100)"
definition hourlyAutocorrAbove :: float64 where "hourlyAutocorrAbove = lit (70 / 100)"
definition cvSpikyAbove :: float64 where "cvSpikyAbove = lit (50 / 100)"
definition peakToTroughSpikyAbove :: float64 where "peakToTroughSpikyAbove = lit 5"
definition GradualRampDailyDriftFrac :: float64 where "GradualRampDailyDriftFrac = lit (20 / 100)"

definition ClassifyWithMean :: "features \<Rightarrow> float64 \<Rightarrow> string" where
  "ClassifyWithMean f seriesMean =
     (let denom = fmax seriesMean (Fin 1) in
      if flt (ft_CV f) cvFlatBelow then PatternFlat
      else if flt hourlyAutocorrAbove (ft_HourlyAutocorr f) then PatternPeriodic
      else if flt cvSpikyAbove (ft_CV f) \<and> flt peakToTroughSpikyAbove (ft_PeakToTrough f) then PatternSpiky
      else if flt GradualRampDailyDriftFrac (fdiv (fmul (fabs (ft_TrendSlope f)) (Fin 1440)) denom)
           then PatternGradualRamp
      else PatternDefault)"

definition Classify :: "features \<Rightarrow> string" where
  "Classify f = ClassifyWithMean f (Fin 1)"

section \<open>Confidence\<close>

definition ConfidenceHigh :: string where "ConfidenceHigh = ''high''"
definition ConfidenceMedium :: string where "ConfidenceMedium = ''medium''"

definition Confidence :: "int \<Rightarrow> int \<Rightarrow> int \<Rightarrow> string" where
  "Confidence historyPoints highThreshold minThreshold =
     (if historyPoints \<ge> highThreshold then ConfidenceHigh
      else if historyPoints \<ge> minThreshold then ConfidenceMedium
      else '''')"

section \<open>Parameters\<close>

definition BaseScaleUpCooldown :: float64 where "BaseScaleUpCooldown = Fin 120"
definition KCVUp :: float64 where "KCVUp = Fin 2"
definition ScaleUpCooldownHardFloor :: int32 where "ScaleUpCooldownHardFloor = 30"
definition ScaleUpCooldownHardCeiling :: int32 where "ScaleUpCooldownHardCeiling = 180"
definition BaseScaleDownCooldown :: float64 where "BaseScaleDownCooldown = Fin 180"
definition KCVDown :: float64 where "KCVDown = Fin (3 / 2)"
definition KPeriodicDown :: float64 where "KPeriodicDown = Fin (1 / 2)"
definition ScaleDownCooldownHardFloor :: int32 where "ScaleDownCooldownHardFloor = 60"
definition ScaleDownCooldownHardCeiling :: int32 where "ScaleDownCooldownHardCeiling = 600"

lemmas param_consts = BaseScaleUpCooldown_def KCVUp_def ScaleUpCooldownHardFloor_def
  ScaleUpCooldownHardCeiling_def BaseScaleDownCooldown_def KCVDown_def KPeriodicDown_def
  ScaleDownCooldownHardFloor_def ScaleDownCooldownHardCeiling_def

definition ForecasterLinearExtrap :: string where "ForecasterLinearExtrap = ''linear_extrap''"
definition ForecasterProphet :: string where "ForecasterProphet = ''prophet''"
definition ForecasterGBDTQuantile :: string where "ForecasterGBDTQuantile = ''gbdt_quantile''"

record classified_output =
  co_ScaleUpCooldown :: int32
  co_ScaleDownCooldown :: int32
  co_MaxStep :: int32
  co_PreferredForecaster :: string

definition clampInt32 :: "int32 \<Rightarrow> int32 \<Rightarrow> int32 \<Rightarrow> int32" where
  "clampInt32 v minVal maxVal = (if v <s minVal then minVal else if maxVal <s v then maxVal else v)"

definition forecasterForPattern :: "string \<Rightarrow> string" where
  "forecasterForPattern pattern =
     (if pattern = PatternPeriodic then ForecasterProphet
      else if pattern = PatternSpiky then ForecasterGBDTQuantile
      else if pattern = PatternFlat \<or> pattern = PatternGradualRamp \<or> pattern = PatternDefault
           then ForecasterLinearExtrap
      else ForecasterLinearExtrap)"

definition ComputeParams ::
    "go_platform \<Rightarrow> features \<Rightarrow> string \<Rightarrow> int32 \<Rightarrow> int32 \<Rightarrow> classified_output" where
  "ComputeParams pf f pattern minReplicas maxReplicas =
     (let rawUp = fdiv BaseScaleUpCooldown (fadd (Fin 1) (fmul KCVUp (ft_CV f)));
          scaleUp = clampInt32 (i32_of_float pf (fround rawUp))
                      ScaleUpCooldownHardFloor ScaleUpCooldownHardCeiling;
          hourlyFactor = fmax (Fin 0) (ft_HourlyAutocorr f);
          rawDown = fdiv (fmul BaseScaleDownCooldown (fadd (Fin 1) (fmul KCVDown (ft_CV f))))
                      (fadd (Fin 1) (fmul KPeriodicDown hourlyFactor));
          scaleDown = clampInt32 (i32_of_float pf (fround rawDown))
                        ScaleDownCooldownHardFloor ScaleDownCooldownHardCeiling;
          maxStep = (if fle (ft_PeakToTrough f) (Fin 1) then 1
                     else i32_of_float pf (fceil (math_Log2 pf (ft_PeakToTrough f))));
          replicaRange = maxReplicas - minReplicas;
          replicaRange = (if replicaRange <s 1 then 1 else replicaRange);
          maxStep = clampInt32 maxStep 1 replicaRange
      in \<lparr>co_ScaleUpCooldown = scaleUp, co_ScaleDownCooldown = scaleDown, co_MaxStep = maxStep,
          co_PreferredForecaster = forecasterForPattern pattern\<rparr>)"

section \<open>Pipelines\<close>

datatype pipeline_error = ErrInsufficientPoints

record pipeline_result =
  pr_Pattern :: string
  pr_Confidence :: string
  pr_Params :: classified_output
  pr_HistoryPoints :: nat
  pr_Features :: features

definition RunPipeline ::
    "go_platform \<Rightarrow> float64 list \<Rightarrow> int \<Rightarrow> int \<Rightarrow> int32 \<Rightarrow> int32 \<Rightarrow> pipeline_error + pipeline_result" where
  "RunPipeline pf series highConfThreshold minThreshold minReplicas maxReplicas =
     (if int (length series) < minThreshold then Inl ErrInsufficientPoints
      else let f = ExtractFeatures series;
               pattern = Classify f;
               conf = Confidence (int (length series)) highConfThreshold minThreshold;
               params = ComputeParams pf f pattern minReplicas maxReplicas
           in Inr \<lparr>pr_Pattern = pattern, pr_Confidence = conf, pr_Params = params,
                   pr_HistoryPoints = length series, pr_Features = f\<rparr>)"

record pipeline_config =
  pc_ResolutionMin :: int
  pc_HourlyProfileMinHours :: int
  pc_CVGuardMeanRPS :: float64
  pc_StartHourUTC :: int

record context_output =
  cx_BaselineRPS :: int32
  cx_PeakP95RPS :: int32
  cx_Trend24hSlope :: float64
  cx_HourlyProfile :: "int32 list"
  cx_HourlyProfileValid :: bool

record pipeline_result_v2 = pipeline_result +
  pr_Context :: "context_output option"

definition RunPipelineV2 ::
    "go_platform \<Rightarrow> float64 list \<Rightarrow> int \<Rightarrow> int \<Rightarrow> int32 \<Rightarrow> int32 \<Rightarrow> pipeline_config
      \<Rightarrow> pipeline_error + pipeline_result_v2" where
  "RunPipelineV2 pf series highConfThreshold minThreshold minReplicas maxReplicas cfg =
     (if int (length series) < minThreshold then Inl ErrInsufficientPoints
      else let resolution = (if pc_ResolutionMin cfg < 1 then 1 else pc_ResolutionMin cfg);
               guard = (if fle (pc_CVGuardMeanRPS cfg) (Fin 0) then CVGuardMeanRPS else pc_CVGuardMeanRPS cfg);
               m = mean series;
               sd = stddev series m;
               cv = (if fle guard m then fdiv sd m else Fin 0);
               denom = fmax m guard;
               p99 = percentile series (lit (99 / 100));
               peakToTrough = fdiv p99 denom;
               slopeRpsPerMin = TrendSlopeRpsPerMin series resolution;
               lag = HourlyAutocorrLag resolution;
               rawSlope = trendSlope series;
               hourlyCorr = hourlyAutocorr (detrend series rawSlope) lag MinTodOverlap;
               f = \<lparr>ft_CV = cv, ft_PeakToTrough = peakToTrough, ft_HourlyAutocorr = hourlyCorr,
                    ft_TrendSlope = slopeRpsPerMin\<rparr>;
               pattern = ClassifyWithMean f m;
               conf = Confidence (int (length series)) highConfThreshold minThreshold;
               params = ComputeParams pf f pattern minReplicas maxReplicas;
               (profile, valid) = ComputeHourlyProfile pf series resolution (pc_StartHourUTC cfg)
                                    (pc_HourlyProfileMinHours cfg);
               ctx = \<lparr>cx_BaselineRPS = ComputeBaselineRPS pf series, cx_PeakP95RPS = ComputePeakP95RPS pf series,
                      cx_Trend24hSlope = slopeRpsPerMin, cx_HourlyProfile = profile,
                      cx_HourlyProfileValid = valid\<rparr>
           in Inr \<lparr>pr_Pattern = pattern, pr_Confidence = conf, pr_Params = params,
                   pr_HistoryPoints = length series, pr_Features = f, pr_Context = Some ctx\<rparr>)"

section \<open>Hard bounds of the parameters\<close>

lemma clampInt32_bounds:
  assumes "lo \<le>s hi"
  shows "sint lo \<le> sint (clampInt32 v lo hi)" "sint (clampInt32 v lo hi) \<le> sint hi"
  using assms by (auto simp: clampInt32_def signed_less signed_le)

lemma sint_clampInt32: "lo \<le>s hi \<Longrightarrow> sint (clampInt32 v lo hi) = max (sint lo) (min (sint hi) (sint v))"
  by (auto simp: clampInt32_def signed_less signed_le)

definition classified_ok :: "int32 \<Rightarrow> int32 \<Rightarrow> classified_output \<Rightarrow> bool" where
  "classified_ok mn mx out \<longleftrightarrow>
     30 \<le> sint (co_ScaleUpCooldown out) \<and> sint (co_ScaleUpCooldown out) \<le> 180 \<and>
     60 \<le> sint (co_ScaleDownCooldown out) \<and> sint (co_ScaleDownCooldown out) \<le> 600 \<and>
     1 \<le> sint (co_MaxStep out) \<and> sint (co_MaxStep out) \<le> max 1 (sint (mx - mn)) \<and>
     co_PreferredForecaster out \<in> {''linear_extrap'', ''prophet'', ''gbdt_quantile''}"

lemma ComputeParams_up: "30 \<le> sint (co_ScaleUpCooldown (ComputeParams pf f p mn mx)) \<and>
    sint (co_ScaleUpCooldown (ComputeParams pf f p mn mx)) \<le> 180"
  unfolding ComputeParams_def Let_def classified_output.simps
  by (simp add: sint_clampInt32 signed_le param_consts)

lemma ComputeParams_down: "60 \<le> sint (co_ScaleDownCooldown (ComputeParams pf f p mn mx)) \<and>
    sint (co_ScaleDownCooldown (ComputeParams pf f p mn mx)) \<le> 600"
  unfolding ComputeParams_def Let_def classified_output.simps
  by (simp add: sint_clampInt32 signed_le param_consts)

lemma ComputeParams_step: "1 \<le> sint (co_MaxStep (ComputeParams pf f p mn mx)) \<and>
    sint (co_MaxStep (ComputeParams pf f p mn mx)) \<le> max 1 (sint (mx - mn))"
  unfolding ComputeParams_def Let_def classified_output.simps
  by (simp add: sint_clampInt32 signed_le signed_less)

lemma ComputeParams_ok: "classified_ok mn mx (ComputeParams pf f p mn mx)"
  using ComputeParams_up ComputeParams_down ComputeParams_step
  by (simp add: classified_ok_def) (simp add: ComputeParams_def Let_def forecasterForPattern_def
      ForecasterLinearExtrap_def ForecasterProphet_def ForecasterGBDTQuantile_def)


lemma step_within_range:
  assumes "classified_ok mn mx out" "1 \<le> sint mn" "sint mn < sint mx"
  shows "1 \<le> sint (co_MaxStep out) \<and> sint (co_MaxStep out) \<le> sint mx - sint mn"
proof -
  have "1 \<le> sint mx - sint mn" using assms(3) by simp
  then show ?thesis using assms(1) range_exact [OF assms(2,3)] by (simp add: classified_ok_def)
qed

definition known_patterns :: "string set" where
  "known_patterns = {''flat'', ''periodic'', ''spiky'', ''gradual_ramp'', ''default''}"

lemma ClassifyWithMean_known: "ClassifyWithMean f m \<in> known_patterns"
  by (simp add: ClassifyWithMean_def Let_def pattern_defs known_patterns_def)

lemma Confidence_labels: "lo \<le> n \<Longrightarrow> Confidence n hi lo \<in> {''high'', ''medium''}"
  by (simp add: Confidence_def ConfidenceHigh_def ConfidenceMedium_def)

lemma forecaster_table:
  "forecasterForPattern ''spiky'' = ''gbdt_quantile''" "forecasterForPattern ''periodic'' = ''prophet''"
  "p \<noteq> ''spiky'' \<Longrightarrow> p \<noteq> ''periodic'' \<Longrightarrow> forecasterForPattern p = ''linear_extrap''"
  by (simp_all add: forecasterForPattern_def pattern_defs ForecasterLinearExtrap_def
      ForecasterProphet_def ForecasterGBDTQuantile_def)

text \<open>What a classification may publish, for any history and platform.\<close>

definition publishable :: "int32 \<Rightarrow> int32 \<Rightarrow> string \<Rightarrow> string \<Rightarrow> classified_output \<Rightarrow> bool" where
  "publishable mn mx pattern conf out \<longleftrightarrow>
     pattern \<in> known_patterns \<and> conf \<in> {''high'', ''medium''} \<and> classified_ok mn mx out \<and>
     co_PreferredForecaster out = (if pattern = ''spiky'' then ''gbdt_quantile''
       else if pattern = ''periodic'' then ''prophet'' else ''linear_extrap'')"

lemma RunPipeline_cases:
  "RunPipeline pf series hi lo mn mx = Inl ErrInsufficientPoints \<and> int (length series) < lo \<or>
   (\<exists>r. RunPipeline pf series hi lo mn mx = Inr r \<and> lo \<le> int (length series) \<and>
     pr_HistoryPoints r = length series \<and>
     publishable mn mx (pr_Pattern r) (pr_Confidence r) (pr_Params r))"
  using ClassifyWithMean_known Confidence_labels [of lo "int (length series)" hi] ComputeParams_ok
  by (auto simp: RunPipeline_def Let_def publishable_def Classify_def ComputeParams_def forecaster_table)

lemma length_profile_loop: "length (fst (profile_loop pf bs hs acc)) = length (fst acc)"
  by (induction pf bs hs acc rule: profile_loop.induct) simp_all

lemma length_ComputeHourlyProfile [simp]:
  "length (fst (ComputeHourlyProfile pf series r st mh)) = 24"
proof -
  have "length (fst (case profile_loop pf bs hs (replicate 24 0, 0) of (pr, d) \<Rightarrow> (pr, mh \<le> d))) = 24" for bs hs
    using length_profile_loop [of pf bs hs "(replicate 24 0, 0)"]
    by (cases "profile_loop pf bs hs (replicate 24 0, 0)") simp
  then show ?thesis by (simp add: ComputeHourlyProfile_def Let_def)
qed

lemma RunPipelineV2_total:
  "lo \<le> int (length series) \<Longrightarrow> \<exists>r. RunPipelineV2 pf series hi lo mn mx cfg = Inr r"
  by (cases "ComputeHourlyProfile pf series
      (if pc_ResolutionMin cfg < 1 then 1 else pc_ResolutionMin cfg) (pc_StartHourUTC cfg)
      (pc_HourlyProfileMinHours cfg)") (simp add: RunPipelineV2_def Let_def)

lemma RunPipelineV2_result:
  "case RunPipelineV2 pf series hi lo mn mx cfg of
     Inl ErrInsufficientPoints \<Rightarrow> int (length series) < lo
   | Inr r \<Rightarrow> lo \<le> int (length series) \<and> pr_HistoryPoints r = length series \<and>
       publishable mn mx (pr_Pattern r) (pr_Confidence r) (pr_Params r) \<and>
       (\<exists>ctx. pr_Context r = Some ctx \<and> length (cx_HourlyProfile ctx) = 24)"
proof (cases "int (length series) < lo")
  case True
  then show ?thesis by (simp add: RunPipelineV2_def)
next
  case False
  obtain profile valid where p: "ComputeHourlyProfile pf series
      (if pc_ResolutionMin cfg < 1 then 1 else pc_ResolutionMin cfg) (pc_StartHourUTC cfg)
      (pc_HourlyProfileMinHours cfg) = (profile, valid)"
    by fastforce
  have "length profile = 24" using arg_cong [OF p, of fst] length_ComputeHourlyProfile by (metis fst_conv)
  moreover have "co_PreferredForecaster (ComputeParams pf f q mn mx) = forecasterForPattern q" for f q
    by (simp add: ComputeParams_def Let_def)
  ultimately show ?thesis
    using False p ClassifyWithMean_known Confidence_labels [of lo "int (length series)" hi] ComputeParams_ok
    by (simp add: RunPipelineV2_def Let_def publishable_def forecaster_table)
qed

text \<open>C19. The cold path publishes only admissible parameters: the 5-minute pipeline fails exactly on a
  history that is too short; otherwise pattern and confidence are values of the CRD enums, both
  cooldowns and the step lie in their hard ranges, the step fits the replica range of an admitted
  spec, the forecaster follows the pattern table, and the context block has its 24 hourly bins.
  This holds for every series, infinities and not-a-number included, and on every platform.\<close>

theorem RunPipelineV2_publishable:
  assumes "1 \<le> sint mn" and "sint mn < sint mx"
  shows "case RunPipelineV2 pf series hi lo mn mx cfg of
     Inl ErrInsufficientPoints \<Rightarrow> int (length series) < lo
   | Inr r \<Rightarrow> lo \<le> int (length series) \<and> pr_HistoryPoints r = length series \<and>
       publishable mn mx (pr_Pattern r) (pr_Confidence r) (pr_Params r) \<and>
       sint (co_MaxStep (pr_Params r)) \<le> sint mx - sint mn \<and>
       (\<exists>ctx. pr_Context r = Some ctx \<and> length (cx_HourlyProfile ctx) = 24)"
  using RunPipelineV2_result [where pf = pf and series = series and hi = hi and lo = lo and mn = mn and mx = mx and cfg = cfg] step_within_range [OF _ assms]
  by (cases "RunPipelineV2 pf series hi lo mn mx cfg") (simp_all add: publishable_def)

theorem RunPipelineV2_publishable_witness:
  "\<exists>r. RunPipelineV2 amd64 [Fin 10, Fin 60] 2 1 1 5
      \<lparr>pc_ResolutionMin = 5, pc_HourlyProfileMinHours = 12, pc_CVGuardMeanRPS = Fin 1, pc_StartHourUTC = 3\<rparr> = Inr r \<and>
     publishable 1 5 (pr_Pattern r) (pr_Confidence r) (pr_Params r)"
proof -
  let ?p = "RunPipelineV2 amd64 [Fin 10, Fin 60] 2 1 1 5
      \<lparr>pc_ResolutionMin = 5, pc_HourlyProfileMinHours = 12, pc_CVGuardMeanRPS = Fin 1, pc_StartHourUTC = 3\<rparr>"
  have "\<exists>r. ?p = Inr r" by (rule RunPipelineV2_total) simp
  then show ?thesis
    using RunPipelineV2_publishable [where pf = amd64 and series = "[Fin 10, Fin 60]" and mn = 1 and mx = 5
        and hi = 2 and lo = 1 and cfg = "\<lparr>pc_ResolutionMin = 5, pc_HourlyProfileMinHours = 12,
          pc_CVGuardMeanRPS = Fin 1, pc_StartHourUTC = 3\<rparr>"] by (elim exE) simp
qed

section \<open>Behaviour of the classification\<close>

text \<open>A constant load is classified flat, whatever its level and the length of the history.\<close>

theorem constant_load_flat:
  assumes "0 < n" and "n \<le> 2 ^ 53" and "int n * \<bar>k\<bar> \<le> 2 ^ 53"
  shows "Classify (ExtractFeatures (replicate n (Fin (of_int k)))) = PatternFlat"
proof -
  have "flt (Fin 0) cvFlatBelow" by code_simp
  then show ?thesis using constant_cv [OF assms] by (simp add: Classify_def ClassifyWithMean_def)
qed

theorem constant_load_flat_witness:
  "Classify (ExtractFeatures (replicate 1440 (Fin 250))) = PatternFlat"
  using constant_load_flat [of 1440 250] by simp

lemma foldl_fadd_NaN: "NaN \<in> set s \<or> a = NaN \<Longrightarrow> foldl fadd a s = NaN"
proof (induction s arbitrary: a)
  case (Cons v s)
  have "fadd a v = NaN" if "a = NaN \<or> v = NaN" using that by (cases a; cases v) auto
  then show ?case using Cons by (metis foldl_Cons set_ConsD)
qed simp

text \<open>One not-a-number sample makes any history flat, in both pipelines: the mean is
  not-a-number, the guard comparison fails and the coefficient of variation is set to zero. A
  spiky service with one undefined sample is given the flat parameters.\<close>

theorem nan_sample_flat:
  assumes "NaN \<in> set series"
  shows "Classify (ExtractFeatures series) = PatternFlat \<and>
     (\<forall>r. RunPipelineV2 pf series hi lo mn mx cfg = Inr r \<longrightarrow> pr_Pattern r = PatternFlat)"
proof -
  have z: "flt (Fin 0) cvFlatBelow" by code_simp
  have m: "mean series = NaN" using foldl_fadd_NaN assms by (simp add: mean_def)
  have n: "\<not> fle a NaN" for a by (cases a) simp_all
  have "series \<noteq> []" using assms by auto
  then show ?thesis
    using m n z
    by (auto simp: Classify_def ClassifyWithMean_def ExtractFeatures_def RunPipelineV2_def Let_def
        split: prod.splits if_splits)
qed

theorem nan_sample_flat_witness: "Classify (ExtractFeatures [Fin 1, Fin 900, NaN, Fin 2]) = PatternFlat"
  using nan_sample_flat [of "[Fin 1, Fin 900, NaN, Fin 2]"] by simp

text \<open>The one-minute pipeline never finds a periodic pattern on fewer than 70 samples, because
  the correlation needs an hour of lag and ten samples of overlap; the configuration check only
  enforces the smaller floor of the 5-minute pipeline (22 at its default resolution).\<close>

theorem short_history_not_periodic:
  assumes "length series < 70" and "RunPipeline pf series hi lo mn mx = Inr r"
  shows "pr_Pattern r \<noteq> PatternPeriodic \<and> co_PreferredForecaster (pr_Params r) \<noteq> ForecasterProphet"
proof -
  have "length (detrend series sl) = length series" for sl by (simp add: detrend_def Let_def)
  then have h: "ft_HourlyAutocorr (ExtractFeatures series) = Fin 0"
    using assms(1)
    by (simp add: ExtractFeatures_def Let_def hourlyAutocorr_def TodLag_def MinTodOverlap_def zero_features_def)
  have "\<not> flt hourlyAutocorrAbove (Fin 0)" by code_simp
  then have "Classify (ExtractFeatures series) \<noteq> PatternPeriodic"
    using h by (simp add: Classify_def ClassifyWithMean_def Let_def pattern_defs)
  then show ?thesis
    using assms(2)
    by (auto simp: RunPipeline_def Let_def ComputeParams_def forecasterForPattern_def pattern_defs
        ForecasterProphet_def ForecasterGBDTQuantile_def ForecasterLinearExtrap_def split: if_splits)
qed

theorem short_history_not_periodic_witness:
  "\<exists>r. RunPipeline amd64 [Fin 10, Fin 60, Fin 10] 2 1 1 5 = Inr r \<and> pr_Pattern r \<noteq> PatternPeriodic"
proof -
  have "\<exists>r. RunPipeline amd64 [Fin 10, Fin 60, Fin 10] 2 1 1 5 = Inr r" by (simp add: RunPipeline_def Let_def)
  then show ?thesis using short_history_not_periodic [of "[Fin 10, Fin 60, Fin 10]"] by force
qed

section \<open>The two pipelines compared\<close>

text \<open>The ramp rule relative to a mean is never stricter on a mean of one: dividing by at least one does not
  raise the drift.\<close>

lemma flt_le_trans: "flt (Fin c) a \<Longrightarrow> a \<le> b \<Longrightarrow> flt (Fin c) b"
  by (cases a; cases b) (simp_all add: less_eq_float64_def)

lemma drift_divided:
  assumes "0 < c" and "flt (Fin c) (fdiv (fmul (fabs s) (Fin 1440)) (fmax m (Fin 1)))"
  shows "flt (Fin c) (fdiv (fmul (fabs s) (Fin 1440)) (Fin 1))"
proof (cases "fmul (fabs s) (Fin 1440)")
  case (Fin x)
  then obtain y where "fabs s = Fin y" "0 \<le> y" by (cases s) (simp_all add: inf_sgn_def)
  with Fin have "rnd 0 \<le> Fin x" using rnd_mono [of 0 "y * 1440"] by simp
  then have x: "0 \<le> x" using rnd_of_int [of 0] by (simp add: less_eq_float64_def)
  obtain d where d: "fmax m (Fin 1) = Fin d" "1 \<le> d" using assms Fin by (cases m) auto
  then have "x / d \<le> x / 1" using x by (intro divide_left_mono) simp_all
  then show ?thesis
    using assms(2) flt_le_trans [OF _ rnd_mono] d unfolding Fin d(1) by auto
next
  case NInf
  then show ?thesis using assms(2) by (cases m) (auto simp: inf_sgn_def)
qed (use assms(2) in \<open>auto simp: inf_sgn_def\<close>)

lemma ramp_threshold: "\<exists>c. GradualRampDailyDriftFrac = Fin c \<and> 0 < c"
proof -
  have "flt (Fin 0) GradualRampDailyDriftFrac \<and> GradualRampDailyDriftFrac \<noteq> PInf" by code_simp
  then show ?thesis by (cases GradualRampDailyDriftFrac) (metis flt.simps)+
qed

text \<open>Leaving out the mean can only turn the default pattern into a ramp.\<close>

lemma Classify_vs_mean:
  "Classify f = ClassifyWithMean f m \<or> Classify f = PatternGradualRamp \<and> ClassifyWithMean f m = PatternDefault"
proof -
  have "flt GradualRampDailyDriftFrac (fdiv (fmul (fabs (ft_TrendSlope f)) (Fin 1440)) (fmax m (Fin 1))) \<Longrightarrow>
      flt GradualRampDailyDriftFrac (fdiv (fmul (fabs (ft_TrendSlope f)) (Fin 1440)) (Fin 1))"
    using ramp_threshold drift_divided by metis
  then show ?thesis by (auto simp: Classify_def ClassifyWithMean_def Let_def)
qed

lemma ComputeParams_ramp:
  "ComputeParams pf f PatternGradualRamp mn mx = ComputeParams pf f PatternDefault mn mx"
  by (simp add: ComputeParams_def forecasterForPattern_def pattern_defs)

lemma RunPipelineV2_one_minute:
  assumes "series \<noteq> []" and "pc_ResolutionMin cfg = 1" and "pc_CVGuardMeanRPS cfg = Fin 1"
    and "RunPipelineV2 pf series hi lo mn mx cfg = Inr r"
  shows "pr_Features r = ExtractFeatures series \<and> pr_Pattern r = ClassifyWithMean (ExtractFeatures series) (mean series) \<and>
     pr_Params r = ComputeParams pf (ExtractFeatures series) (pr_Pattern r) mn mx \<and>
     pr_Confidence r = Confidence (int (length series)) hi lo \<and> pr_HistoryPoints r = length series \<and> lo \<le> int (length series)"
proof -
  have "fdiv (Fin 0) (Fin 1) = Fin 0" using rnd_of_int [of 0] by simp
  then have "fdiv (trendSlope series) (Fin 1) = trendSlope series"
    by (simp add: trendSlope_def Let_def fdiv_Fin_1 split: prod.splits)
  moreover have "float_of_nat 1 = Fin 1" by (simp add: float_of_nat_exact)
  ultimately have s: "TrendSlopeRpsPerMin series 1 = trendSlope series"
    by (simp add: TrendSlopeRpsPerMin_def Let_def)
  have l: "HourlyAutocorrLag 1 = TodLag" by (simp add: HourlyAutocorrLag_def TodLag_def)
  show ?thesis
    using assms s l
    by (auto simp: RunPipelineV2_def ExtractFeatures_def Let_def CVGuardMeanRPS_def split: prod.splits if_splits)
qed

text \<open>C21. At a resolution of one minute and with the default guard, the pipeline that runs and the later one
  agree on every non-empty series: same features, same confidence, same parameters. Their patterns are
  the same too, but for one case: where the later pipeline finds no pattern, the one that runs, which
  does not scale the ramp rule by the mean, may report a gradual ramp.\<close>

theorem pipelines_agree_at_one_minute:
  assumes "series \<noteq> []" and "pc_ResolutionMin cfg = 1" and "pc_CVGuardMeanRPS cfg = Fin 1"
    and "RunPipelineV2 pf series hi lo mn mx cfg = Inr r2"
  shows "\<exists>r1. RunPipeline pf series hi lo mn mx = Inr r1 \<and> pr_Features r1 = pr_Features r2 \<and> pr_Params r1 = pr_Params r2 \<and>
     pr_Confidence r1 = pr_Confidence r2 \<and> pr_HistoryPoints r1 = pr_HistoryPoints r2 \<and>
     (pr_Pattern r1 = pr_Pattern r2 \<or> pr_Pattern r1 = PatternGradualRamp \<and> pr_Pattern r2 = PatternDefault)"
  using RunPipelineV2_one_minute [OF assms] Classify_vs_mean [of "ExtractFeatures series" "mean series"]
  by (auto simp: RunPipeline_def Let_def ComputeParams_ramp)

theorem pipelines_agree_at_one_minute_witness:
  "\<exists>r1 r2. RunPipeline amd64 [Fin 10, Fin 60] 2 1 1 5 = Inr r1 \<and> RunPipelineV2 amd64 [Fin 10, Fin 60] 2 1 1 5
      \<lparr>pc_ResolutionMin = 1, pc_HourlyProfileMinHours = 12, pc_CVGuardMeanRPS = Fin 1, pc_StartHourUTC = 3\<rparr> = Inr r2 \<and>
     pr_Params r1 = pr_Params r2"
proof -
  let ?p = "RunPipelineV2 amd64 [Fin 10, Fin 60] 2 1 1 5
      \<lparr>pc_ResolutionMin = 1, pc_HourlyProfileMinHours = 12, pc_CVGuardMeanRPS = Fin 1, pc_StartHourUTC = 3\<rparr>"
  have "\<exists>r. ?p = Inr r" by (rule RunPipelineV2_total) simp
  then obtain r where "?p = Inr r" ..
  then show ?thesis using pipelines_agree_at_one_minute [OF _ _ _ \<open>?p = Inr r\<close>] by auto
qed

text \<open>That case occurs: a service of about a thousand requests per second that drifts by a tenth of its load
  in a day has no pattern by the rule as documented, and is reported as a ramp by the pipeline that
  runs.\<close>

definition drifting :: "float64 list" where
  "drifting = [Fin 900, Fin (1200 - 1 / 8), Fin (900 + 1 / 8)]"

lemma drifting_stats: "mean drifting = Fin 1000" "trendSlope drifting = Fin (1 / 16)"
  "fdiv (percentile drifting (lit (99 / 100))) (Fin 1000) = rnd (11998750 / 10000000)"
  by code_simp+

lemma sqrt_rat_ge:
  assumes "r * r \<le> x" and "1 \<le> r" and "ilog2 x \<le> 100"
  shows "r - 1 \<le> sqrt_rat x"
proof (rule ccontr)
  let ?q = "pow2 (ilog2 x div 2 - 52)"
  assume "\<not> r - 1 \<le> sqrt_rat x"
  moreover have "?q \<le> pow2 0" using assms(3) by (intro pow2_mono) simp
  ultimately have "sqrt_rat x + ?q / 2 < r" by (simp add: pow2_def)
  moreover have "0 \<le> sqrt_rat x + ?q / 2" by simp
  ultimately have "(sqrt_rat x + ?q / 2) * (sqrt_rat x + ?q / 2) < r * r"
    using assms(2) by (intro mult_strict_mono) simp_all
  moreover have "0 < x" using assms(1,2) mult_mono [of 1 r 1 r] by simp
  ultimately show False using sqrt_rat_nearest(2) [of x] assms(1) by linarith
qed

lemma drifting_variance:
  "\<exists>v. fdiv (foldl (\<lambda>sum v. let d = fsub v (Fin 1000) in fadd sum (fmul d d)) (Fin 0) drifting)
      (float_of_nat (length drifting)) = Fin v \<and> 141 * 141 \<le> v \<and> ilog2 v \<le> 100"
proof -
  let ?x = "(59925 + 1 / 32) / 3 :: rat"
  have "foldl (\<lambda>sum v. let d = fsub v (Fin 1000) in fadd sum (fmul d d)) (Fin 0) drifting = Fin (59925 + 1 / 32)"
    "float_of_nat (length drifting) = Fin 3" by code_simp+
  moreover have "rnd ?x = Fin (rnd_rat ?x)" by (rule rnd_finite_int [of _ 20000]) simp_all
  moreover have "141 * 141 \<le> rnd_rat ?x" using f64.rd_ge_int [of 19881 ?x] by simp
  moreover have "ilog2 (rnd_rat ?x) \<le> 100"
  proof (rule ccontr)
    assume "\<not> ilog2 (rnd_rat ?x) \<le> 100"
    moreover have "0 < rnd_rat ?x" using f64.rd_ge_int [of 19881 ?x] by simp
    ultimately have "pow2 15 \<le> rnd_rat ?x" by (subst ilog2_le_iff [symmetric]) simp_all
    moreover have "rnd_rat ?x \<le> 20000" using f64.rd_le_int [of ?x 20000] by simp
    ultimately show False by (simp add: pow2_def)
  qed
  ultimately show ?thesis by simp
qed

lemma drifting_cv: "\<not> flt (fdiv (stddev drifting (Fin 1000)) (Fin 1000)) cvFlatBelow"
proof -
  obtain v where v: "stddev drifting (Fin 1000) = fsqrt (Fin v)" "141 * 141 \<le> v" "ilog2 v \<le> 100"
    using drifting_variance unfolding stddev_def by metis
  have "141 - 1 \<le> sqrt_rat v" using v by (intro sqrt_rat_ge) simp_all
  then have "rnd (140 / 1000) \<le> rnd (sqrt_rat v / 1000)" by (intro rnd_mono divide_right_mono) simp_all
  moreover have "flt cvFlatBelow (rnd (140 / 1000))" by code_simp
  moreover have "flt a b \<Longrightarrow> b \<le> c \<Longrightarrow> \<not> flt c a" for a b c
    by (cases a; cases b; cases c) (simp_all add: less_eq_float64_def)
  ultimately show ?thesis using v by auto
qed

lemma ramp_without_mean:
  "Classify (ExtractFeatures drifting) = PatternGradualRamp \<and>
   ClassifyWithMean (ExtractFeatures drifting) (mean drifting) = PatternDefault"
proof -
  have "drifting \<noteq> []" "length (detrend drifting sl) = 3" for sl by (simp_all add: drifting_def detrend_def Let_def)
  then have f: "ft_CV (ExtractFeatures drifting) = fdiv (stddev drifting (Fin 1000)) (Fin 1000)"
    "ft_HourlyAutocorr (ExtractFeatures drifting) = Fin 0" "ft_TrendSlope (ExtractFeatures drifting) = Fin (1 / 16)"
    "ft_PeakToTrough (ExtractFeatures drifting) = rnd (11998750 / 10000000)"
    by (simp_all add: ExtractFeatures_def Let_def drifting_stats CVGuardMeanRPS_def hourlyAutocorr_def TodLag_def MinTodOverlap_def)
  have "\<not> flt hourlyAutocorrAbove (Fin 0)" "\<not> flt peakToTroughSpikyAbove (rnd (11998750 / 10000000))"
    "flt GradualRampDailyDriftFrac (fdiv (fmul (fabs (Fin (1 / 16))) (Fin 1440)) (fmax (Fin 1) (Fin 1)))"
    "\<not> flt GradualRampDailyDriftFrac (fdiv (fmul (fabs (Fin (1 / 16))) (Fin 1440)) (fmax (Fin 1000) (Fin 1)))"
    by code_simp+
  then show ?thesis
    using drifting_cv f by (simp only: Classify_def ClassifyWithMean_def Let_def drifting_stats simp_thms if_False if_True)
qed

section \<open>Cooldowns follow the burstiness of the load\<close>

lemma up_chain:
  assumes "0 \<le> x" "x \<le> 10 ^ 6"
  shows "fdiv (Fin 120) (fadd (Fin 1) (fmul (Fin 2) (Fin x))) = Fin (rnd_rat (120 / rnd_rat (1 + rnd_rat (2 * x))))"
    and "0 < rnd_rat (1 + rnd_rat (2 * x))" "0 \<le> rnd_rat (120 / rnd_rat (1 + rnd_rat (2 * x)))"
    and "rnd_rat (120 / rnd_rat (1 + rnd_rat (2 * x))) \<le> 120"
proof -
  let ?a = "rnd_rat (2 * x)" let ?b = "rnd_rat (1 + ?a)"
  have a: "0 \<le> ?a" "?a \<le> of_int (2 * 10 ^ 6)"
    using assms f64.rd_nonneg [of "2 * x"] f64.rd_le_int [of "2 * x" "2 * 10 ^ 6"] by simp_all
  have b: "of_int 1 \<le> ?b"
    using a by (intro f64.rd_ge_int) simp_all
  then show p: "0 < ?b" by simp
  have q: "0 \<le> 120 / ?b" "120 / ?b \<le> of_int 120" using b by (simp_all add: field_simps)
  show "0 \<le> rnd_rat (120 / ?b)" using f64.rd_nonneg [OF q(1)] .
  show "rnd_rat (120 / ?b) \<le> 120" using f64.rd_le_int [OF q(2)] by simp
  have "rnd (2 * x) = Fin ?a" "rnd (1 + ?a) = Fin ?b" "rnd (120 / ?b) = Fin (rnd_rat (120 / ?b))"
    using assms a q rnd_finite_int [of "2 * x" "2 * 10 ^ 6"] rnd_finite_int [of "1 + ?a" "1 + 2 * 10 ^ 6"]
      rnd_finite_int [of "120 / ?b" 120] by simp_all
  then show "fdiv (Fin 120) (fadd (Fin 1) (fmul (Fin 2) (Fin x))) = Fin (rnd_rat (120 / ?b))"
    using p by simp
qed

lemma up_antitone:
  assumes "0 \<le> x" "x \<le> y" "y \<le> 10 ^ 6"
  shows "rnd_rat (120 / rnd_rat (1 + rnd_rat (2 * y))) \<le> rnd_rat (120 / rnd_rat (1 + rnd_rat (2 * x)))"
proof -
  have "rnd_rat (1 + rnd_rat (2 * x)) \<le> rnd_rat (1 + rnd_rat (2 * y))"
    using assms(2) by (intro rnd_rat_mono add_left_mono) simp
  then have "120 / rnd_rat (1 + rnd_rat (2 * y)) \<le> 120 / rnd_rat (1 + rnd_rat (2 * x))"
    using up_chain(2) [of x] assms by (intro divide_left_mono mult_pos_pos up_chain(2)) simp_all
  then show ?thesis by (rule rnd_rat_mono)
qed

lemma down_numerator:
  assumes "0 \<le> x" "x \<le> 10 ^ 6"
  shows "fmul (Fin 180) (fadd (Fin 1) (fmul (Fin (3 / 2)) (Fin x))) =
      Fin (rnd_rat (180 * rnd_rat (1 + rnd_rat (3 / 2 * x))))"
    and "0 \<le> rnd_rat (180 * rnd_rat (1 + rnd_rat (3 / 2 * x)))"
    and "rnd_rat (180 * rnd_rat (1 + rnd_rat (3 / 2 * x))) \<le> of_int 540000000"
proof -
  let ?a = "rnd_rat (3 / 2 * x)" let ?b = "rnd_rat (1 + ?a)"
  have a: "0 \<le> ?a" "?a \<le> of_int 1500000"
    using assms f64.rd_nonneg [of "3 / 2 * x"] f64.rd_le_int [of "3 / 2 * x" 1500000] by simp_all
  have b: "0 \<le> ?b" "?b \<le> of_int 1500001"
    using a f64.rd_nonneg [of "1 + ?a"] f64.rd_le_int [of "1 + ?a" 1500001] by simp_all
  show "0 \<le> rnd_rat (180 * ?b)" using b by (intro f64.rd_nonneg) simp
  show "rnd_rat (180 * ?b) \<le> of_int 540000000" using b by (intro f64.rd_le_int) simp_all
  have "rnd (3 / 2 * x) = Fin ?a" "rnd (1 + ?a) = Fin ?b" "rnd (180 * ?b) = Fin (rnd_rat (180 * ?b))"
    using assms a b rnd_finite_int [of "3 / 2 * x" 1500000] rnd_finite_int [of "1 + ?a" 1500001]
      rnd_finite_int [of "180 * ?b" 540000000] by simp_all
  then show "fmul (Fin 180) (fadd (Fin 1) (fmul (Fin (3 / 2)) (Fin x))) = Fin (rnd_rat (180 * ?b))" by simp
qed

text \<open>The divisor of the scale-down formula is at least 1, infinite or not a number.\<close>

lemma down_divisor:
  "fadd (Fin 1) (fmul (Fin (1 / 2)) (fmax (Fin 0) h)) \<in> {NaN, PInf} \<or>
   (\<exists>d. fadd (Fin 1) (fmul (Fin (1 / 2)) (fmax (Fin 0) h)) = Fin d \<and> 1 \<le> d)"
proof -
  have f: "fmul (Fin (1 / 2)) (fmax (Fin 0) h) \<in> {NaN, PInf} \<or>
      (\<exists>y. fmul (Fin (1 / 2)) (fmax (Fin 0) h) = Fin y \<and> 0 \<le> y)"
  proof (cases h)
    case (Fin x)
    then show ?thesis using rnd_nonneg_cases [of "1 / 2 * max 0 x"] by (auto simp: max_def)
  next
    case NInf
    then show ?thesis using rnd_of_int [of 0] by simp
  qed (simp_all add: inf_sgn_def)
  have "rnd (1 + y) = PInf \<or> (\<exists>d. rnd (1 + y) = Fin d \<and> 1 \<le> d)" if "0 \<le> y" for y
  proof -
    have "of_int 1 \<le> rnd_rat (1 + y)" using that by (intro f64.rd_ge_int) simp_all
    then show ?thesis using rnd_nonneg_cases [of "1 + y"] that by (auto simp: rnd_threshold split: if_splits)
  qed
  then have s: "fadd (Fin 1) (Fin y) \<in> {NaN, PInf} \<or> (\<exists>d. fadd (Fin 1) (Fin y) = Fin d \<and> 1 \<le> d)" if "0 \<le> y" for y
    using that by (metis fadd.simps(1) insertCI)
  have "fadd (Fin 1) a \<in> {NaN, PInf} \<or> (\<exists>d. fadd (Fin 1) a = Fin d \<and> 1 \<le> d)"
    if "a \<in> {NaN, PInf} \<or> (\<exists>y. a = Fin y \<and> 0 \<le> y)" for a
    using that s by (elim disjE exE conjE) (auto simp del: fadd.simps(1))
  then show ?thesis using f by blast
qed

lemma down_monotone:
  assumes "0 \<le> n1" "n1 \<le> n2" "n2 \<le> of_int 540000000" "D \<in> {NaN, PInf} \<or> (\<exists>d. D = Fin d \<and> 1 \<le> d)"
  shows "sint (i32_of_float pf (fround (fdiv (Fin n1) D))) \<le> sint (i32_of_float pf (fround (fdiv (Fin n2) D)))"
proof -
  have "sint (i32_of_float pf (fround (rnd (n1 / d)))) \<le> sint (i32_of_float pf (fround (rnd (n2 / d))))"
    if "1 \<le> d" for d
  proof -
    have q: "0 \<le> n / d \<and> n / d \<le> of_int 540000000" if "0 \<le> n" "n \<le> of_int 540000000" for n
    proof -
      have "n * 1 \<le> of_int 540000000 * d" using that \<open>1 \<le> d\<close> by (intro mult_mono) simp_all
      then show ?thesis using that \<open>1 \<le> d\<close> by (simp add: field_simps)
    qed
    have v: "rnd (n / d) = Fin (rnd_rat (n / d))" "0 \<le> rnd_rat (n / d)" "rnd_rat (n / d) \<le> of_int 540000000"
      if "0 \<le> n" "n \<le> of_int 540000000" for n
    proof -
      have "\<bar>n / d\<bar> \<le> of_int 540000000" using q [OF that] by (simp only: abs_of_nonneg)
      then show "rnd (n / d) = Fin (rnd_rat (n / d))" by (rule rnd_finite_int) simp
      show "0 \<le> rnd_rat (n / d)" "rnd_rat (n / d) \<le> of_int 540000000"
        using q [OF that] f64.rd_nonneg [of "n / d"] f64.rd_le_int [of "n / d" 540000000] by simp_all
    qed
    have r: "sint (i32_of_float pf (fround (rnd (n / d)))) = round_away (rnd_rat (n / d))"
      if "0 \<le> n" "n \<le> of_int 540000000" for n
      using v [OF that] unfolding v(1) [OF that] by (intro rounded_i32) simp_all
    have "n1 / d \<le> n2 / d" using assms(2) that by (intro divide_right_mono) simp_all
    then have "round_away (rnd_rat (n1 / d)) \<le> round_away (rnd_rat (n2 / d))"
      by (intro round_away_mono rnd_rat_mono)
    then show ?thesis using r assms by simp
  qed
  then show ?thesis using assms(4) by auto
qed

text \<open>Burstier load reacts faster up and slower down: with a larger coefficient of variation
  (same autocorrelation and bounds) the scale-up cooldown does not grow and the scale-down
  cooldown does not shrink; without any variation the scale-up cooldown is at most its base of 120 s.\<close>

theorem cooldowns_follow_cv:
  assumes "ft_CV f = Fin x" and "ft_CV g = Fin y" and "0 \<le> x" and "x \<le> y" and "y \<le> 10 ^ 6"
    and "ft_HourlyAutocorr f = ft_HourlyAutocorr g"
  shows "sint (co_ScaleUpCooldown (ComputeParams pf g q mn mx)) \<le> sint (co_ScaleUpCooldown (ComputeParams pf f p mn mx)) \<and>
     sint (co_ScaleDownCooldown (ComputeParams pf f p mn mx)) \<le> sint (co_ScaleDownCooldown (ComputeParams pf g q mn mx)) \<and>
     sint (co_ScaleUpCooldown (ComputeParams pf f p mn mx)) \<le> 120"
proof -
  let ?u = "\<lambda>x. rnd_rat (120 / rnd_rat (1 + rnd_rat (2 * x)))"
  have up: "sint (co_ScaleUpCooldown (ComputeParams pf h r mn mx)) = max 30 (min 180 (round_away (?u z)))"
    if "ft_CV h = Fin z" "0 \<le> z" "z \<le> 10 ^ 6" for h r z
  proof -
    note c = up_chain [OF that(2,3)]
    have "sint (i32_of_float pf (fround (Fin (?u z)))) = round_away (?u z)"
      using c by (intro rounded_i32) simp_all
    then show ?thesis
      using that(1) c(1) by (simp add: ComputeParams_def Let_def param_consts sint_clampInt32 signed_le)
  qed
  have x: "x \<le> 10 ^ 6" and y: "0 \<le> y" using assms by simp_all
  have "round_away (?u y) \<le> round_away (?u x)" "round_away (?u x) \<le> 120"
    using round_away_mono [OF up_antitone [OF assms(3-5)]] round_away_mono [OF up_chain(4) [OF assms(3) x]]
      round_away_of_int [of 120] by simp_all
  then have "sint (co_ScaleUpCooldown (ComputeParams pf g q mn mx)) \<le> sint (co_ScaleUpCooldown (ComputeParams pf f p mn mx))"
    "sint (co_ScaleUpCooldown (ComputeParams pf f p mn mx)) \<le> 120"
    unfolding up [OF assms(1,3) x] up [OF assms(2) y assms(5)] by linarith+
  moreover have "sint (co_ScaleDownCooldown (ComputeParams pf f p mn mx)) \<le> sint (co_ScaleDownCooldown (ComputeParams pf g q mn mx))"
  proof -
    let ?N = "\<lambda>x. rnd_rat (180 * rnd_rat (1 + rnd_rat (3 / 2 * x)))"
    have n: "?N x \<le> ?N y"
      using assms(4) by (intro rnd_rat_mono mult_left_mono add_left_mono) simp_all
    note nx = down_numerator [OF assms(3) x] and ny = down_numerator [OF y assms(5)]
    have "sint (i32_of_float pf (fround (fdiv (Fin (?N x)) D))) \<le> sint (i32_of_float pf (fround (fdiv (Fin (?N y)) D)))"
      if "D = fadd (Fin 1) (fmul (Fin (1 / 2)) (fmax (Fin 0) (ft_HourlyAutocorr g)))" for D
      using down_monotone [OF nx(2) n ny(3), of D] down_divisor that by blast
    then show ?thesis
      using assms nx(1) ny(1)
      by (simp add: ComputeParams_def Let_def param_consts sint_clampInt32 signed_le min.coboundedI2)
  qed
  ultimately show ?thesis by simp
qed

theorem cooldowns_follow_cv_witness:
  "sint (co_ScaleUpCooldown (ComputeParams amd64 (zero_features\<lparr>ft_CV := Fin 1\<rparr>) ''spiky'' 1 10))
     \<le> sint (co_ScaleUpCooldown (ComputeParams amd64 zero_features ''flat'' 1 10))"
  using cooldowns_follow_cv [of zero_features 0 "zero_features\<lparr>ft_CV := Fin 1\<rparr>" 1 amd64 "''spiky''" 1 10 "''flat''"]
  by (simp add: zero_features_def)

end
