(* ===== verification/Channel.thy ===== *)
theory Channel
  imports Prelude
begin

text \<open>
  Buffered Go channels as the program uses them: non-blocking sends and receives, and the two
  drop-and-replace routines built from them, \<^verbatim>\<open>ChannelNotifier.Notify\<close>
  (\<^verbatim>\<open>internal/controller/interfaces.go\<close>) and \<^verbatim>\<open>dropAndPush\<close> (\<^verbatim>\<open>internal/classifier/manager.go\<close>).
  A channel is the list of its queued values together with its capacity.

  The contract of such a routine is the locale \<open>mailbox\<close>: after a post the newest value is
  queued. Both routines are interpreted. A second part lets several
  \<^verbatim>\<open>dropAndPush\<close> calls and a consumer interleave step by step (\<^verbatim>\<open>SignalReclassify\<close> pushes after it
  has released its lock). There a \<^verbatim>\<open>select\<close> statement without a \<^verbatim>\<open>default\<close> has no step while its
  case is not ready, so that not blocking is something to prove; no wake-up is lost and every call
  returns.
\<close>

record 'a channel =
  ch_buf :: "'a list"
  ch_cap :: nat

definition make_chan :: "nat \<Rightarrow> 'a channel" where
  "make_chan cap = \<lparr>ch_buf = [], ch_cap = cap\<rparr>"

text \<open>A \<^verbatim>\<open>select\<close> with one case and a \<^verbatim>\<open>default\<close>: the result tells whether the case was taken.\<close>

definition try_send :: "'a channel \<Rightarrow> 'a \<Rightarrow> bool \<times> 'a channel" where
  "try_send ch x =
     (if length (ch_buf ch) < ch_cap ch then (True, ch\<lparr>ch_buf := ch_buf ch @ [x]\<rparr>) else (False, ch))"

definition try_recv :: "'a channel \<Rightarrow> 'a option \<times> 'a channel" where
  "try_recv ch = (case ch_buf ch of [] \<Rightarrow> (None, ch) | x # xs \<Rightarrow> (Some x, ch\<lparr>ch_buf := xs\<rparr>))"

definition Notify :: "'a channel \<Rightarrow> 'a \<Rightarrow> 'a channel" where
  "Notify ch req =
     (let (_, ch) = try_recv ch;
          (_, ch) = try_send ch req
      in ch)"

definition dropAndPush :: "unit channel \<Rightarrow> unit channel" where
  "dropAndPush ch =
     (case try_send ch () of
        (True, ch) \<Rightarrow> ch
      | (False, ch) \<Rightarrow>
          let (_, ch) = try_recv ch;
              (_, ch) = try_send ch ()
          in ch)"

section \<open>The mailbox contract\<close>

definition slot :: "'a channel \<Rightarrow> bool" where
  "slot ch \<longleftrightarrow> ch_cap ch = 1 \<and> length (ch_buf ch) \<le> 1"

lemma slot_make_chan [simp]: "slot (make_chan 1)"
  by (simp add: slot_def make_chan_def)

lemma slot_cases: "slot ch \<Longrightarrow> ch_buf ch = [] \<or> (\<exists>x. ch_buf ch = [x])"
  by (cases "ch_buf ch") (auto simp: slot_def)

locale mailbox =
  fixes wf :: "'s \<Rightarrow> bool"
    and queued :: "'s \<Rightarrow> 'a list"
    and post :: "'s \<Rightarrow> 'a \<Rightarrow> 's"
  assumes post_wf: "wf s \<Longrightarrow> wf (post s x)"
    and post_queued: "wf s \<Longrightarrow> queued (post s x) = [x]"
begin

text \<open>However many values are posted before the consumer looks, it finds exactly the last one.\<close>

lemma posts_wf: "wf s \<Longrightarrow> wf (foldl post s xs)"
  by (induction xs arbitrary: s) (simp_all add: post_wf)

lemma last_wins: "wf s \<Longrightarrow> xs \<noteq> [] \<Longrightarrow> queued (foldl post s xs) = [List.last xs]"
proof (induction xs rule: rev_induct)
  case (snoc x xs)
  then show ?case using posts_wf [of s xs] by (simp add: post_queued)
qed simp

lemma posts_bounded: "wf s \<Longrightarrow> length (queued (foldl post s (x # xs))) = 1"
  using last_wins [of s "x # xs"] by simp

end

lemma Notify_slot:
  assumes "slot ch"
  shows "ch_buf (Notify ch req) = [req]" "slot (Notify ch req)"
  using slot_cases [OF assms] assms
  by (auto simp: Notify_def try_recv_def try_send_def slot_def split: list.splits)

lemma dropAndPush_slot:
  assumes "slot ch"
  shows "ch_buf (dropAndPush ch) = [()]" "slot (dropAndPush ch)"
  using slot_cases [OF assms] assms
  by (auto simp: dropAndPush_def try_recv_def try_send_def slot_def split: list.splits)

interpretation notifier: mailbox slot ch_buf Notify
  by unfold_locales (simp_all add: Notify_slot)

interpretation trigger: mailbox slot ch_buf "\<lambda>ch (_ :: unit). dropAndPush ch"
  by unfold_locales (simp_all add: dropAndPush_slot)

text \<open>The explanation channel never holds more than one request and it is always the newest: after
  any burst of scale events the explainer sees exactly the last one.\<close>

theorem Notify_last_wins:
  assumes "reqs \<noteq> []"
  shows "ch_buf (foldl Notify (make_chan 1) reqs) = [List.last reqs]"
  by (rule notifier.last_wins [OF slot_make_chan assms])

theorem Notify_last_wins_witness:
  "ch_buf (foldl Notify (make_chan 1) [1, 2, 3 :: nat]) = [3]"
  using Notify_last_wins [of "[1, 2, 3 :: nat]"] by simp

section \<open>Concurrent pushes\<close>

text \<open>The program points of one \<open>dropAndPush\<close>: the first send, the drain, the second send, done.\<close>

datatype push_pc = Try1 | Drain | Try2 | Finished

text \<open>The shared channel (full or empty) and the callers; \<open>pp_got\<close> is a ghost: a receive has
  happened since the caller's first step.\<close>

record pusher =
  pp_pc :: push_pc
  pp_got :: bool

record push_state =
  psh_full :: bool
  psh_callers :: "pusher list"

text \<open>A \<^verbatim>\<open>select\<close> with one case on a channel of one slot, and with or without a \<^verbatim>\<open>default\<close> branch: it
  yields whether the case was taken and what the channel holds then, and \<open>None\<close> when it has to wait.\<close>

definition select_send :: "bool \<Rightarrow> bool \<Rightarrow> (bool \<times> bool) option" where
  "select_send has_default full =
     (if \<not> full then Some (True, True) else if has_default then Some (False, full) else None)"

definition select_recv :: "bool \<Rightarrow> bool \<Rightarrow> (bool \<times> bool) option" where
  "select_recv has_default full =
     (if full then Some (True, False) else if has_default then Some (False, full) else None)"

fun push_step :: "bool \<Rightarrow> push_pc \<Rightarrow> (bool \<times> push_pc) option" where
  "push_step full Try1 =
     (case select_send True full of
        None \<Rightarrow> None
      | Some (sent, full') \<Rightarrow> Some (full', if sent then Finished else Drain))"
| "push_step full Drain =
     (case select_recv True full of None \<Rightarrow> None | Some (_, full') \<Rightarrow> Some (full', Try2))"
| "push_step full Try2 =
     (case select_send True full of None \<Rightarrow> None | Some (_, full') \<Rightarrow> Some (full', Finished))"
| "push_step full Finished = None"

definition note_receive :: "pusher \<Rightarrow> pusher" where
  "note_receive p = (if pp_pc p = Try1 then p else p\<lparr>pp_got := True\<rparr>)"

inductive pstep :: "push_state \<Rightarrow> push_state \<Rightarrow> bool" where
  caller: "i < length (psh_callers s) \<Longrightarrow>
     push_step (psh_full s) (pp_pc (psh_callers s ! i)) = Some (full', pc') \<Longrightarrow>
     pstep s \<lparr>psh_full = full', psh_callers = (psh_callers s)[i := (psh_callers s ! i)\<lparr>pp_pc := pc'\<rparr>]\<rparr>"
| receive: "psh_full s \<Longrightarrow>
     pstep s \<lparr>psh_full = False, psh_callers = map note_receive (psh_callers s)\<rparr>"

inductive preach :: "nat \<Rightarrow> push_state \<Rightarrow> bool" where
  start: "preach n \<lparr>psh_full = full, psh_callers = replicate n \<lparr>pp_pc = Try1, pp_got = False\<rparr>\<rparr>"
| step: "preach n s \<Longrightarrow> pstep s s' \<Longrightarrow> preach n s'"

definition sent_or_pending :: "push_state \<Rightarrow> bool" where
  "sent_or_pending s \<longleftrightarrow>
     (\<forall>p \<in> set (psh_callers s). pp_pc p = Try1 \<or> pp_got p \<or> psh_full s \<or>
        (\<exists>q \<in> set (psh_callers s). pp_pc q = Try2))"

lemma push_step_cases:
  assumes "push_step full pc = Some (full', pc')"
  shows "full' \<or> pc' = Try2"
  using assms by (cases pc) (auto simp: select_send_def select_recv_def split: if_splits)

lemma sent_or_pending_step:
  assumes "pstep s s'" "sent_or_pending s"
  shows "sent_or_pending s'"
  using assms(1)
proof cases
  case (caller i full' pc')
  let ?p = "(psh_callers s ! i)\<lparr>pp_pc := pc'\<rparr>"
  have "?p \<in> set (psh_callers s')" using caller(1,2) by (simp add: set_update_memI)
  moreover have "full' \<or> pp_pc ?p = Try2" using push_step_cases [OF caller(3)] by simp
  ultimately have "psh_full s' \<or> (\<exists>q \<in> set (psh_callers s'). pp_pc q = Try2)"
    using caller(1) by (metis push_state.select_convs(1))
  then show ?thesis by (auto simp: sent_or_pending_def)
next
  case receive
  then show ?thesis by (auto simp: sent_or_pending_def note_receive_def)
qed

lemma sent_or_pending_reach: "preach n s \<Longrightarrow> sent_or_pending s"
  by (induction rule: preach.induct) (auto simp: sent_or_pending_step, simp add: sent_or_pending_def)

lemma callers_length: "preach n s \<Longrightarrow> length (psh_callers s) = n"
  by (induction rule: preach.induct) (auto elim!: pstep.cases)

text \<open>C31. No reclassification signal is lost: in every interleaving of concurrent \<open>dropAndPush\<close> calls
  with a consumer, once all calls have returned, each of them left a signal in the channel or the
  consumer received one after that call had begun.\<close>

theorem no_lost_signal:
  assumes "preach n s" and "\<forall>p \<in> set (psh_callers s). pp_pc p = Finished" and "i < n"
  shows "psh_full s \<or> pp_got (psh_callers s ! i)"
proof -
  have "psh_callers s ! i \<in> set (psh_callers s)" using callers_length [OF assms(1)] assms(3) by simp
  then show ?thesis
    using sent_or_pending_reach [OF assms(1)] assms(2) unfolding sent_or_pending_def by fastforce
qed

section \<open>Every call returns\<close>

text \<open>A scheduler gives turns to the callers and to the consumer, in any order. A caller whose
  statement has to wait keeps its place, and so does a consumer that finds nothing.\<close>

datatype turn = Caller nat | Consumer

fun take_turn :: "push_state \<Rightarrow> turn \<Rightarrow> push_state" where
  "take_turn s (Caller i) =
     (if i < length (psh_callers s)
      then case push_step (psh_full s) (pp_pc (psh_callers s ! i)) of
             None \<Rightarrow> s
           | Some (full', pc') \<Rightarrow>
               \<lparr>psh_full = full', psh_callers = (psh_callers s)[i := (psh_callers s ! i)\<lparr>pp_pc := pc'\<rparr>]\<rparr>
      else s)"
| "take_turn s Consumer =
     (if psh_full s then \<lparr>psh_full = False, psh_callers = map note_receive (psh_callers s)\<rparr> else s)"

definition start_calls :: "bool \<Rightarrow> nat \<Rightarrow> push_state" where
  "start_calls full n = \<lparr>psh_full = full, psh_callers = replicate n \<lparr>pp_pc = Try1, pp_got = False\<rparr>\<rparr>"

lemma take_turn_pstep: "take_turn s t = s \<or> pstep s (take_turn s t)"
proof (cases t)
  case (Caller i)
  then show ?thesis by (auto split: option.splits intro: pstep.caller)
next
  case Consumer
  then show ?thesis by (auto intro: pstep.receive)
qed

lemma turns_reach: "preach n s \<Longrightarrow> preach n (foldl take_turn s ts)"
proof (induction ts arbitrary: s)
  case (Cons t ts)
  have "preach n (take_turn s t)"
    using take_turn_pstep [of s t] Cons.prems preach.step by metis
  then show ?case using Cons.IH by simp
qed simp

text \<open>The statements left to a caller. Its own turn always makes progress, whatever the channel
  holds; the turns of others do not undo it.\<close>

fun pc_rank :: "push_pc \<Rightarrow> nat" where
  "pc_rank Try1 = 3" | "pc_rank Drain = 2" | "pc_rank Try2 = 1" | "pc_rank Finished = 0"

lemma push_step_progress:
  assumes "pc \<noteq> Finished"
  shows "\<exists>full' pc'. push_step full pc = Some (full', pc') \<and> pc_rank pc' < pc_rank pc"
  using assms by (cases pc) (auto simp: select_send_def select_recv_def)

lemma own_turn:
  assumes "i < length (psh_callers s)"
  shows "pc_rank (pp_pc (psh_callers (take_turn s (Caller i)) ! i)) \<le> pc_rank (pp_pc (psh_callers s ! i)) - 1"
proof (cases "pp_pc (psh_callers s ! i) = Finished")
  case False
  obtain full' pc' where "push_step (psh_full s) (pp_pc (psh_callers s ! i)) = Some (full', pc')"
    and "pc_rank pc' < pc_rank (pp_pc (psh_callers s ! i))"
    using push_step_progress [OF False, of "psh_full s"] by blast
  then show ?thesis using assms by simp
qed simp

lemma other_turn:
  assumes "t \<noteq> Caller i" "i < length (psh_callers s)"
  shows "pp_pc (psh_callers (take_turn s t) ! i) = pp_pc (psh_callers s ! i)"
  using assms by (cases t) (auto simp: note_receive_def nth_list_update split: option.splits)

lemma turn_length: "length (psh_callers (take_turn s t)) = length (psh_callers s)"
  by (cases t) (auto split: option.splits)

lemma turns_rank:
  assumes "i < length (psh_callers s)"
  shows "pc_rank (pp_pc (psh_callers (foldl take_turn s ts) ! i))
    \<le> pc_rank (pp_pc (psh_callers s ! i)) - count_list ts (Caller i)"
  using assms
proof (induction ts arbitrary: s)
  case (Cons t ts)
  note IH = Cons.IH [of "take_turn s t"]
  show ?case
  proof (cases "t = Caller i")
    case True
    then show ?thesis using IH own_turn [OF Cons.prems] Cons.prems turn_length [of s t] by simp
  next
    case False
    then show ?thesis using IH other_turn [OF False Cons.prems] Cons.prems turn_length [of s t] by simp
  qed
qed simp

text \<open>C37. Signalling never blocks and does not lose the signal: however the turns of \<open>n\<close> concurrent
  \<open>dropAndPush\<close> calls and of the consumer are ordered, and whether or not the consumer ever
  receives, a call that got three turns of its own has returned; and then a signal is queued, or
  the consumer received one since that call began, or another call has just drained the slot and is
  about to fill it. A \<^verbatim>\<open>select\<close> without its \<^verbatim>\<open>default\<close> would wait at a full or at an empty channel.\<close>

theorem push_returns:
  assumes "i < n" and "3 \<le> count_list turns (Caller i)"
    and s_def: "s = foldl take_turn (start_calls full n) turns"
  shows "pp_pc (psh_callers s ! i) = Finished \<and>
    (psh_full s \<or> pp_got (psh_callers s ! i) \<or> (\<exists>q \<in> set (psh_callers s). pp_pc q = Try2))"
proof -
  have "preach n s" unfolding s_def start_calls_def by (intro turns_reach preach.start)
  then have "psh_callers s ! i \<in> set (psh_callers s)" "sent_or_pending s"
    using assms(1) callers_length sent_or_pending_reach by auto
  moreover have "pc_rank (pp_pc (psh_callers s ! i)) = 0"
    using turns_rank [of i "start_calls full n" turns] assms(1,2) by (simp add: s_def start_calls_def)
  then have "pp_pc (psh_callers s ! i) = Finished" by (cases "pp_pc (psh_callers s ! i)") simp_all
  ultimately show ?thesis unfolding sent_or_pending_def by fastforce
qed

text \<open>Two calls race at a full channel: both find it full, the first drains and refills it, the second
  does so too. The consumer never receives, and both return.\<close>

theorem push_returns_witness:
  "pp_pc (psh_callers (foldl take_turn (start_calls True 2)
     [Caller 0, Caller 1, Caller 0, Caller 1, Caller 0, Caller 1]) ! 1) = Finished"
  by (rule push_returns [OF _ _ refl, THEN conjunct1]) simp_all

text \<open>Undisturbed, the three steps are the sequential \<open>dropAndPush\<close>.\<close>

lemma dropAndPush_turns:
  assumes "slot ch" "s = foldl take_turn (start_calls (ch_buf ch \<noteq> []) 1) [Caller 0, Caller 0, Caller 0]"
  shows "psh_full s \<longleftrightarrow> ch_buf (dropAndPush ch) \<noteq> []"
  using assms slot_cases [OF assms(1)]
  by (auto simp: start_calls_def dropAndPush_slot select_send_def select_recv_def)

theorem no_lost_signal_witness:
  "\<exists>s. preach 1 s \<and> pp_pc (psh_callers s ! 0) = Finished \<and> (psh_full s \<or> pp_got (psh_callers s ! 0))"
proof -
  let ?s0 = "\<lparr>psh_full = False, psh_callers = replicate 1 \<lparr>pp_pc = Try1, pp_got = False\<rparr>\<rparr>"
  let ?s1 = "\<lparr>psh_full = True, psh_callers = [\<lparr>pp_pc = Finished, pp_got = False\<rparr>]\<rparr>"
  have "pstep ?s0 ?s1" using pstep.caller [of 0 ?s0 True Finished] by (simp add: select_send_def)
  then have r: "preach 1 ?s1" using preach.step [OF preach.start [of 1 False]] by simp
  then show ?thesis using no_lost_signal [OF r, of 0] by auto
qed

end
