(* ===== verification/Interfaces.thy ===== *)
theory Interfaces
  imports Api Channel
begin

text \<open>
  The surfaces between the components: the wire types of the Prometheus and Forecast adapters
  (\<^verbatim>\<open>internal/adapters/prometheus/client.go\<close>, \<^verbatim>\<open>internal/adapters/forecast/types.go\<close>), the request the
  reconciler hands to the explainer (\<^verbatim>\<open>internal/controller/interfaces.go\<close>), the parts of the
  Kubernetes objects the program reads, and the trace of externally visible effects in which
  every handler of the development records its calls, in order.
\<close>

record prom_sample =
  smp_Timestamp :: time
  smp_Value :: float64

record context_payload =
  cpl_BaselineRPS :: int32
  cpl_PeakP95RPS :: int32
  cpl_Trend24hSlope :: float64
  cpl_HourlyProfile :: "int32 list"
  cpl_HourlyProfileValid :: bool
  cpl_CurrentHourUTC :: int32
  cpl_CurrentMinuteUTC :: int32

record recommend_request =
  rq_RpsHistory :: "float64 list"
  rq_WorkloadID :: string
  rq_PreferredModel :: string
  rq_Context :: "context_payload option"

record recommend_response =
  rs_PredictedRPS :: float64
  rs_HorizonMinutes :: int
  rs_ModelUsed :: string

record explain_request =
  er_Namespace :: string
  er_Name :: string
  er_Reason :: string
  er_CurrentReplicas :: int32
  er_RecommendedReplicas :: int32
  er_TargetReplicas :: int32
  er_CurrentRPS :: float64
  er_PredictedRPS :: float64
  er_HorizonMinutes :: int
  er_ModelUsed :: string
  er_Pattern :: string
  er_Confidence :: string
  er_EffectiveCooldownUp :: int32
  er_EffectiveCooldownDown :: int32
  er_EffectiveMaxStep :: int32
  er_UnboundedRecommended :: int32
  er_MaxReplicas :: int32
  er_MinReplicas :: int32
  er_BaselineRPS :: int32
  er_PeakP95RPS :: int32
  er_HourlyProfileValid :: bool

section \<open>Kubernetes objects\<close>

record deployment =
  dp_Namespace :: string
  dp_Name :: string
  dp_Annotations :: "string \<rightharpoonup> string"
  dp_Replicas :: "int32 option"

record hpa =
  hpa_Name :: string
  hpa_TargetKind :: string
  hpa_TargetName :: string

section \<open>Effects\<close>

datatype event_type = Normal | Warning

datatype effect =
    EffEvent namespaced_name event_type string string \<comment> \<open>object, type, reason, message\<close>
  | EffInstantQuery string
  | EffRangeQuery string time time duration
  | EffRecommend recommend_request
  | EffScale namespaced_name int32 "api_error option" \<comment> \<open>deployment, replicas, outcome\<close>
  | EffStatusUpdate aas "api_error option"
  | EffUpdate aas "api_error option"
  | EffNotify explain_request

fun is_scale :: "effect \<Rightarrow> bool" where
  "is_scale (EffScale _ _ _) = True" | "is_scale _ = False"

fun is_recommend :: "effect \<Rightarrow> bool" where
  "is_recommend (EffRecommend _) = True" | "is_recommend _ = False"

fun is_notify :: "effect \<Rightarrow> bool" where
  "is_notify (EffNotify _) = True" | "is_notify _ = False"

fun status_written :: "effect \<Rightarrow> aas option" where
  "status_written (EffStatusUpdate a _) = Some a" | "status_written _ = None"

section \<open>An example resource\<close>

definition demo_spec :: aas_spec where
  "demo_spec = \<lparr>spec_TargetRef = \<lparr>ref_APIVersion = ''apps/v1'', ref_Kind = ''Deployment'', ref_Name = ''web''\<rparr>,
     spec_MinReplicas = Some 2, spec_MaxReplicas = Some 10, spec_RpsPerPodMin = Some 50,
     spec_RpsPerPodMax = Some 500, spec_MaxStepSize = None, spec_ScaleUpCooldownSeconds = None,
     spec_ScaleDownCooldownSeconds = None, spec_PreferredForecaster = None\<rparr>"

definition demo_cr :: aas where
  "demo_cr = \<lparr>aas_Namespace = ''prod'', aas_Name = ''web'', aas_Annotations = Map.empty,
     aas_DeletionTimestamp = None, aas_Spec = demo_spec, aas_Status = zero_status\<rparr>"

end
