(* ===== verification/Manager.thy ===== *)
theory Manager
  imports Classify Interfaces
begin

text \<open>
  \<^verbatim>\<open>internal/classifier/manager.go\<close>: the supervisor of the classifier goroutines. The manager keeps
  a handle per resource; starting a goroutine appends its worker to \<open>mg_spawned\<close> (its position is
  its identity) and cancelling its own context adds that position to \<open>mg_cancelled\<close>. Cancelling
  is not returning: the cancellation of \<^verbatim>\<open>rootCtx\<close> and the return of a goroutine are steps of their own
  (\<open>supervised\<close>, \<open>sv_step\<close>).

  The locale \<open>supervisor\<close> is the contract the reconciler relies on. The invariant
  \<open>mgr_wf\<close> holds in every reachable state and ties the handles to the goroutines that have not been
  told to stop.
\<close>

record worker_config =
  wc_Interval :: duration
  wc_HistoryHours :: duration
  wc_MinPoints :: int
  wc_HighConfPoints :: int
  wc_DedupSeconds :: int
  wc_ResolutionMin :: int
  wc_HourlyProfileMinHours :: int
  wc_CVGuardMeanRPS :: float64

record worker =
  wk_Key :: namespaced_name
  wk_DeploymentName :: string
  wk_MinReplicas :: int32
  wk_MaxReplicas :: int32
  wk_Config :: worker_config
  wk_lastClassifyAt :: time

record worker_handle =
  wh_id :: nat
  wh_reclassifyCh :: "unit channel"
  wh_generationCh :: "unit channel"
  wh_lastDeploymentRevision :: string
  wh_revisionInitialized :: bool

record manager =
  mg_config :: worker_config
  mg_workers :: "namespaced_name \<rightharpoonup> worker_handle"
  mg_spawned :: "worker list"
  mg_cancelled :: "nat set"

definition NewManager :: "worker_config \<Rightarrow> manager" where
  "NewManager cfg = \<lparr>mg_config = cfg, mg_workers = Map.empty, mg_spawned = [], mg_cancelled = {}\<rparr>"

definition Ensure :: "manager \<Rightarrow> aas \<Rightarrow> manager" where
  "Ensure m cr =
     (let key = aas_key cr in
      case mg_workers m key of
        Some _ \<Rightarrow> m
      | None \<Rightarrow>
          let minRep = (case spec_MinReplicas (aas_Spec cr) of None \<Rightarrow> 2 | Some v \<Rightarrow> v);
              maxRep = (case spec_MaxReplicas (aas_Spec cr) of None \<Rightarrow> 10 | Some v \<Rightarrow> v);
              w = \<lparr>wk_Key = key, wk_DeploymentName = ref_Name (spec_TargetRef (aas_Spec cr)),
                   wk_MinReplicas = minRep, wk_MaxReplicas = maxRep, wk_Config = mg_config m,
                   wk_lastClassifyAt = zero_time\<rparr>;
              h = \<lparr>wh_id = length (mg_spawned m), wh_reclassifyCh = make_chan 1, wh_generationCh = make_chan 1,
                   wh_lastDeploymentRevision = '''', wh_revisionInitialized = False\<rparr>
          in m\<lparr>mg_workers := (mg_workers m)(key \<mapsto> h), mg_spawned := mg_spawned m @ [w]\<rparr>)"

definition Stop :: "manager \<Rightarrow> namespaced_name \<Rightarrow> manager" where
  "Stop m key =
     (case mg_workers m key of
        None \<Rightarrow> m
      | Some h \<Rightarrow> m\<lparr>mg_workers := (mg_workers m)(key := None), mg_cancelled := insert (wh_id h) (mg_cancelled m)\<rparr>)"

definition SignalReclassify :: "manager \<Rightarrow> namespaced_name \<Rightarrow> manager" where
  "SignalReclassify m key =
     (case mg_workers m key of
        None \<Rightarrow> m
      | Some h \<Rightarrow> m\<lparr>mg_workers := (mg_workers m)(key \<mapsto> h\<lparr>wh_reclassifyCh := dropAndPush (wh_reclassifyCh h)\<rparr>)\<rparr>)"

definition ObserveDeploymentRevision :: "manager \<Rightarrow> namespaced_name \<Rightarrow> string \<Rightarrow> bool \<times> manager" where
  "ObserveDeploymentRevision m key revision =
     (case mg_workers m key of
        None \<Rightarrow> (False, m)
      | Some h \<Rightarrow>
          if \<not> wh_revisionInitialized h
          then (False, m\<lparr>mg_workers := (mg_workers m)(key \<mapsto>
                  h\<lparr>wh_lastDeploymentRevision := revision, wh_revisionInitialized := True\<rparr>)\<rparr>)
          else if wh_lastDeploymentRevision h = revision then (False, m)
          else (True, m\<lparr>mg_workers := (mg_workers m)(key \<mapsto>
                  h\<lparr>wh_lastDeploymentRevision := revision, wh_generationCh := dropAndPush (wh_generationCh h)\<rparr>)\<rparr>))"

definition LastDeploymentRevision :: "manager \<Rightarrow> namespaced_name \<Rightarrow> string" where
  "LastDeploymentRevision m key = (case mg_workers m key of None \<Rightarrow> '''' | Some h \<Rightarrow> wh_lastDeploymentRevision h)"

definition HasWorker :: "manager \<Rightarrow> namespaced_name \<Rightarrow> bool" where
  "HasWorker m key \<longleftrightarrow> (case mg_workers m key of None \<Rightarrow> False | Some _ \<Rightarrow> True)"

section \<open>The supervisor contract\<close>

locale supervisor =
  fixes has :: "'m \<Rightarrow> 'k \<Rightarrow> bool"
    and ensure :: "'m \<Rightarrow> 'c \<Rightarrow> 'm"
    and stop :: "'m \<Rightarrow> 'k \<Rightarrow> 'm"
    and key_of :: "'c \<Rightarrow> 'k"
  assumes has_ensure: "has (ensure m c) k \<longleftrightarrow> has m k \<or> k = key_of c"
    and has_stop: "has (stop m k') k \<longleftrightarrow> has m k \<and> k \<noteq> k'"
    and ensure_known: "has m (key_of c) \<Longrightarrow> ensure m c = m"
    and stop_unknown: "\<not> has m k \<Longrightarrow> stop m k = m"
begin

lemma ensure_idem: "ensure (ensure m c) c = ensure m c"
  by (simp add: ensure_known has_ensure)

lemma stop_idem: "stop (stop m k) k = stop m k"
  by (simp add: stop_unknown has_stop)

text \<open>After a run of reconciles the supervised resources are those reconciled since their last deletion.\<close>

lemma has_foldl_ensure: "has (foldl ensure m cs) k \<longleftrightarrow> has m k \<or> k \<in> key_of ` set cs"
  by (induction cs arbitrary: m) (auto simp: has_ensure)

end

interpretation classifiers: supervisor HasWorker Ensure Stop aas_key
  by unfold_locales
    (auto simp: HasWorker_def Ensure_def Stop_def Let_def split: option.splits if_splits)

text \<open>A worker keeps what it was started with: an edit of the resource, of its target or of its replica bounds,
  does not reach the worker that runs.\<close>

lemma edited_resource_ignored:
  "HasWorker m (aas_key cr) \<Longrightarrow> Ensure m (cr\<lparr>aas_Spec := sp\<rparr>) = m"
  by (rule classifiers.ensure_known) (simp add: aas_key_def)

section \<open>One worker per resource\<close>

text \<open>The goroutines of a resource whose own context \<^verbatim>\<open>Stop\<close> has not cancelled.\<close>

definition uncancelled :: "manager \<Rightarrow> namespaced_name \<Rightarrow> nat set" where
  "uncancelled m key = {i. i < length (mg_spawned m) \<and> i \<notin> mg_cancelled m \<and> wk_Key (mg_spawned m ! i) = key}"

definition mgr_wf :: "manager \<Rightarrow> bool" where
  "mgr_wf m \<longleftrightarrow>
     (\<forall>key. uncancelled m key = (case mg_workers m key of None \<Rightarrow> {} | Some h \<Rightarrow> {wh_id h})) \<and>
     (\<forall>key h. mg_workers m key = Some h \<longrightarrow> slot (wh_reclassifyCh h) \<and> slot (wh_generationCh h)) \<and>
     mg_cancelled m \<subseteq> {..<length (mg_spawned m)}"

text \<open>The operations of the manager, and the worker's receive on one of its channels.\<close>

inductive mgr_step :: "manager \<Rightarrow> manager \<Rightarrow> bool" where
  ensure: "mgr_step m (Ensure m cr)"
| stop: "mgr_step m (Stop m key)"
| reclassify: "mgr_step m (SignalReclassify m key)"
| observe: "mgr_step m (snd (ObserveDeploymentRevision m key r))"
| recv_reclassify: "mg_workers m key = Some h \<Longrightarrow>
    mgr_step m (m\<lparr>mg_workers := (mg_workers m)(key \<mapsto> h\<lparr>wh_reclassifyCh := snd (try_recv (wh_reclassifyCh h))\<rparr>)\<rparr>)"
| recv_generation: "mg_workers m key = Some h \<Longrightarrow>
    mgr_step m (m\<lparr>mg_workers := (mg_workers m)(key \<mapsto> h\<lparr>wh_generationCh := snd (try_recv (wh_generationCh h))\<rparr>)\<rparr>)"

inductive mgr_reach :: "manager \<Rightarrow> bool" where
  new: "mgr_reach (NewManager cfg)"
| step: "mgr_reach m \<Longrightarrow> mgr_step m m' \<Longrightarrow> mgr_reach m'"

lemma try_recv_slot: "slot ch \<Longrightarrow> slot (snd (try_recv ch))"
  using slot_cases [of ch] by (auto simp: try_recv_def slot_def split: list.splits)

lemma mgr_wf_new: "mgr_wf (NewManager cfg)"
  by (simp add: mgr_wf_def NewManager_def uncancelled_def)

text \<open>A change of one handle that keeps its identity and its channels well formed.\<close>

lemma mgr_wf_handle:
  assumes "mgr_wf m" "mg_workers m key = Some h" "wh_id h' = wh_id h"
    "slot (wh_reclassifyCh h')" "slot (wh_generationCh h')"
  shows "mgr_wf (m\<lparr>mg_workers := (mg_workers m)(key \<mapsto> h')\<rparr>)"
  using assms by (auto simp: mgr_wf_def uncancelled_def split: option.splits)

lemma mgr_wf_stop: "mgr_wf m \<Longrightarrow> mgr_wf (Stop m key)"
proof (cases "mg_workers m key")
  case (Some h)
  assume wf: "mgr_wf m"
  have h: "uncancelled m key = {wh_id h}" using wf Some by (simp add: mgr_wf_def)
  have "wh_id h \<in> uncancelled m key" using h by simp
  then have l: "wh_id h < length (mg_spawned m)" by (simp add: uncancelled_def)
  have "uncancelled (Stop m key) k = uncancelled m k - {wh_id h}" for k
    using Some by (auto simp: uncancelled_def Stop_def)
  moreover have "wh_id h \<notin> uncancelled m k" if "k \<noteq> key" for k
    using h that by (auto simp: uncancelled_def)
  ultimately have r: "uncancelled (Stop m key) k = (if k = key then {} else uncancelled m k)" for k
    using h by auto
  show ?thesis
    unfolding mgr_wf_def r using wf Some l by (auto simp: mgr_wf_def Stop_def)
qed (simp add: Stop_def)

lemma mgr_wf_ensure: "mgr_wf m \<Longrightarrow> mgr_wf (Ensure m cr)"
proof (cases "mg_workers m (aas_key cr)")
  case None
  assume wf: "mgr_wf m"
  let ?n = "length (mg_spawned m)"
  have n: "?n \<notin> mg_cancelled m" using wf by (auto simp: mgr_wf_def)
  have r: "uncancelled (Ensure m cr) k = (if k = aas_key cr then {?n} \<union> uncancelled m k else uncancelled m k)" for k
    using None n by (auto simp: uncancelled_def Ensure_def Let_def nth_append less_Suc_eq)
  have "uncancelled m (aas_key cr) = {}" using wf None by (simp add: mgr_wf_def)
  then show ?thesis
    unfolding mgr_wf_def r using wf None
    by (auto simp: mgr_wf_def Ensure_def Let_def slot_make_chan simp del: One_nat_def)
qed (simp add: Ensure_def Let_def)

lemma mgr_wf_slots:
  "mgr_wf m \<Longrightarrow> mg_workers m key = Some h \<Longrightarrow> slot (wh_reclassifyCh h) \<and> slot (wh_generationCh h)"
  by (simp add: mgr_wf_def)

lemma mgr_wf_step: "mgr_step m m' \<Longrightarrow> mgr_wf m \<Longrightarrow> mgr_wf m'"
proof (induction rule: mgr_step.induct)
  case (reclassify m key)
  then show ?case
    by (cases "mg_workers m key")
       (simp_all add: SignalReclassify_def mgr_wf_handle mgr_wf_slots dropAndPush_slot)
next
  case (observe m key r)
  then show ?case
    by (cases "mg_workers m key")
       (simp_all add: ObserveDeploymentRevision_def mgr_wf_handle mgr_wf_slots dropAndPush_slot)
next
  case (recv_reclassify m key h)
  then show ?case by (simp add: mgr_wf_handle mgr_wf_slots try_recv_slot)
next
  case (recv_generation m key h)
  then show ?case by (simp add: mgr_wf_handle mgr_wf_slots try_recv_slot)
qed (simp_all add: mgr_wf_ensure mgr_wf_stop)

lemma mgr_reach_wf: "mgr_reach m \<Longrightarrow> mgr_wf m"
  by (induction rule: mgr_reach.induct) (auto simp: mgr_wf_new intro: mgr_wf_step)

definition demo_cfg :: worker_config where
  "demo_cfg = \<lparr>wc_Interval = Duration_of_i32 30 * Minute, wc_HistoryHours = Duration_of_i32 24 * Hour,
     wc_MinPoints = 72, wc_HighConfPoints = 240, wc_DedupSeconds = 60, wc_ResolutionMin = 0,
     wc_HourlyProfileMinHours = 0, wc_CVGuardMeanRPS = Fin 0\<rparr>"

text \<open>The manager with what happens to its goroutines from outside: \<^verbatim>\<open>rootCtx\<close>, from which every
  worker's context is derived, can be cancelled (the process is told to shut down), and a goroutine
  whose context is done returns from \<^verbatim>\<open>Run\<close> at some later moment. \<^verbatim>\<open>Run\<close> has no other return: its
  loop ends only on \<^verbatim>\<open>ctx.Done()\<close>, and a panic is recovered and the loop entered again.\<close>

record supervised =
  sv_mgr :: manager
  sv_root_done :: bool
  sv_exited :: "nat set"

definition ctx_done :: "supervised \<Rightarrow> nat \<Rightarrow> bool" where
  "ctx_done s i \<longleftrightarrow> sv_root_done s \<or> i \<in> mg_cancelled (sv_mgr s)"

text \<open>The goroutines of a resource that have not returned, told to stop or not.\<close>

definition alive :: "supervised \<Rightarrow> namespaced_name \<Rightarrow> nat set" where
  "alive s key = {i. i < length (mg_spawned (sv_mgr s)) \<and> i \<notin> sv_exited s \<and> wk_Key (mg_spawned (sv_mgr s) ! i) = key}"

inductive sv_step :: "supervised \<Rightarrow> supervised \<Rightarrow> bool" where
  op: "mgr_step (sv_mgr s) m' \<Longrightarrow> sv_step s (s\<lparr>sv_mgr := m'\<rparr>)"
| root_cancel: "sv_step s (s\<lparr>sv_root_done := True\<rparr>)"
| exit: "i < length (mg_spawned (sv_mgr s)) \<Longrightarrow> ctx_done s i \<Longrightarrow> sv_step s (s\<lparr>sv_exited := insert i (sv_exited s)\<rparr>)"

inductive sv_reach :: "supervised \<Rightarrow> bool" where
  new: "sv_reach \<lparr>sv_mgr = NewManager cfg, sv_root_done = False, sv_exited = {}\<rparr>"
| step: "sv_reach s \<Longrightarrow> sv_step s s' \<Longrightarrow> sv_reach s'"

lemma mgr_step_cancelled: "mgr_step m m' \<Longrightarrow> mg_cancelled m \<subseteq> mg_cancelled m'"
  by (induction rule: mgr_step.induct)
     (auto simp: Ensure_def Stop_def SignalReclassify_def ObserveDeploymentRevision_def Let_def split: option.splits)

text \<open>Only a goroutine that was told to stop has returned, and the manager itself takes only its own steps.\<close>

lemma sv_reach_inv: "sv_reach s \<Longrightarrow> mgr_reach (sv_mgr s) \<and> (\<forall>i \<in> sv_exited s. ctx_done s i)"
proof (induction rule: sv_reach.induct)
  case (step s s')
  from step.hyps(2) show ?case
  proof cases
    case (op m')
    then show ?thesis
      using step.IH mgr_reach.step [of "sv_mgr s" m'] mgr_step_cancelled [of "sv_mgr s" m']
      by (auto simp: ctx_done_def)
  qed (use step.IH in \<open>auto simp: ctx_done_def\<close>)
qed (simp add: mgr_reach.new)

text \<open>C26. In every state that can be reached, however reconciles, deletions, signals, the worker's
  receives, the cancellation of the root context and the returns of goroutines interleave: of the
  goroutines of a resource that have not returned, exactly one has not been told to stop as long as
  the manager holds a handle for the resource and the root context is not cancelled, namely the one
  with that handle's channels; there is none otherwise. So repeated reconciles start no second
  worker, none is lost, and every further goroutine of the resource has a cancelled context.
  \<open>HasWorker\<close> is the state of the map: it says nothing of goroutines once the root context is
  cancelled.\<close>

theorem one_worker_per_resource:
  assumes "sv_reach s"
  shows "{i \<in> alive s key. \<not> ctx_done s i} =
      (case mg_workers (sv_mgr s) key of None \<Rightarrow> {} | Some h \<Rightarrow> if sv_root_done s then {} else {wh_id h}) \<and>
    card {i \<in> alive s key. \<not> ctx_done s i} = (if HasWorker (sv_mgr s) key \<and> \<not> sv_root_done s then 1 else 0)"
proof -
  have "mgr_wf (sv_mgr s)" and "\<forall>i \<in> sv_exited s. ctx_done s i"
    using sv_reach_inv [OF assms] mgr_reach_wf by auto
  moreover from this have "{i \<in> alive s key. \<not> ctx_done s i} = (if sv_root_done s then {} else uncancelled (sv_mgr s) key)"
    by (auto simp: alive_def uncancelled_def ctx_done_def)
  ultimately show ?thesis by (simp add: mgr_wf_def HasWorker_def split: option.splits)
qed

text \<open>A resource is reconciled twice, deleted, created again and reconciled; its first worker has not
  returned yet.\<close>

definition demo_recreated :: supervised where
  "demo_recreated = \<lparr>sv_mgr = Ensure (Stop (Ensure (Ensure (NewManager demo_cfg) demo_cr) demo_cr) (aas_key demo_cr)) demo_cr,
     sv_root_done = False, sv_exited = {}\<rparr>"

lemma sv_reach_ops: "sv_reach s \<Longrightarrow> mgr_step (sv_mgr s) m' \<Longrightarrow> s' = s\<lparr>sv_mgr := m'\<rparr> \<Longrightarrow> sv_reach s'"
  by (simp add: sv_reach.step sv_step.op)

lemma demo_recreated_reach: "sv_reach demo_recreated"
proof -
  let ?s = "\<lambda>m. \<lparr>sv_mgr = m, sv_root_done = False, sv_exited = {}\<rparr>"
  let ?m1 = "Ensure (Ensure (NewManager demo_cfg) demo_cr) demo_cr"
  have "sv_reach (?s (NewManager demo_cfg))" by (rule sv_reach.new)
  then have "sv_reach (?s (Ensure (NewManager demo_cfg) demo_cr))"
    by (rule sv_reach_ops) (simp_all add: mgr_step.ensure)
  then have "sv_reach (?s ?m1)" by (rule sv_reach_ops) (simp_all add: mgr_step.ensure)
  then have "sv_reach (?s (Stop ?m1 (aas_key demo_cr)))" by (rule sv_reach_ops) (simp_all add: mgr_step.stop)
  then show ?thesis unfolding demo_recreated_def by (rule sv_reach_ops) (simp_all add: mgr_step.ensure)
qed

theorem one_worker_per_resource_witness:
  "sv_reach demo_recreated \<and>
   card {i \<in> alive demo_recreated (aas_key demo_cr). \<not> ctx_done demo_recreated i} = 1"
proof -
  have "HasWorker (sv_mgr demo_recreated) (aas_key demo_cr)" "\<not> sv_root_done demo_recreated"
    by (simp_all add: demo_recreated_def classifiers.has_ensure)
  then show ?thesis
    using one_worker_per_resource [OF demo_recreated_reach, THEN conjunct2, of "aas_key demo_cr"]
      demo_recreated_reach by simp
qed

text \<open>\<^verbatim>\<open>Stop\<close> does not wait: in that state two goroutines of the resource are alive. And after a shutdown
  \<open>HasWorker\<close> still says yes when every goroutine has returned.\<close>

lemma stopped_worker_lingers: "card (alive demo_recreated (aas_key demo_cr)) = 2"
proof -
  have "alive demo_recreated (aas_key demo_cr) = {0, 1}"
    by (auto simp: alive_def demo_recreated_def Ensure_def Stop_def NewManager_def Let_def less_Suc_eq)
  then show ?thesis by simp
qed

lemma HasWorker_after_shutdown:
  "\<exists>s. sv_reach s \<and> HasWorker (sv_mgr s) (aas_key demo_cr) \<and> alive s (aas_key demo_cr) = {}"
proof (intro exI conjI)
  let ?m = "Ensure (NewManager demo_cfg) demo_cr"
  let ?s = "\<lparr>sv_mgr = ?m, sv_root_done = False, sv_exited = {}\<rparr>"
  let ?s' = "?s\<lparr>sv_root_done := True\<rparr>"
  have "sv_reach ?s"
    by (rule sv_reach_ops [OF sv_reach.new [of demo_cfg]]) (simp_all add: mgr_step.ensure)
  then have "sv_reach ?s'" by (rule sv_reach.step [OF _ sv_step.root_cancel])
  then show "sv_reach (?s'\<lparr>sv_exited := insert 0 (sv_exited ?s')\<rparr>)"
    by (rule sv_reach.step [OF _ sv_step.exit]) (simp_all add: ctx_done_def Ensure_def NewManager_def Let_def)
qed (auto simp: alive_def HasWorker_def Ensure_def NewManager_def Let_def)

section \<open>Rollout detection\<close>

text \<open>The worker's receive on its generation channel: whether a signal was there.\<close>

definition receive_generation :: "manager \<Rightarrow> namespaced_name \<Rightarrow> bool \<times> manager" where
  "receive_generation m key =
     (case mg_workers m key of
        None \<Rightarrow> (False, m)
      | Some h \<Rightarrow>
          let (signal, ch) = try_recv (wh_generationCh h)
          in (signal \<noteq> None, m\<lparr>mg_workers := (mg_workers m)(key \<mapsto> h\<lparr>wh_generationCh := ch\<rparr>)\<rparr>))"

text \<open>A sequence of observed revisions of one resource, the worker receiving after each: the number of
  signals that reached it. In a burst it does not receive.\<close>

fun observe_all :: "manager \<Rightarrow> namespaced_name \<Rightarrow> string list \<Rightarrow> nat \<times> manager" where
  "observe_all m key [] = (0, m)"
| "observe_all m key (r # rs) =
     (let m1 = snd (ObserveDeploymentRevision m key r);
          (got, m2) = receive_generation m1 key;
          (n, m3) = observe_all m2 key rs
      in ((if got then 1 else 0) + n, m3))"

definition observe_burst :: "manager \<Rightarrow> namespaced_name \<Rightarrow> string list \<Rightarrow> manager" where
  "observe_burst m key revisions = foldl (\<lambda>m r. snd (ObserveDeploymentRevision m key r)) m revisions"

text \<open>The number of positions at which a sequence differs from its predecessor.\<close>

fun changes :: "string list \<Rightarrow> nat" where
  "changes (a # b # rs) = (if a = b then 0 else 1) + changes (b # rs)"
| "changes _ = 0"

text \<open>What one observation leaves in the handle, for a handle that has seen a revision.\<close>

lemma observe_initialised:
  assumes "mg_workers m key = Some h" "wh_revisionInitialized h" "slot (wh_generationCh h)"
  obtains h' where "mg_workers (snd (ObserveDeploymentRevision m key r)) key = Some h'"
    "wh_revisionInitialized h'" "wh_lastDeploymentRevision h' = r" "slot (wh_generationCh h')"
    "ch_buf (wh_generationCh h') = (if wh_lastDeploymentRevision h = r then ch_buf (wh_generationCh h) else [()])"
proof (cases "wh_lastDeploymentRevision h = r")
  case True
  then show ?thesis using that [of h] assms by (simp add: ObserveDeploymentRevision_def)
next
  case False
  then show ?thesis
    using that [of "h\<lparr>wh_lastDeploymentRevision := r, wh_generationCh := dropAndPush (wh_generationCh h)\<rparr>"]
      assms dropAndPush_slot [OF assms(3)] by (simp add: ObserveDeploymentRevision_def)
qed

lemma receive_known:
  assumes "mg_workers m key = Some h" "slot (wh_generationCh h)"
  obtains h' where "mg_workers (snd (receive_generation m key)) key = Some h'"
    "wh_revisionInitialized h' = wh_revisionInitialized h"
    "wh_lastDeploymentRevision h' = wh_lastDeploymentRevision h"
    "slot (wh_generationCh h')" "ch_buf (wh_generationCh h') = []"
    "fst (receive_generation m key) \<longleftrightarrow> ch_buf (wh_generationCh h) \<noteq> []"
proof -
  have "ch_buf (snd (try_recv (wh_generationCh h))) = []"
    "fst (try_recv (wh_generationCh h)) \<noteq> None \<longleftrightarrow> ch_buf (wh_generationCh h) \<noteq> []"
    using slot_cases [OF assms(2)] by (auto simp: try_recv_def split: list.splits)
  then show ?thesis
    using that [of "h\<lparr>wh_generationCh := snd (try_recv (wh_generationCh h))\<rparr>"] assms try_recv_slot [OF assms(2)]
    by (simp add: receive_generation_def case_prod_beta Let_def)
qed

lemma observe_all_initialised:
  assumes "mg_workers m key = Some h" "wh_revisionInitialized h" "slot (wh_generationCh h)"
    "ch_buf (wh_generationCh h) = []"
  shows "fst (observe_all m key rs) = changes (wh_lastDeploymentRevision h # rs)"
  using assms
proof (induction rs arbitrary: m h)
  case (Cons r rs)
  obtain h1 where h1: "mg_workers (snd (ObserveDeploymentRevision m key r)) key = Some h1"
    "wh_revisionInitialized h1" "wh_lastDeploymentRevision h1 = r" "slot (wh_generationCh h1)"
    "ch_buf (wh_generationCh h1) = (if wh_lastDeploymentRevision h = r then [] else [()])"
    using observe_initialised [OF Cons.prems(1-3), of r] Cons.prems(4) by metis
  obtain h2 where h2: "mg_workers (snd (receive_generation (snd (ObserveDeploymentRevision m key r)) key)) key = Some h2"
    "wh_revisionInitialized h2" "wh_lastDeploymentRevision h2 = r" "slot (wh_generationCh h2)"
    "ch_buf (wh_generationCh h2) = []"
    "fst (receive_generation (snd (ObserveDeploymentRevision m key r)) key) \<longleftrightarrow> wh_lastDeploymentRevision h \<noteq> r"
    using receive_known [OF h1(1,4)] h1 by (metis list.distinct(1))
  show ?case using Cons.IH [OF h2(1,2,4,5)] h2(3,6) by (simp add: case_prod_beta Let_def)
qed simp

lemma observe_burst_initialised:
  assumes "mg_workers m key = Some h" "wh_revisionInitialized h" "slot (wh_generationCh h)"
  shows "\<exists>h'. mg_workers (observe_burst m key rs) key = Some h' \<and>
    ch_buf (wh_generationCh h') =
      (if changes (wh_lastDeploymentRevision h # rs) = 0 then ch_buf (wh_generationCh h) else [()])"
  using assms
proof (induction rs arbitrary: m h)
  case (Cons r rs)
  obtain h1 where h1: "mg_workers (snd (ObserveDeploymentRevision m key r)) key = Some h1"
    "wh_revisionInitialized h1" "wh_lastDeploymentRevision h1 = r" "slot (wh_generationCh h1)"
    "ch_buf (wh_generationCh h1) = (if wh_lastDeploymentRevision h = r then ch_buf (wh_generationCh h) else [()])"
    using observe_initialised [OF Cons.prems, of r] by metis
  show ?case using Cons.IH [OF h1(1,2,4)] h1(3,5) by (auto simp: observe_burst_def)
qed (simp add: observe_burst_def)

text \<open>The first observation of a freshly started worker.\<close>

lemma observe_first:
  assumes "\<not> HasWorker m (aas_key cr)"
  obtains h where "mg_workers (snd (ObserveDeploymentRevision (Ensure m cr) (aas_key cr) r)) (aas_key cr) = Some h"
    "wh_revisionInitialized h" "wh_lastDeploymentRevision h = r" "slot (wh_generationCh h)"
    "ch_buf (wh_generationCh h) = []"
  using assms
  by (auto simp: Ensure_def HasWorker_def ObserveDeploymentRevision_def Let_def slot_def make_chan_def split: option.splits)

text \<open>C27. A freshly started worker is signalled once per rollout. Over any sequence of observed revision
  annotations, the first being only recorded: a worker that receives from its generation channel
  after each observation receives as many signals as there are changes in the sequence; one that is
  busy throughout finds, at the end, a single queued signal if the revision changed at all and none
  otherwise.\<close>

theorem rollout_signals:
  assumes "\<not> HasWorker m (aas_key cr)"
  shows "fst (observe_all (Ensure m cr) (aas_key cr) revisions) = changes revisions \<and>
    (\<exists>h. mg_workers (observe_burst (Ensure m cr) (aas_key cr) revisions) (aas_key cr) = Some h \<and>
       ch_buf (wh_generationCh h) = (if changes revisions = 0 then [] else [()]))"
proof (cases revisions)
  case Nil
  then show ?thesis using assms
    by (auto simp: observe_burst_def Ensure_def HasWorker_def Let_def make_chan_def split: option.splits)
next
  case (Cons r rs)
  let ?m = "snd (ObserveDeploymentRevision (Ensure m cr) (aas_key cr) r)"
  obtain h where h: "mg_workers ?m (aas_key cr) = Some h" "wh_revisionInitialized h"
    "wh_lastDeploymentRevision h = r" "slot (wh_generationCh h)" "ch_buf (wh_generationCh h) = []"
    using observe_first [OF assms] by blast
  obtain h' where h': "mg_workers (snd (receive_generation ?m (aas_key cr))) (aas_key cr) = Some h'"
    "wh_revisionInitialized h'" "wh_lastDeploymentRevision h' = r" "slot (wh_generationCh h')"
    "ch_buf (wh_generationCh h') = []" "\<not> fst (receive_generation ?m (aas_key cr))"
    using receive_known [OF h(1,4)] h by metis
  have "fst (observe_all (Ensure m cr) (aas_key cr) revisions) = changes revisions"
    using observe_all_initialised [OF h'(1,2,4,5), of rs] h'(3,6) Cons by (simp add: case_prod_beta Let_def)
  moreover have "observe_burst (Ensure m cr) (aas_key cr) revisions = observe_burst ?m (aas_key cr) rs"
    by (simp add: observe_burst_def Cons)
  ultimately show ?thesis using observe_burst_initialised [OF h(1,2,4), of rs] h(3,5) Cons by auto
qed

theorem rollout_signals_witness:
  "fst (observe_all (Ensure (NewManager demo_cfg) demo_cr) (aas_key demo_cr) [''3'', ''3'', ''4'', ''5'', ''5'']) = 2 \<and>
   (\<exists>h. mg_workers (observe_burst (Ensure (NewManager demo_cfg) demo_cr) (aas_key demo_cr) [''3'', ''3'', ''4'', ''5'', ''5''])
          (aas_key demo_cr) = Some h \<and> ch_buf (wh_generationCh h) = [()])"
  using rollout_signals [of "NewManager demo_cfg" demo_cr "[''3'', ''3'', ''4'', ''5'', ''5'']"]
  by (simp add: HasWorker_def NewManager_def)

end
