(* ===== verification/Metrics.thy ===== *)
theory Metrics
  imports Classify
begin

text \<open>
  \<^verbatim>\<open>internal/controller/metrics.go\<close>: the controller's Prometheus metrics. A gauge vector is a map
  from its labels to the value last set, a counter vector a function to the number of increments.
\<close>

type_synonym labels = "string \<times> string" \<comment> \<open>namespace, name\<close>

record metrics =
  mPredictedRPS :: "labels \<rightharpoonup> float64"
  mCurrentRPS :: "labels \<rightharpoonup> float64"
  mRpsPerPod :: "labels \<rightharpoonup> float64"
  mScaleEventsTotal :: "labels \<times> string \<Rightarrow> nat"
  mClassifiedPattern :: "labels \<rightharpoonup> float64"
  mClassifiedConfidence :: "labels \<rightharpoonup> float64"
  mForecastFailuresTotal :: "labels \<Rightarrow> nat"
  mMetricsUnavailableTotal :: "labels \<Rightarrow> nat"

definition no_metrics :: metrics where
  "no_metrics = \<lparr>mPredictedRPS = Map.empty, mCurrentRPS = Map.empty, mRpsPerPod = Map.empty,
     mScaleEventsTotal = \<lambda>_. 0, mClassifiedPattern = Map.empty, mClassifiedConfidence = Map.empty,
     mForecastFailuresTotal = \<lambda>_. 0, mMetricsUnavailableTotal = \<lambda>_. 0\<rparr>"

definition patternEnum :: "string \<rightharpoonup> float64" where
  "patternEnum = [
     '''' \<mapsto> Fin 0, PatternDefault \<mapsto> Fin 0, PatternFlat \<mapsto> Fin 1, PatternPeriodic \<mapsto> Fin 2,
     PatternSpiky \<mapsto> Fin 3, PatternGradualRamp \<mapsto> Fin 4]"

definition confidenceEnum :: "string \<rightharpoonup> float64" where
  "confidenceEnum = [''low'' \<mapsto> Fin 0, ''medium'' \<mapsto> Fin 1, ''high'' \<mapsto> Fin 2]"

definition observeReconcile ::
    "metrics \<Rightarrow> string \<Rightarrow> string \<Rightarrow> string \<Rightarrow> float64 \<Rightarrow> float64 \<Rightarrow> float64 \<Rightarrow> metrics" where
  "observeReconcile m namespace name reason currentRpsVal predictedRpsVal rpsPerPodVal =
     (let l = (namespace, name) in
      m\<lparr>mCurrentRPS := (mCurrentRPS m)(l \<mapsto> currentRpsVal),
        mPredictedRPS := (mPredictedRPS m)(l \<mapsto> predictedRpsVal),
        mRpsPerPod := (mRpsPerPod m)(l \<mapsto> rpsPerPodVal),
        mScaleEventsTotal := (mScaleEventsTotal m)((l, reason) := mScaleEventsTotal m (l, reason) + 1)\<rparr>)"

definition observeClassification :: "metrics \<Rightarrow> string \<Rightarrow> string \<Rightarrow> string \<Rightarrow> string \<Rightarrow> metrics" where
  "observeClassification m namespace name pattern confidence =
     (let l = (namespace, name);
          m = (case patternEnum pattern of
                 None \<Rightarrow> m | Some v \<Rightarrow> m\<lparr>mClassifiedPattern := (mClassifiedPattern m)(l \<mapsto> v)\<rparr>)
      in (case confidenceEnum confidence of
            None \<Rightarrow> m | Some v \<Rightarrow> m\<lparr>mClassifiedConfidence := (mClassifiedConfidence m)(l \<mapsto> v)\<rparr>))"

definition observeForecastFailure :: "metrics \<Rightarrow> string \<Rightarrow> string \<Rightarrow> metrics" where
  "observeForecastFailure m namespace name =
     m\<lparr>mForecastFailuresTotal := (mForecastFailuresTotal m)
        ((namespace, name) := mForecastFailuresTotal m (namespace, name) + 1)\<rparr>"

definition observeMetricsUnavailable :: "metrics \<Rightarrow> string \<Rightarrow> string \<Rightarrow> metrics" where
  "observeMetricsUnavailable m namespace name =
     m\<lparr>mMetricsUnavailableTotal := (mMetricsUnavailableTotal m)
        ((namespace, name) := mMetricsUnavailableTotal m (namespace, name) + 1)\<rparr>"

text \<open>Every pattern and every confidence label the classifier can publish has a gauge value, and
  distinct published patterns have distinct values.\<close>

lemma patternEnum_known: "p \<in> known_patterns \<Longrightarrow> patternEnum p \<noteq> None"
  by (auto simp: known_patterns_def patternEnum_def pattern_defs)

lemma patternEnum_inj: "inj_on patternEnum known_patterns"
  by (auto simp: inj_on_def known_patterns_def patternEnum_def pattern_defs)

lemma confidenceEnum_known: "c \<in> {''high'', ''medium''} \<Longrightarrow> confidenceEnum c \<noteq> None"
  by (auto simp: confidenceEnum_def)

end
