(* ===== verification/Controller.thy ===== *)
theory Controller
  imports Decision Config Manager Metrics
begin

text \<open>
  \<^verbatim>\<open>internal/controller/agenticautoscaler_controller.go\<close>: the reconciler. The controller's memory is
  one record (the decision store, the classifier manager if there is one, the explanation channel,
  the metrics and the trace of effects); one \<open>Reconcile\<close> is a function of that memory and of the
  answers its calls get (\<open>reconcile_env\<close>: the API server, Prometheus, the Forecast Service, and the
  clock at each of its readings). The state of a resource is shared by pointer in the code, so
  every mutation is written back to the store where the code makes it, also on the paths that
  return early. A Go panic is the outcome \<open>Panic\<close>.

  \<open>Reconcile\<close> is cut into stages at the numbered steps of the code: admission of the object and
  its pre-checks, observation (\<open>reconcile_observe\<close>), calibration (\<open>reconcile_calibrate\<close>), decision
  (\<open>reconcile_decide\<close>) and application (\<open>reconcile_apply\<close>, \<open>reconcile_finish\<close>).
\<close>

definition ringBufferCapacity :: nat where "ringBufferCapacity = 10"

definition AnnotationSkipContext :: string where
  "AnnotationSkipContext = ''autoscaling.agentic.io/skip-context''"

record reconcile_env =
  re_Get :: "namespaced_name \<Rightarrow> api_error + aas"
  re_ListHPA :: "string \<Rightarrow> api_error + hpa list"
  re_InstantQuery :: "string \<Rightarrow> string + float64"
  re_now_history :: time
  re_RangeQuery :: "string \<Rightarrow> time \<Rightarrow> time \<Rightarrow> duration \<Rightarrow> string + prom_sample list"
  re_now_context :: time
  re_Recommend :: "recommend_request \<Rightarrow> string + recommend_response"
  re_GetDeployment :: "namespaced_name \<Rightarrow> api_error + deployment"
  re_now :: time
  re_ScaleUpdate :: "deployment \<Rightarrow> int32 \<Rightarrow> api_error option"
  re_StatusUpdate :: "aas \<Rightarrow> api_error option"

record controller =
  ct_StateStore :: state_store
  ct_Classifier :: "manager option"
  ct_explainCh :: "explain_request channel"
  ct_metrics :: metrics
  ct_trace :: "effect list"

text \<open>\<^verbatim>\<open>ctrl.Result{RequeueAfter: d}, err\<close>, with \<^verbatim>\<open>d = 0\<close> for the empty result.\<close>

datatype outcome = Return duration "api_error option" | Panic

abbreviation requeue :: "config \<Rightarrow> outcome" where
  "requeue cfg \<equiv> Return (cfg_ReconcileInterval cfg) None"

definition emit :: "effect \<Rightarrow> controller \<Rightarrow> controller" where
  "emit e c = c\<lparr>ct_trace := ct_trace c @ [e]\<rparr>"

section \<open>Helpers\<close>

definition derefOr :: "int32 option \<Rightarrow> int32 \<Rightarrow> int32" where
  "derefOr p def = (case p of None \<Rightarrow> def | Some v \<Rightarrow> v)"

definition laterOf :: "time \<Rightarrow> time \<Rightarrow> time" where
  "laterOf a b = (if After a b then a else b)"

definition classifiedPattern :: "aas \<Rightarrow> string" where
  "classifiedPattern a = (case st_ClassifiedParams (aas_Status a) of None \<Rightarrow> '''' | Some cp \<Rightarrow> cp_Pattern cp)"

definition classifiedConfidence :: "aas \<Rightarrow> string" where
  "classifiedConfidence a = (case st_ClassifiedParams (aas_Status a) of None \<Rightarrow> '''' | Some cp \<Rightarrow> cp_Confidence cp)"

definition classifiedContext :: "aas \<Rightarrow> context_fields option" where
  "classifiedContext a = Option.bind (st_ClassifiedParams (aas_Status a)) cp_Context"

definition classifiedBaselineRPS :: "aas \<Rightarrow> int32" where
  "classifiedBaselineRPS a = (case classifiedContext a of None \<Rightarrow> 0 | Some c \<Rightarrow> cf_BaselineRPS c)"

definition classifiedPeakP95RPS :: "aas \<Rightarrow> int32" where
  "classifiedPeakP95RPS a = (case classifiedContext a of None \<Rightarrow> 0 | Some c \<Rightarrow> cf_PeakP95RPS c)"

definition classifiedHourlyProfileValid :: "aas \<Rightarrow> bool" where
  "classifiedHourlyProfileValid a = (case classifiedContext a of None \<Rightarrow> False | Some c \<Rightarrow> cf_HourlyProfileValid c)"

definition durationSecondsAsInt32 :: "duration \<Rightarrow> int32" where
  "durationSecondsAsInt32 d =
     (let v = trunc_div (sint d) ns_Second in
      if v > MaxInt32 then i32 MaxInt32 else if v < MinInt32 then i32 MinInt32 else i32 v)"

definition buildParamSources :: "config \<Rightarrow> aas \<Rightarrow> param_sources" where
  "buildParamSources cfg a = \<lparr>
     src_Spec = \<lparr>sp_ScaleUpCooldown = spec_ScaleUpCooldownSeconds (aas_Spec a),
       sp_ScaleDownCooldown = spec_ScaleDownCooldownSeconds (aas_Spec a),
       sp_MaxStepSize = spec_MaxStepSize (aas_Spec a),
       sp_PreferredForecaster = spec_PreferredForecaster (aas_Spec a)\<rparr>,
     src_Classified = map_option (\<lambda>cp. \<lparr>dcp_ScaleUpCooldown = cp_ScaleUpCooldownSeconds cp,
         dcp_ScaleDownCooldown = cp_ScaleDownCooldownSeconds cp, dcp_MaxStepSize = cp_MaxStepSize cp,
         dcp_PreferredForecaster = cp_PreferredForecaster cp\<rparr>) (st_ClassifiedParams (aas_Status a)),
     src_Defaults = \<lparr>dp_ScaleUpCooldown = durationSecondsAsInt32 (cfg_DefaultScaleUpCooldown cfg),
       dp_ScaleDownCooldown = durationSecondsAsInt32 (cfg_DefaultScaleDownCooldown cfg),
       dp_MaxStepSize = cfg_DefaultMaxStepSize cfg\<rparr>\<rparr>"

definition buildForecastContext :: "time \<Rightarrow> aas \<Rightarrow> context_payload option" where
  "buildForecastContext now a =
     (if annotation (aas_Annotations a) AnnotationSkipContext = ''true'' then None
      else case classifiedContext a of
        None \<Rightarrow> None
      | Some c \<Rightarrow> Some \<lparr>cpl_BaselineRPS = cf_BaselineRPS c, cpl_PeakP95RPS = cf_PeakP95RPS c,
          cpl_Trend24hSlope = cf_Trend24hSlope c, cpl_HourlyProfile = cf_HourlyProfile c,
          cpl_HourlyProfileValid = cf_HourlyProfileValid c,
          cpl_CurrentHourUTC = i32 (Hour_UTC now), cpl_CurrentMinuteUTC = i32 (Minute_UTC now)\<rparr>)"

definition buildStatusSeed :: "aas \<Rightarrow> status_seed" where
  "buildStatusSeed a =
     (let mn = derefOr (spec_RpsPerPodMin (aas_Spec a)) 50;
          mx = derefOr (spec_RpsPerPodMax (aas_Spec a)) 500;
          current = float_of_i32 (st_RpsPerPodCurrent (aas_Status a));
          inBounds = (fle (float_of_i32 mn) current \<and> fle current (float_of_i32 mx))
      in \<lparr>seed_RpsPerPodCurrent = current, seed_InBounds = inBounds,
          seed_Midpoint = fdiv (float_of_i32 (mn + mx)) (Fin 2),
          seed_LastScaleTime = (case st_LastScaleTime (aas_Status a) of None \<Rightarrow> zero_time | Some t \<Rightarrow> t)\<rparr>)"

section \<open>Pre-checks\<close>

definition handleKillSwitch :: "config \<Rightarrow> reconcile_env \<Rightarrow> aas \<Rightarrow> controller \<Rightarrow> outcome \<times> controller" where
  "handleKillSwitch cfg env a c =
     (if st_Phase (aas_Status a) \<noteq> PhaseDisabled then
        let a = a\<lparr>aas_Status := (aas_Status a)\<lparr>st_Phase := PhaseDisabled\<rparr>\<rparr>;
            err = re_StatusUpdate env a;
            c = emit (EffStatusUpdate a err) c
        in if err \<noteq> None then (Return 0 err, c)
           else (requeue cfg, emit (EffEvent (aas_key a) Warning (PascalReason KillSwitched)
                   (KillSwitched @ '': kill-switch annotation present; controller paused'')) c)
      else (requeue cfg, c))"

fun find_hpa :: "aas \<Rightarrow> hpa list \<Rightarrow> string option" where
  "find_hpa a [] = None"
| "find_hpa a (h # hs) =
     (if hpa_TargetKind h = ref_Kind (spec_TargetRef (aas_Spec a)) \<and>
         hpa_TargetName h = ref_Name (spec_TargetRef (aas_Spec a))
      then Some (hpa_Name h) else find_hpa a hs)"

definition findConflictingHPA :: "reconcile_env \<Rightarrow> aas \<Rightarrow> api_error + string option" where
  "findConflictingHPA env a =
     (case re_ListHPA env (aas_Namespace a) of
        Inl e \<Rightarrow> Inl e
      | Inr items \<Rightarrow> Inr (find_hpa a items))"

definition handleConflict :: "config \<Rightarrow> reconcile_env \<Rightarrow> aas \<Rightarrow> string \<Rightarrow> controller \<Rightarrow> outcome \<times> controller" where
  "handleConflict cfg env a hpaName c =
     (let reason = ''HPA '' @ quote hpaName @ '' already manages this Deployment'' in
      if st_Phase (aas_Status a) \<noteq> PhaseConflict \<or> st_ConflictReason (aas_Status a) \<noteq> reason then
        let a = a\<lparr>aas_Status := (aas_Status a)\<lparr>st_Phase := PhaseConflict, st_ConflictReason := reason\<rparr>\<rparr>;
            err = re_StatusUpdate env a;
            c = emit (EffStatusUpdate a err) c
        in if err \<noteq> None then (Return 0 err, c)
           else (requeue cfg, emit (EffEvent (aas_key a) Warning (PascalReason ConflictDetected)
                   (ConflictDetected @ '': '' @ reason)) c)
      else (requeue cfg, c))"


section \<open>The hot path\<close>

text \<open>What the stages hand on: the object, the observed load, the forecast, the effective
  parameters and the target deployment, then the calibrated capacity and the decision.\<close>

record observed =
  ob_aas :: aas
  ob_key :: namespaced_name
  ob_currentRPS :: float64
  ob_forecast :: recommend_response
  ob_effective :: effective_params
  ob_deploy :: deployment
  ob_currentReplicas :: int32

record decided = observed +
  de_state :: per_cr_state
  de_rpsPerPod :: float64
  de_minReplicas :: int32
  de_maxReplicas :: int32
  de_unbounded :: int32
  de_recommended :: int32
  de_cap :: cap_output

text \<open>The three paths on which Prometheus data is missing share their reaction.\<close>

definition metrics_unavailable :: "config \<Rightarrow> aas \<Rightarrow> string \<Rightarrow> controller \<Rightarrow> outcome \<times> controller" where
  "metrics_unavailable cfg a msg c =
     (requeue cfg,
      (emit (EffEvent (aas_key a) Warning (PascalReason MetricsUnavailable) (MetricsUnavailable @ '': '' @ msg)) c)
        \<lparr>ct_metrics := observeMetricsUnavailable (ct_metrics c) (aas_Namespace a) (aas_Name a)\<rparr>)"

text \<open>Step 9 on: the Event, the metrics, the explanation request and the status update.\<close>

definition event_message :: "decided \<Rightarrow> string" where
  "event_message d =
     co_Reason (de_cap d) @ '' current_rps='' @ fmt_1f (ob_currentRPS d)
     @ '' predicted_rps='' @ fmt_1f (rs_PredictedRPS (ob_forecast d))
     @ '' current='' @ itoa32 (ob_currentReplicas d) @ '' target='' @ itoa32 (co_Target (de_cap d))
     @ (if de_unbounded d \<noteq> de_recommended d
        then '' recommended='' @ itoa32 (de_recommended d) @ '' unboundedRecommended='' @ itoa32 (de_unbounded d)
        else '''')
     @ '' model='' @ rs_ModelUsed (ob_forecast d)"

definition explain_of :: "decided \<Rightarrow> explain_request" where
  "explain_of d =
     (let a = ob_aas d in
      \<lparr>er_Namespace = aas_Namespace a, er_Name = aas_Name a, er_Reason = co_Reason (de_cap d),
       er_CurrentReplicas = ob_currentReplicas d, er_RecommendedReplicas = de_recommended d,
       er_TargetReplicas = co_Target (de_cap d), er_CurrentRPS = ob_currentRPS d,
       er_PredictedRPS = rs_PredictedRPS (ob_forecast d), er_HorizonMinutes = rs_HorizonMinutes (ob_forecast d),
       er_ModelUsed = rs_ModelUsed (ob_forecast d), er_Pattern = classifiedPattern a,
       er_Confidence = classifiedConfidence a, er_EffectiveCooldownUp = ep_CooldownUp (ob_effective d),
       er_EffectiveCooldownDown = ep_CooldownDown (ob_effective d), er_EffectiveMaxStep = ep_MaxStep (ob_effective d),
       er_UnboundedRecommended = de_unbounded d, er_MaxReplicas = de_maxReplicas d, er_MinReplicas = de_minReplicas d,
       er_BaselineRPS = classifiedBaselineRPS a, er_PeakP95RPS = classifiedPeakP95RPS a,
       er_HourlyProfileValid = classifiedHourlyProfileValid a\<rparr>)"

definition final_status :: "go_platform \<Rightarrow> reconcile_env \<Rightarrow> decided \<Rightarrow> aas_status" where
  "final_status pf env d =
     (aas_Status (ob_aas d))\<lparr>st_Phase := PhaseReady, st_ConflictReason := '''',
        st_CurrentReplicas := co_Target (de_cap d), st_RecommendedReplicas := de_recommended d,
        st_UnboundedRecommended := de_unbounded d,
        st_PredictedRPS := i32_of_float pf (rs_PredictedRPS (ob_forecast d)),
        st_RpsPerPodCurrent := i32_of_float pf (de_rpsPerPod d),
        st_LastScaleTime := (if co_ShouldPatch (de_cap d) then Some (re_now env)
          else st_LastScaleTime (aas_Status (ob_aas d)))\<rparr>"

definition reconcile_finish ::
    "go_platform \<Rightarrow> config \<Rightarrow> reconcile_env \<Rightarrow> decided \<Rightarrow> controller \<Rightarrow> outcome \<times> controller" where
  "reconcile_finish pf cfg env d c =
     (let a = ob_aas d;
          c = emit (EffEvent (aas_key a) Normal (PascalReason (co_Reason (de_cap d))) (event_message d)) c;
          m = observeReconcile (ct_metrics c) (aas_Namespace a) (aas_Name a) (co_Reason (de_cap d))
                (ob_currentRPS d) (rs_PredictedRPS (ob_forecast d)) (de_rpsPerPod d);
          m = observeClassification m (aas_Namespace a) (aas_Name a) (classifiedPattern a) (classifiedConfidence a);
          c = c\<lparr>ct_metrics := m\<rparr>;
          c = (if co_ShouldPatch (de_cap d)
               then (emit (EffNotify (explain_of d)) c)\<lparr>ct_explainCh := Notify (ct_explainCh c) (explain_of d)\<rparr>
               else c);
          a = a\<lparr>aas_Status := final_status pf env d\<rparr>;
          err = re_StatusUpdate env a;
          c = emit (EffStatusUpdate a err) c
      in if err \<noteq> None then (Return 0 err, c) else (requeue cfg, c))"

definition reconcile_apply ::
    "go_platform \<Rightarrow> config \<Rightarrow> reconcile_env \<Rightarrow> decided \<Rightarrow> controller \<Rightarrow> outcome \<times> controller" where
  "reconcile_apply pf cfg env d c =
     (if co_ShouldPatch (de_cap d) then
        let target = co_Target (de_cap d);
            err = re_ScaleUpdate env (ob_deploy d) target;
            c = emit (EffScale \<lparr>nn_Namespace = dp_Namespace (ob_deploy d), nn_Name = dp_Name (ob_deploy d)\<rparr> target err) c
        in if err \<noteq> None then (requeue cfg, c)
           else let state = (if ob_currentReplicas d <s target
                             then (de_state d)\<lparr>ps_LastScaleUpTime := re_now env\<rparr>
                             else (de_state d)\<lparr>ps_LastScaleDownTime := re_now env\<rparr>)
                in reconcile_finish pf cfg env d (c\<lparr>ct_StateStore := store_put (ct_StateStore c) (ob_key d) state\<rparr>)
      else reconcile_finish pf cfg env d c)"

text \<open>Steps 5 to 8: capacity, raw and clamped recommendation, step cap and cooldown.\<close>

definition reconcile_decide ::
    "go_platform \<Rightarrow> config \<Rightarrow> reconcile_env \<Rightarrow> observed \<Rightarrow> per_cr_state \<Rightarrow> decided" where
  "reconcile_decide pf cfg env ob state =
     (let a = ob_aas ob;
          rpsPerPodMin = derefOr (spec_RpsPerPodMin (aas_Spec a)) 50;
          rpsPerPodMax = derefOr (spec_RpsPerPodMax (aas_Spec a)) 500;
          rpsPerPod = ClampRpsPerPod (ps_RpsPerPod state) rpsPerPodMin rpsPerPodMax;
          minReplicas = derefOr (spec_MinReplicas (aas_Spec a)) 2;
          maxReplicas = derefOr (spec_MaxReplicas (aas_Spec a)) 10;
          unbounded = ComputeUnboundedRecommended pf (rs_PredictedRPS (ob_forecast ob)) rpsPerPod;
          (recommended, bindingReason) = ClampRecommended unbounded minReplicas maxReplicas;
          capOut = ApplyCapAndCooldown \<lparr>ci_Recommended = recommended, ci_Current = ob_currentReplicas ob,
                     ci_MaxStep = ep_MaxStep (ob_effective ob), ci_CooldownUp = ep_CooldownUp (ob_effective ob),
                     ci_CooldownDown = ep_CooldownDown (ob_effective ob),
                     ci_LastScaleUp = ps_LastScaleUpTime state, ci_LastScaleDown = ps_LastScaleDownTime state,
                     ci_Now = re_now env, ci_BindingReason = bindingReason\<rparr>
      in observed.extend ob (decided.fields state rpsPerPod minReplicas maxReplicas unbounded recommended capOut))"

text \<open>Step 5: the state of the resource and its observation window. Pushing into a buffer of
  capacity zero is the one place that could panic.\<close>

definition calibrate ::
    "config \<Rightarrow> reconcile_env \<Rightarrow> observed \<Rightarrow> per_cr_state \<Rightarrow> per_cr_state option" where
  "calibrate cfg env ob state =
     (let lastScale = laterOf (ps_LastScaleUpTime state) (ps_LastScaleDownTime state) in
      if ShouldUpdateRpsPerPodWithFloor (ob_currentRPS ob) (ob_currentReplicas ob) lastScale (re_now env)
           (cfg_ReconcileInterval cfg) (float_of_i32 (cfg_RpsPerPodNoiseFloorRPS cfg))
      then case Push (ps_Observations state) (fdiv (ob_currentRPS ob) (float_of_i32 (ob_currentReplicas ob))) of
             None \<Rightarrow> None
           | Some rb \<Rightarrow> Some (state\<lparr>ps_Observations := rb, ps_RpsPerPod := Median rb\<rparr>)
      else Some state)"

definition reconcile_calibrate ::
    "go_platform \<Rightarrow> config \<Rightarrow> reconcile_env \<Rightarrow> observed \<Rightarrow> controller \<Rightarrow> outcome \<times> controller" where
  "reconcile_calibrate pf cfg env ob c =
     (let (state, store) = GetOrCreate (ct_StateStore c) (ob_key ob) ringBufferCapacity;
          state = (if \<not> ps_Initialized state then InitializeFromStatus state (buildStatusSeed (ob_aas ob)) else state);
          c = c\<lparr>ct_StateStore := store_put store (ob_key ob) state\<rparr>
      in case calibrate cfg env ob state of
           None \<Rightarrow> (Panic, c)
         | Some state \<Rightarrow>
             reconcile_apply pf cfg env (reconcile_decide pf cfg env ob state)
               (c\<lparr>ct_StateStore := store_put (ct_StateStore c) (ob_key ob) state\<rparr>))"

text \<open>Steps 2 to 4: the two Prometheus queries, the forecast, the target deployment.\<close>

definition recommend_request_of ::
    "config \<Rightarrow> reconcile_env \<Rightarrow> namespaced_name \<Rightarrow> aas \<Rightarrow> prom_sample list \<Rightarrow> recommend_request" where
  "recommend_request_of cfg env key a samples =
     (let effective = ResolveEffectiveParams (buildParamSources cfg a);
          preferredModel = (if ep_Forecaster effective = ''auto'' then '''' else ep_Forecaster effective)
      in \<lparr>rq_RpsHistory = map smp_Value samples, rq_WorkloadID = nn_String key,
          rq_PreferredModel = preferredModel, rq_Context = buildForecastContext (re_now_context env) a\<rparr>)"

definition reconcile_target ::
    "go_platform \<Rightarrow> config \<Rightarrow> reconcile_env \<Rightarrow> namespaced_name \<Rightarrow> aas \<Rightarrow> float64 \<Rightarrow> recommend_response
      \<Rightarrow> controller \<Rightarrow> outcome \<times> controller" where
  "reconcile_target pf cfg env key a currentRPS forecastResp c =
     (case re_GetDeployment env \<lparr>nn_Namespace = aas_Namespace a, nn_Name = ref_Name (spec_TargetRef (aas_Spec a))\<rparr> of
        Inl _ \<Rightarrow> (requeue cfg, c)
      | Inr deploy \<Rightarrow>
          let c = c\<lparr>ct_Classifier := map_option (\<lambda>m. snd (ObserveDeploymentRevision m key
                    (annotation (dp_Annotations deploy) ''deployment.kubernetes.io/revision''))) (ct_Classifier c)\<rparr>
          in reconcile_calibrate pf cfg env
               \<lparr>ob_aas = a, ob_key = key, ob_currentRPS = currentRPS, ob_forecast = forecastResp,
                ob_effective = ResolveEffectiveParams (buildParamSources cfg a), ob_deploy = deploy,
                ob_currentReplicas = derefOr (dp_Replicas deploy) 1\<rparr> c)"

definition reconcile_observe ::
    "go_platform \<Rightarrow> config \<Rightarrow> reconcile_env \<Rightarrow> namespaced_name \<Rightarrow> aas \<Rightarrow> controller \<Rightarrow> outcome \<times> controller" where
  "reconcile_observe pf cfg env key a c =
     (let deployName = ref_Name (spec_TargetRef (aas_Spec a));
          c = emit (EffInstantQuery (InstantRPS deployName)) c
      in case re_InstantQuery env (InstantRPS deployName) of
        Inl e \<Rightarrow> metrics_unavailable cfg a e c
      | Inr currentRPS \<Rightarrow>
          let historyEnd = re_now_history env;
              historyStart = Add historyEnd (- cfg_HotPathHistory cfg);
              c = emit (EffRangeQuery (RangeRPS deployName) historyStart historyEnd Minute) c
          in case re_RangeQuery env (RangeRPS deployName) historyStart historyEnd Minute of
               Inl e \<Rightarrow> metrics_unavailable cfg a e c
             | Inr samples \<Rightarrow>
                 if int (length samples) < sint (cfg_HotPathMinPoints cfg)
                 then metrics_unavailable cfg a (''only '' @ itoa (int (length samples))
                        @ '' range samples (need '' @ itoa32 (cfg_HotPathMinPoints cfg) @ '')'') c
                 else let req = recommend_request_of cfg env key a samples;
                          c = emit (EffRecommend req) c
                      in case re_Recommend env req of
                           Inl e \<Rightarrow>
                             (requeue cfg,
                              (emit (EffEvent (aas_key a) Warning (PascalReason ForecastUnavailable)
                                 (ForecastUnavailable @ '': '' @ e)) c)
                               \<lparr>ct_metrics := observeForecastFailure (ct_metrics c) (aas_Namespace a) (aas_Name a)\<rparr>)
                         | Inr forecastResp \<Rightarrow> reconcile_target pf cfg env key a currentRPS forecastResp c)"

text \<open>\<^verbatim>\<open>!aas.DeletionTimestamp.IsZero()\<close>, which is false on a nil timestamp.\<close>

definition being_deleted :: "aas \<Rightarrow> bool" where
  "being_deleted a \<longleftrightarrow> (case aas_DeletionTimestamp a of None \<Rightarrow> False | Some t \<Rightarrow> \<not> IsZero t)"

definition Reconcile ::
    "go_platform \<Rightarrow> config \<Rightarrow> reconcile_env \<Rightarrow> namespaced_name \<Rightarrow> controller \<Rightarrow> outcome \<times> controller" where
  "Reconcile pf cfg env key c =
     (case re_Get env key of
        Inl err \<Rightarrow>
          (Return 0 (IgnoreNotFound err),
           if IgnoreNotFound err = None
           then c\<lparr>ct_StateStore := store_Delete (ct_StateStore c) key,
                  ct_Classifier := map_option (\<lambda>m. Stop m key) (ct_Classifier c)\<rparr>
           else c)
      | Inr a \<Rightarrow>
          let c = c\<lparr>ct_Classifier := map_option (\<lambda>m.
                    let m = Ensure m a
                    in if annotation (aas_Annotations a) AnnotationReclassify = ''true''
                       then SignalReclassify m key else m) (ct_Classifier c)\<rparr>
          in if annotation (aas_Annotations a) AnnotationKillSwitch = ''true'' then handleKillSwitch cfg env a c
             else if being_deleted a then (Return 0 None, c)
             else case findConflictingHPA env a of
                    Inl e \<Rightarrow> (Return 0 (Some e), c)
                  | Inr (Some hpaName) \<Rightarrow> handleConflict cfg env a hpaName c
                  | Inr None \<Rightarrow> reconcile_observe pf cfg env key a c)"

end
