(* ===== verification/ControllerProps.thy ===== *)
theory ControllerProps
  imports Controller
begin

text \<open>
  Properties of the reconciler. \<open>Reconcile_shape\<close> splits a reconcile into one that stays away
  from the scale subresource and one that reaches the calibrated hot path; the stages after that
  have exact traces. On these rest: a paused or conflicting resource is never scaled; a replica
  patch is bounded by the step and the replica range; outages requeue without an error; the hot path never
  writes the classifier's part of the status; the store's invariant rules out the panic of the
  ring buffer; and a scale holds the cooldown across reconciles and restarts.
\<close>

section \<open>Traces\<close>

text \<open>An effect that neither scales nor asks for an explanation.\<close>

fun quiet :: "effect \<Rightarrow> bool" where
  "quiet (EffScale _ _ _) = False" | "quiet (EffNotify _) = False" | "quiet _ = True"

fun is_status :: "effect \<Rightarrow> bool" where
  "is_status (EffStatusUpdate _ _) = True" | "is_status _ = False"

lemma emit_simps [simp]:
  "ct_trace (emit e c) = ct_trace c @ [e]" "ct_StateStore (emit e c) = ct_StateStore c"
  "ct_Classifier (emit e c) = ct_Classifier c" "ct_explainCh (emit e c) = ct_explainCh c"
  "ct_metrics (emit e c) = ct_metrics c"
  by (simp_all add: emit_def)

definition finish_effects :: "go_platform \<Rightarrow> reconcile_env \<Rightarrow> decided \<Rightarrow> effect list" where
  "finish_effects pf env d =
     (let a = (ob_aas d)\<lparr>aas_Status := final_status pf env d\<rparr> in
      EffEvent (aas_key (ob_aas d)) Normal (PascalReason (co_Reason (de_cap d))) (event_message d)
      # (if co_ShouldPatch (de_cap d) then [EffNotify (explain_of d)] else [])
      @ [EffStatusUpdate a (re_StatusUpdate env a)])"

lemma reconcile_finish_trace:
  "ct_trace (snd (reconcile_finish pf cfg env d c)) = ct_trace c @ finish_effects pf env d"
  "ct_StateStore (snd (reconcile_finish pf cfg env d c)) = ct_StateStore c"
  "ct_Classifier (snd (reconcile_finish pf cfg env d c)) = ct_Classifier c"
  by (simp_all add: reconcile_finish_def finish_effects_def Let_def)

lemma reconcile_finish_outcome:
  "fst (reconcile_finish pf cfg env d c) =
     (case re_StatusUpdate env ((ob_aas d)\<lparr>aas_Status := final_status pf env d\<rparr>) of
        None \<Rightarrow> requeue cfg | Some e \<Rightarrow> Return 0 (Some e))"
  by (simp add: reconcile_finish_def Let_def split: option.splits)

definition scale_effect :: "reconcile_env \<Rightarrow> decided \<Rightarrow> effect" where
  "scale_effect env d = EffScale \<lparr>nn_Namespace = dp_Namespace (ob_deploy d), nn_Name = dp_Name (ob_deploy d)\<rparr>
     (co_Target (de_cap d)) (re_ScaleUpdate env (ob_deploy d) (co_Target (de_cap d)))"

definition apply_effects :: "go_platform \<Rightarrow> reconcile_env \<Rightarrow> decided \<Rightarrow> effect list" where
  "apply_effects pf env d =
     (if co_ShouldPatch (de_cap d) then
        (if re_ScaleUpdate env (ob_deploy d) (co_Target (de_cap d)) = None
         then scale_effect env d # finish_effects pf env d else [scale_effect env d])
      else finish_effects pf env d)"

lemma reconcile_apply_trace:
  "ct_trace (snd (reconcile_apply pf cfg env d c)) = ct_trace c @ apply_effects pf env d"
  by (simp add: reconcile_apply_def apply_effects_def scale_effect_def Let_def reconcile_finish_trace)

text \<open>The state the store holds for the resource after the application stage.\<close>

definition applied_state :: "reconcile_env \<Rightarrow> decided \<Rightarrow> per_cr_state" where
  "applied_state env d =
     (if co_ShouldPatch (de_cap d) \<and> re_ScaleUpdate env (ob_deploy d) (co_Target (de_cap d)) = None
      then if ob_currentReplicas d <s co_Target (de_cap d) then (de_state d)\<lparr>ps_LastScaleUpTime := re_now env\<rparr>
           else (de_state d)\<lparr>ps_LastScaleDownTime := re_now env\<rparr>
      else de_state d)"

lemma reconcile_apply_store:
  assumes "ct_StateStore c (ob_key d) = Some (de_state d)"
  shows "ct_StateStore (snd (reconcile_apply pf cfg env d c)) =
    (ct_StateStore c)(ob_key d \<mapsto> applied_state env d)"
  using assms
  by (auto simp: reconcile_apply_def applied_state_def Let_def reconcile_finish_trace store_put_def)

lemma reconcile_apply_outcome:
  "fst (reconcile_apply pf cfg env d c) \<in> {requeue cfg} \<union>
     {Return 0 (Some e) | e a. re_StatusUpdate env a = Some e}"
  by (auto simp: reconcile_apply_def Let_def reconcile_finish_outcome split: option.splits)

lemma reconcile_decide_simps [simp]:
  "ob_aas (reconcile_decide pf cfg env ob st) = ob_aas ob"
  "ob_key (reconcile_decide pf cfg env ob st) = ob_key ob"
  "ob_deploy (reconcile_decide pf cfg env ob st) = ob_deploy ob"
  "ob_currentReplicas (reconcile_decide pf cfg env ob st) = ob_currentReplicas ob"
  "ob_effective (reconcile_decide pf cfg env ob st) = ob_effective ob"
  "de_state (reconcile_decide pf cfg env ob st) = st"
  by (simp_all add: reconcile_decide_def Let_def observed.extend_def decided.fields_def split: prod.splits)

text \<open>The state a reconcile starts from: the stored one, or one recovered from the status.\<close>

definition start_state :: "observed \<Rightarrow> state_store \<Rightarrow> per_cr_state" where
  "start_state ob s =
     (let st = (case s (ob_key ob) of Some st \<Rightarrow> st | None \<Rightarrow> fresh_state ringBufferCapacity)
      in if ps_Initialized st then st else InitializeFromStatus st (buildStatusSeed (ob_aas ob)))"

lemma reconcile_calibrate_eq:
  "reconcile_calibrate pf cfg env ob c =
     (let st = start_state ob (ct_StateStore c);
          s = (ct_StateStore c)(ob_key ob \<mapsto> st)
      in case calibrate cfg env ob st of
           None \<Rightarrow> (Panic, c\<lparr>ct_StateStore := s\<rparr>)
         | Some st' \<Rightarrow> reconcile_apply pf cfg env (reconcile_decide pf cfg env ob st')
             (c\<lparr>ct_StateStore := s(ob_key ob \<mapsto> st')\<rparr>))"
  by (auto simp: reconcile_calibrate_def start_state_def GetOrCreate_def store_put_def Let_def
      split: option.splits prod.splits)

section \<open>The shape of a reconcile\<close>

text \<open>A controller that has only queried and emitted events since: same store, same explanation
  channel, and a longer trace without scale, explanation or status effects.\<close>

definition quiet_ext :: "controller \<Rightarrow> controller \<Rightarrow> bool" where
  "quiet_ext c c1 \<longleftrightarrow> ct_StateStore c1 = ct_StateStore c \<and> ct_explainCh c1 = ct_explainCh c \<and>
     (\<exists>effs. ct_trace c1 = ct_trace c @ effs \<and> list_all (\<lambda>e. quiet e \<and> \<not> is_status e) effs)"

lemma quiet_ext_refl [simp]: "quiet_ext c c"
  by (simp add: quiet_ext_def)

lemma quiet_ext_emit [simp]:
  "quiet_ext c c1 \<Longrightarrow> quiet e \<Longrightarrow> \<not> is_status e \<Longrightarrow> quiet_ext c (emit e c1)"
  by (auto simp: quiet_ext_def)

lemma quiet_ext_updates [simp]:
  "quiet_ext c (c1\<lparr>ct_Classifier := m\<rparr>) = quiet_ext c c1" "quiet_ext c (c1\<lparr>ct_metrics := x\<rparr>) = quiet_ext c c1"
  by (simp_all add: quiet_ext_def)

text \<open>The reconcile stays away from the scale subresource; of the decision store it removes at most
  the entry of its own resource.\<close>

definition stays_out :: "namespaced_name \<Rightarrow> controller \<Rightarrow> outcome \<times> controller \<Rightarrow> bool" where
  "stays_out key c r \<longleftrightarrow>
     fst r \<noteq> Panic \<and>
     ct_StateStore (snd r) \<in> {ct_StateStore c, store_Delete (ct_StateStore c) key} \<and>
     ct_explainCh (snd r) = ct_explainCh c \<and>
     (\<exists>effs. ct_trace (snd r) = ct_trace c @ effs \<and> list_all quiet effs)"

lemma quiet_list: "list_all (\<lambda>e. quiet e \<and> \<not> is_status e) effs \<Longrightarrow> list_all quiet effs"
  by (auto simp: list_all_iff)

lemma stays_outI: "quiet_ext c c1 \<Longrightarrow> out \<noteq> Panic \<Longrightarrow> stays_out key c (out, c1)"
  unfolding quiet_ext_def stays_out_def using quiet_list by auto

lemma stays_out_status:
  "quiet_ext c c1 \<Longrightarrow> out \<noteq> Panic \<Longrightarrow> stays_out key c (out, emit (EffStatusUpdate a err) c1)"
  "quiet_ext c c1 \<Longrightarrow> out \<noteq> Panic \<Longrightarrow>
     stays_out key c (out, emit (EffEvent k t r m) (emit (EffStatusUpdate a err) c1))"
  unfolding quiet_ext_def stays_out_def using quiet_list by auto

text \<open>What the hot path has observed when it is entered for the object \<open>a\<close>.\<close>

definition observation :: "config \<Rightarrow> reconcile_env \<Rightarrow> namespaced_name \<Rightarrow> aas \<Rightarrow> observed \<Rightarrow> bool" where
  "observation cfg env key a ob \<longleftrightarrow>
     ob_aas ob = a \<and> ob_key ob = key \<and>
     re_InstantQuery env (InstantRPS (ref_Name (spec_TargetRef (aas_Spec a)))) = Inr (ob_currentRPS ob) \<and>
     ob_effective ob = ResolveEffectiveParams (buildParamSources cfg a) \<and>
     re_GetDeployment env \<lparr>nn_Namespace = aas_Namespace a, nn_Name = ref_Name (spec_TargetRef (aas_Spec a))\<rparr>
       = Inr (ob_deploy ob) \<and>
     ob_currentReplicas ob = derefOr (dp_Replicas (ob_deploy ob)) 1"

definition hot_call ::
    "go_platform \<Rightarrow> config \<Rightarrow> reconcile_env \<Rightarrow> namespaced_name \<Rightarrow> aas \<Rightarrow> controller \<Rightarrow> outcome \<times> controller \<Rightarrow> bool" where
  "hot_call pf cfg env key a c r \<longleftrightarrow>
     (\<exists>ob c1. observation cfg env key a ob \<and> quiet_ext c c1 \<and> r = reconcile_calibrate pf cfg env ob c1)"

text \<open>A stage that gives up requeues at the normal interval, without an error.\<close>

definition gives_up :: "config \<Rightarrow> namespaced_name \<Rightarrow> controller \<Rightarrow> outcome \<times> controller \<Rightarrow> bool" where
  "gives_up cfg key c r \<longleftrightarrow> fst r = requeue cfg \<and> quiet_ext c (snd r)"

lemma target_shape:
  assumes "quiet_ext c c1"
    and "re_InstantQuery env (InstantRPS (ref_Name (spec_TargetRef (aas_Spec a)))) = Inr rps"
  shows "gives_up cfg key c (reconcile_target pf cfg env key a rps resp c1) \<or>
    hot_call pf cfg env key a c (reconcile_target pf cfg env key a rps resp c1)"
proof (cases "re_GetDeployment env \<lparr>nn_Namespace = aas_Namespace a, nn_Name = ref_Name (spec_TargetRef (aas_Spec a))\<rparr>")
  case (Inl e)
  then show ?thesis using assms(1) by (simp add: reconcile_target_def gives_up_def)
next
  case (Inr deploy)
  let ?ob = "\<lparr>ob_aas = a, ob_key = key, ob_currentRPS = rps, ob_forecast = resp,
      ob_effective = ResolveEffectiveParams (buildParamSources cfg a), ob_deploy = deploy,
      ob_currentReplicas = derefOr (dp_Replicas deploy) 1\<rparr>"
  have "observation cfg env key a ?ob" using Inr assms(2) by (simp add: observation_def)
  then show ?thesis
    using Inr assms(1) unfolding hot_call_def reconcile_target_def Let_def
    by (intro disjI2 exI [of _ ?ob] exI conjI) (assumption, rule quiet_ext_updates(1) [THEN iffD2], simp_all)
qed

lemma metrics_unavailable_gives_up: "quiet_ext c c1 \<Longrightarrow> gives_up cfg key c (metrics_unavailable cfg a msg c1)"
  by (simp add: metrics_unavailable_def gives_up_def)

lemma observe_shape:
  assumes "quiet_ext c c1"
  shows "gives_up cfg key c (reconcile_observe pf cfg env key a c1) \<or>
    hot_call pf cfg env key a c (reconcile_observe pf cfg env key a c1)"
  unfolding reconcile_observe_def Let_def
  using assms
  by (auto simp: target_shape metrics_unavailable_gives_up split: sum.splits)
     (simp_all add: gives_up_def)

text \<open>The pre-checks have passed.\<close>

definition not_paused :: "reconcile_env \<Rightarrow> aas \<Rightarrow> bool" where
  "not_paused env a \<longleftrightarrow> annotation (aas_Annotations a) AnnotationKillSwitch \<noteq> ''true'' \<and>
     \<not> being_deleted a \<and> findConflictingHPA env a = Inr None"

lemma Reconcile_Get:
  assumes "re_Get env key = Inr a"
  obtains c0 where "ct_StateStore c0 = ct_StateStore c" and "ct_explainCh c0 = ct_explainCh c"
    and "ct_trace c0 = ct_trace c" and
    "Reconcile pf cfg env key c =
      (if annotation (aas_Annotations a) AnnotationKillSwitch = ''true'' then handleKillSwitch cfg env a c0
       else if being_deleted a then (Return 0 None, c0)
       else case findConflictingHPA env a of
              Inl e \<Rightarrow> (Return 0 (Some e), c0)
            | Inr (Some hpaName) \<Rightarrow> handleConflict cfg env a hpaName c0
            | Inr None \<Rightarrow> reconcile_observe pf cfg env key a c0)"
proof -
  let ?c0 = "c\<lparr>ct_Classifier := map_option (\<lambda>m.
      let m = Ensure m a
      in if annotation (aas_Annotations a) AnnotationReclassify = ''true''
         then SignalReclassify m key else m) (ct_Classifier c)\<rparr>"
  have "Reconcile pf cfg env key c =
      (if annotation (aas_Annotations a) AnnotationKillSwitch = ''true'' then handleKillSwitch cfg env a ?c0
       else if being_deleted a then (Return 0 None, ?c0)
       else case findConflictingHPA env a of
              Inl e \<Rightarrow> (Return 0 (Some e), ?c0)
            | Inr (Some hpaName) \<Rightarrow> handleConflict cfg env a hpaName ?c0
            | Inr None \<Rightarrow> reconcile_observe pf cfg env key a ?c0)"
    unfolding Reconcile_def Let_def using assms by simp
  then show ?thesis by (rule that [rotated 3]) simp_all
qed

lemma paused_stays_out:
  assumes "quiet_ext c c0"
  shows "stays_out key c (handleKillSwitch cfg env a c0)" "stays_out key c (handleConflict cfg env a n c0)"
  using assms
  by (auto simp: handleKillSwitch_def handleConflict_def Let_def stays_outI stays_out_status)

lemma Reconcile_shape:
  "stays_out key c (Reconcile pf cfg env key c) \<or>
   (\<exists>a. re_Get env key = Inr a \<and> not_paused env a \<and> hot_call pf cfg env key a c (Reconcile pf cfg env key c))"
proof (cases "re_Get env key")
  case (Inl e)
  then show ?thesis by (auto simp: Reconcile_def stays_out_def)
next
  case (Inr a)
  obtain c0 where c0: "ct_StateStore c0 = ct_StateStore c" "ct_explainCh c0 = ct_explainCh c"
    "ct_trace c0 = ct_trace c" and r: "Reconcile pf cfg env key c =
      (if annotation (aas_Annotations a) AnnotationKillSwitch = ''true'' then handleKillSwitch cfg env a c0
       else if being_deleted a then (Return 0 None, c0)
       else case findConflictingHPA env a of
              Inl e \<Rightarrow> (Return 0 (Some e), c0)
            | Inr (Some hpaName) \<Rightarrow> handleConflict cfg env a hpaName c0
            | Inr None \<Rightarrow> reconcile_observe pf cfg env key a c0)"
    using Reconcile_Get [OF Inr] .
  have q: "quiet_ext c c0" using c0 by (simp add: quiet_ext_def)
  have g: "stays_out key c x" if "gives_up cfg key c x" for x
    using that by (cases x) (simp add: gives_up_def stays_outI)
  show ?thesis
    unfolding r not_paused_def
    using Inr q g [of "reconcile_observe pf cfg env key a c0"] observe_shape [OF q, of cfg key pf env a]
    by (auto simp: paused_stays_out stays_outI split: sum.splits option.splits if_splits)
qed


section \<open>The store's invariant\<close>

definition store_wf :: "state_store \<Rightarrow> bool" where
  "store_wf s \<longleftrightarrow> (\<forall>k st. s k = Some st \<longrightarrow> rb_wf (ps_Observations st))"

lemma store_wf_upd: "store_wf s \<Longrightarrow> rb_wf (ps_Observations st) \<Longrightarrow> store_wf (s(k \<mapsto> st))"
  by (simp add: store_wf_def)

lemma InitializeFromStatus_simps [simp]:
  "ps_Initialized (InitializeFromStatus st seed)"
  "rb_wf (ps_Observations st) \<Longrightarrow> rb_wf (ps_Observations (InitializeFromStatus st seed))"
  by (auto simp: InitializeFromStatus_def Let_def rb_wf_def SeedN_data)

lemma start_state_wf: "store_wf s \<Longrightarrow> rb_wf (ps_Observations (start_state ob s))"
  by (auto simp: start_state_def Let_def store_wf_def fresh_state_def ringBufferCapacity_def split: option.splits)

lemma start_state_Initialized [simp]: "ps_Initialized (start_state ob s)"
  by (simp add: start_state_def Let_def)

lemma calibrate_keeps:
  assumes "calibrate cfg env ob st = Some st'"
  shows "ps_LastScaleUpTime st' = ps_LastScaleUpTime st" "ps_LastScaleDownTime st' = ps_LastScaleDownTime st"
    "ps_Initialized st' = ps_Initialized st"
  using assms by (auto simp: calibrate_def Let_def split: if_splits option.splits)

lemma calibrate_wf:
  assumes "rb_wf (ps_Observations st)"
  shows "\<exists>st'. calibrate cfg env ob st = Some st' \<and> rb_wf (ps_Observations st')"
  using Push_wf [OF assms, of "fdiv (ob_currentRPS ob) (float_of_i32 (ob_currentReplicas ob))"] assms
  by (auto simp: calibrate_def Let_def)

lemma applied_state_simps:
  "ps_Observations (applied_state env d) = ps_Observations (de_state d)"
  "ps_Initialized (applied_state env d) = ps_Initialized (de_state d)"
  by (simp_all add: applied_state_def)

text \<open>The hot path, with the store in order: no panic, and everything is determined by the
  calibrated state.\<close>

lemma hot_call_apply:
  assumes "hot_call pf cfg env key a c r" "store_wf (ct_StateStore c)"
  obtains ob st c2 where "observation cfg env key a ob"
    "calibrate cfg env ob (start_state ob (ct_StateStore c)) = Some st" "rb_wf (ps_Observations st)"
    "quiet_ext (c\<lparr>ct_StateStore := (ct_StateStore c)(key \<mapsto> st)\<rparr>) c2"
    "r = reconcile_apply pf cfg env (reconcile_decide pf cfg env ob st) c2"
proof -
  obtain ob c1 where o: "observation cfg env key a ob" and q: "quiet_ext c c1"
    and r: "r = reconcile_calibrate pf cfg env ob c1"
    using assms(1) unfolding hot_call_def by blast
  have k: "ob_key ob = key" and s: "ct_StateStore c1 = ct_StateStore c"
    using o q by (simp_all add: observation_def quiet_ext_def)
  obtain st where st: "calibrate cfg env ob (start_state ob (ct_StateStore c)) = Some st"
    "rb_wf (ps_Observations st)"
    using calibrate_wf [OF start_state_wf [OF assms(2)]] by blast
  let ?c2 = "c1\<lparr>ct_StateStore := (ct_StateStore c)(key \<mapsto> st)\<rparr>"
  have "quiet_ext (c\<lparr>ct_StateStore := (ct_StateStore c)(key \<mapsto> st)\<rparr>) ?c2"
    using q by (auto simp: quiet_ext_def)
  moreover have "r = reconcile_apply pf cfg env (reconcile_decide pf cfg env ob st) ?c2"
    unfolding r reconcile_calibrate_eq Let_def using st(1) k s by simp
  ultimately show ?thesis using that o st by blast
qed

lemma hot_call_store:
  assumes "hot_call pf cfg env key a c r" "store_wf (ct_StateStore c)"
  obtains st where "ct_StateStore (snd r) = (ct_StateStore c)(key \<mapsto> st)" "rb_wf (ps_Observations st)"
    "ps_Initialized st"
proof -
  obtain ob st c2 where h: "observation cfg env key a ob"
    "calibrate cfg env ob (start_state ob (ct_StateStore c)) = Some st" "rb_wf (ps_Observations st)"
    "quiet_ext (c\<lparr>ct_StateStore := (ct_StateStore c)(key \<mapsto> st)\<rparr>) c2"
    "r = reconcile_apply pf cfg env (reconcile_decide pf cfg env ob st) c2"
    using hot_call_apply [OF assms] .
  have k: "ob_key ob = key" and s: "ct_StateStore c2 = (ct_StateStore c)(key \<mapsto> st)"
    using h(1,4) by (simp_all add: observation_def quiet_ext_def)
  show ?thesis
  proof (rule that)
    show "ct_StateStore (snd r) = (ct_StateStore c)(key \<mapsto> applied_state env (reconcile_decide pf cfg env ob st))"
      unfolding h(5) by (subst reconcile_apply_store) (simp_all add: k s)
    show "ps_Initialized (applied_state env (reconcile_decide pf cfg env ob st))"
      using calibrate_keeps(3) [OF h(2)] by (simp add: applied_state_simps)
  qed (simp add: applied_state_simps h(3))
qed

lemma Reconcile_store_wf:
  assumes "store_wf (ct_StateStore c)"
  shows "store_wf (ct_StateStore (snd (Reconcile pf cfg env key c)))"
  using Reconcile_shape [of key c pf cfg env]
proof (elim disjE exE conjE)
  assume "stays_out key c (Reconcile pf cfg env key c)"
  then show ?thesis
    using assms by (auto simp: stays_out_def store_wf_def store_Delete_def split: if_splits)
next
  fix a assume h: "hot_call pf cfg env key a c (Reconcile pf cfg env key c)"
  obtain st where "ct_StateStore (snd (Reconcile pf cfg env key c)) = (ct_StateStore c)(key \<mapsto> st)"
    "rb_wf (ps_Observations st)"
    using hot_call_store [OF h assms] .
  then show ?thesis using assms by (simp add: store_wf_upd)
qed

text \<open>The two ways in which the stages of a reconcile end: with the configured interval, or with an error.\<close>

definition ends_regularly :: "config \<Rightarrow> outcome \<Rightarrow> bool" where
  "ends_regularly cfg r \<longleftrightarrow> r = requeue cfg \<or> (\<exists>e. r = Return 0 (Some e))"

text \<open>What controller-runtime runs again: a result with a positive delay, after that delay, and an error,
  with its backoff. A result without error and with delay 0 is not queued again.\<close>

definition comes_back :: "outcome \<Rightarrow> bool" where
  "comes_back r \<longleftrightarrow> (\<exists>d err. r = Return d err \<and> (0 < sint d \<or> err \<noteq> None))"

lemma ends_regularly_comes_back:
  "ends_regularly cfg r \<Longrightarrow> 0 < sint (cfg_ReconcileInterval cfg) \<Longrightarrow> comes_back r"
  by (auto simp: ends_regularly_def comes_back_def)

lemma paused_ends:
  "ends_regularly cfg (fst (handleKillSwitch cfg env a c))" "ends_regularly cfg (fst (handleConflict cfg env a n c))"
  by (auto simp: ends_regularly_def handleKillSwitch_def handleConflict_def Let_def)

lemma calibrate_ends:
  "ends_regularly cfg (fst (reconcile_calibrate pf cfg env ob c)) \<or> fst (reconcile_calibrate pf cfg env ob c) = Panic"
proof -
  have "ends_regularly cfg (fst (reconcile_apply pf cfg env d c'))" for d c'
    using reconcile_apply_outcome [of pf cfg env d c'] by (auto simp: ends_regularly_def)
  then show ?thesis by (simp add: reconcile_calibrate_def Let_def case_prod_beta split: option.split)
qed

lemma observe_ends:
  "ends_regularly cfg (fst (reconcile_observe pf cfg env key a c)) \<or> fst (reconcile_observe pf cfg env key a c) = Panic"
proof -
  have r: "ends_regularly cfg (requeue cfg)" by (simp add: ends_regularly_def)
  have "ends_regularly cfg (fst (reconcile_target pf cfg env key a rps resp c')) \<or>
      fst (reconcile_target pf cfg env key a rps resp c') = Panic" for rps resp c'
    using calibrate_ends r by (simp add: reconcile_target_def Let_def split: sum.split)
  then show ?thesis
    using r by (simp add: reconcile_observe_def Let_def metrics_unavailable_def split: sum.split)
qed

lemma Reconcile_not_Panic:
  assumes "store_wf (ct_StateStore c)"
  shows "fst (Reconcile pf cfg env key c) \<noteq> Panic"
  using Reconcile_shape [of key c pf cfg env]
proof (elim disjE exE conjE)
  assume "stays_out key c (Reconcile pf cfg env key c)"
  then show ?thesis by (simp add: stays_out_def)
next
  fix a assume "hot_call pf cfg env key a c (Reconcile pf cfg env key c)"
  from hot_call_apply [OF this assms] obtain ob st c2
    where "Reconcile pf cfg env key c = reconcile_apply pf cfg env (reconcile_decide pf cfg env ob st) c2" by metis
  then show ?thesis using reconcile_apply_outcome [of pf cfg env "reconcile_decide pf cfg env ob st" c2] by auto
qed

lemma Reconcile_outcome:
  assumes "re_Get env key = Inr a"
  shows "if being_deleted a \<and> annotation (aas_Annotations a) AnnotationKillSwitch \<noteq> ''true''
     then fst (Reconcile pf cfg env key c) = Return 0 None
     else ends_regularly cfg (fst (Reconcile pf cfg env key c)) \<or> fst (Reconcile pf cfg env key c) = Panic"
proof -
  obtain c0 where r: "Reconcile pf cfg env key c =
      (if annotation (aas_Annotations a) AnnotationKillSwitch = ''true'' then handleKillSwitch cfg env a c0
       else if being_deleted a then (Return 0 None, c0)
       else case findConflictingHPA env a of
              Inl e \<Rightarrow> (Return 0 (Some e), c0)
            | Inr (Some hpaName) \<Rightarrow> handleConflict cfg env a hpaName c0
            | Inr None \<Rightarrow> reconcile_observe pf cfg env key a c0)"
    using Reconcile_Get [OF assms] by metis
  have "ends_regularly cfg (Return 0 (Some e))" for e by (simp add: ends_regularly_def)
  then show ?thesis
    unfolding r by (simp add: paused_ends observe_ends split: sum.split option.split)
qed

lemma Reconcile_gone: "re_Get env key = Inl e \<Longrightarrow> fst (Reconcile pf cfg env key c) = Return 0 (IgnoreNotFound e)"
  by (simp add: Reconcile_def)

text \<open>The classifier handle of a resource, as the reconciler holds it.\<close>

definition handle_of :: "controller \<Rightarrow> namespaced_name \<Rightarrow> worker_handle option" where
  "handle_of c k = Option.bind (ct_Classifier c) (\<lambda>m. mg_workers m k)"

lemma handle_of_upd [simp]:
  "handle_of (c\<lparr>ct_StateStore := x\<rparr>) k = handle_of c k" "handle_of (c\<lparr>ct_explainCh := y\<rparr>) k = handle_of c k"
  "handle_of (c\<lparr>ct_metrics := z\<rparr>) k = handle_of c k" "handle_of (emit e c) k = handle_of c k"
  by (simp_all add: handle_of_def)

lemma other_handle:
  assumes "k \<noteq> key"
  shows "mg_workers (Stop m key) k = mg_workers m k" "mg_workers (SignalReclassify m key) k = mg_workers m k"
    "mg_workers (snd (ObserveDeploymentRevision m key r)) k = mg_workers m k"
    "aas_key a = key \<Longrightarrow> mg_workers (Ensure m a) k = mg_workers m k"
  using assms
  by (auto simp: Stop_def SignalReclassify_def ObserveDeploymentRevision_def Ensure_def Let_def split: option.splits)

lemma handle_of_paused:
  "handle_of (snd (handleKillSwitch cfg env a c)) k = handle_of c k"
  "handle_of (snd (handleConflict cfg env a n c)) k = handle_of c k"
  by (simp_all add: handleKillSwitch_def handleConflict_def Let_def)

lemma handle_of_calibrate: "handle_of (snd (reconcile_calibrate pf cfg env ob c)) k = handle_of c k"
  by (simp add: reconcile_calibrate_def reconcile_apply_def reconcile_finish_def Let_def case_prod_beta split: option.splits)

lemma handle_of_observe:
  assumes "k \<noteq> key"
  shows "handle_of (snd (reconcile_observe pf cfg env key a c)) k = handle_of c k"
proof -
  have "handle_of (c\<lparr>ct_Classifier := map_option (\<lambda>m. snd (ObserveDeploymentRevision m key r)) (ct_Classifier c)\<rparr>) k =
      handle_of c k" for c r
    using assms by (cases "ct_Classifier c") (simp_all add: handle_of_def other_handle)
  then have "handle_of (snd (reconcile_target pf cfg env key a rps resp c)) k = handle_of c k" for rps resp c
    by (simp add: reconcile_target_def Let_def handle_of_calibrate split: sum.splits)
  then show ?thesis by (simp add: reconcile_observe_def Let_def metrics_unavailable_def split: sum.splits)
qed

lemma handle_of_Reconcile:
  assumes "k \<noteq> key" and "\<And>a. re_Get env key = Inr a \<Longrightarrow> aas_key a = key"
  shows "handle_of (snd (Reconcile pf cfg env key c)) k = handle_of c k"
proof (cases "re_Get env key")
  case (Inl e)
  then show ?thesis using assms(1)
    by (cases "ct_Classifier c") (simp_all add: Reconcile_def handle_of_def other_handle)
next
  case (Inr a)
  let ?c = "c\<lparr>ct_Classifier := map_option (\<lambda>m. let m = Ensure m a in
      if annotation (aas_Annotations a) AnnotationReclassify = ''true'' then SignalReclassify m key else m) (ct_Classifier c)\<rparr>"
  have "handle_of ?c k = handle_of c k"
    using assms(1) assms(2) [OF Inr] by (cases "ct_Classifier c") (simp_all add: handle_of_def other_handle Let_def)
  then show ?thesis
    using Inr handle_of_observe [OF assms(1)]
    by (simp add: Reconcile_def Let_def [of ?c] handle_of_paused split: sum.splits option.splits)
qed

text \<open>C8. The control loop never dies and never panics. Take a reconcile interval that is positive, a store
  whose buffers are well formed (the empty one at start-up is) and an API server that returns a
  resource under its own name. Then a reconcile of a resource that exists and is not being deleted is
  always run again, after a positive delay or because it returned an error, whatever its calls answer;
  it ends the loop only for a resource that is gone or going. It leaves a well-formed store, and the
  decision state and the classifier worker of every other resource as they were.\<close>

theorem reconcile_no_panic:
  assumes "store_wf (ct_StateStore c)" and "0 < sint (cfg_ReconcileInterval cfg)"
    and "\<And>a. re_Get env key = Inr a \<Longrightarrow> aas_key a = key"
  shows "(case re_Get env key of
       Inl err \<Rightarrow> fst (Reconcile pf cfg env key c) = Return 0 (IgnoreNotFound err)
     | Inr a \<Rightarrow> if being_deleted a \<and> annotation (aas_Annotations a) AnnotationKillSwitch \<noteq> ''true''
               then fst (Reconcile pf cfg env key c) = Return 0 None else comes_back (fst (Reconcile pf cfg env key c))) \<and>
     store_wf (ct_StateStore (snd (Reconcile pf cfg env key c))) \<and>
     (k \<noteq> key \<longrightarrow> ct_StateStore (snd (Reconcile pf cfg env key c)) k = ct_StateStore c k \<and>
        handle_of (snd (Reconcile pf cfg env key c)) k = handle_of c k)"
proof (intro conjI impI)
  show "case re_Get env key of
       Inl err \<Rightarrow> fst (Reconcile pf cfg env key c) = Return 0 (IgnoreNotFound err)
     | Inr a \<Rightarrow> if being_deleted a \<and> annotation (aas_Annotations a) AnnotationKillSwitch \<noteq> ''true''
               then fst (Reconcile pf cfg env key c) = Return 0 None else comes_back (fst (Reconcile pf cfg env key c))"
    using Reconcile_outcome [of env key _ pf cfg c] Reconcile_not_Panic [OF assms(1), of pf cfg env key]
      ends_regularly_comes_back [OF _ assms(2)]
    by (auto simp: Reconcile_gone split: sum.split)
  show "store_wf (ct_StateStore (snd (Reconcile pf cfg env key c)))" by (rule Reconcile_store_wf [OF assms(1)])
  show "ct_StateStore (snd (Reconcile pf cfg env key c)) k = ct_StateStore c k" if "k \<noteq> key"
    using that Reconcile_shape [of key c pf cfg env]
    by (auto simp: stays_out_def store_Delete_def elim: hot_call_store [OF _ assms(1)])
  show "handle_of (snd (Reconcile pf cfg env key c)) k = handle_of c k" if "k \<noteq> key"
    using that assms(3) by (rule handle_of_Reconcile)
qed

text \<open>The interval is not checked when the configuration loads. Zero means never to controller-runtime: the
  loop then stops after the first reconcile that succeeds.\<close>

lemma zero_interval_stops:
  assumes "cfg_ReconcileInterval cfg = 0" and "fst (Reconcile pf cfg env key c) = Return d None"
  shows "d = 0"
proof (cases "re_Get env key")
  case (Inl e)
  then show ?thesis using assms(2) by (simp add: Reconcile_gone)
next
  case (Inr a)
  then show ?thesis using Reconcile_outcome [OF Inr, of pf cfg c] assms by (auto simp: ends_regularly_def split: if_splits)
qed

section \<open>A healthy reconcile runs to its decision\<close>

text \<open>Every dependency answers: the observation the hot path is entered with.\<close>

definition healthy ::
    "config \<Rightarrow> reconcile_env \<Rightarrow> namespaced_name \<Rightarrow> aas \<Rightarrow> observed \<Rightarrow> bool" where
  "healthy cfg env key a ob \<longleftrightarrow>
     re_Get env key = Inr a \<and> not_paused env a \<and> observation cfg env key a ob \<and>
     (\<exists>samples. re_RangeQuery env (RangeRPS (ref_Name (spec_TargetRef (aas_Spec a))))
         (Add (re_now_history env) (- cfg_HotPathHistory cfg)) (re_now_history env) Minute = Inr samples \<and>
       sint (cfg_HotPathMinPoints cfg) \<le> int (length samples) \<and>
       re_Recommend env (recommend_request_of cfg env key a samples) = Inr (ob_forecast ob))"

lemma healthy_calibrates:
  assumes "healthy cfg env key a ob"
  obtains c1 samples where "quiet_ext c c1" "Reconcile pf cfg env key c = reconcile_calibrate pf cfg env ob c1"
    "EffRecommend (recommend_request_of cfg env key a samples) \<in> set (ct_trace c1)"
proof -
  obtain c0 where c0: "ct_StateStore c0 = ct_StateStore c" "ct_explainCh c0 = ct_explainCh c"
    "ct_trace c0 = ct_trace c" and r: "Reconcile pf cfg env key c =
      (if annotation (aas_Annotations a) AnnotationKillSwitch = ''true'' then handleKillSwitch cfg env a c0
       else if being_deleted a then (Return 0 None, c0)
       else case findConflictingHPA env a of
              Inl e \<Rightarrow> (Return 0 (Some e), c0)
            | Inr (Some hpaName) \<Rightarrow> handleConflict cfg env a hpaName c0
            | Inr None \<Rightarrow> reconcile_observe pf cfg env key a c0)"
    using assms Reconcile_Get [of env key a] by (metis healthy_def)
  have q: "quiet_ext c c0" using c0 by (simp add: quiet_ext_def)
  have ob: "\<lparr>ob_aas = a, ob_key = key, ob_currentRPS = ob_currentRPS ob, ob_forecast = ob_forecast ob,
      ob_effective = ResolveEffectiveParams (buildParamSources cfg a), ob_deploy = ob_deploy ob,
      ob_currentReplicas = derefOr (dp_Replicas (ob_deploy ob)) 1\<rparr> = ob"
    using assms by (simp add: healthy_def observation_def)
  let ?n = "ref_Name (spec_TargetRef (aas_Spec a))"
  let ?st = "Add (re_now_history env) (- cfg_HotPathHistory cfg)"
  obtain samples where sm: "re_RangeQuery env (RangeRPS ?n) ?st (re_now_history env) Minute = Inr samples"
    "sint (cfg_HotPathMinPoints cfg) \<le> int (length samples)"
    "re_Recommend env (recommend_request_of cfg env key a samples) = Inr (ob_forecast ob)"
    using assms unfolding healthy_def by blast
  let ?c3 = "emit (EffRecommend (recommend_request_of cfg env key a samples))
      (emit (EffRangeQuery (RangeRPS ?n) ?st (re_now_history env) Minute) (emit (EffInstantQuery (InstantRPS ?n)) c0))"
  let ?c4 = "?c3\<lparr>ct_Classifier := map_option (\<lambda>m. snd (ObserveDeploymentRevision m key
      (annotation (dp_Annotations (ob_deploy ob)) ''deployment.kubernetes.io/revision''))) (ct_Classifier ?c3)\<rparr>"
  have g: "re_GetDeployment env \<lparr>nn_Namespace = aas_Namespace a, nn_Name = ?n\<rparr> = Inr (ob_deploy ob)"
    using assms by (simp add: healthy_def observation_def)
  have "Reconcile pf cfg env key c = reconcile_target pf cfg env key a (ob_currentRPS ob) (ob_forecast ob) ?c3"
    using r sm assms unfolding healthy_def not_paused_def observation_def
    by (simp add: reconcile_observe_def Let_def)
  also have "\<dots> = reconcile_calibrate pf cfg env ob ?c4"
    by (simp only: reconcile_target_def Let_def g sum.case ob)
  finally show ?thesis using q by (intro that [of ?c4 samples]) simp_all
qed

text \<open>The trace and the store after a healthy reconcile.\<close>

lemma healthy_run:
  assumes "healthy cfg env key a ob" "calibrate cfg env ob (start_state ob (ct_StateStore c)) = Some st"
  shows "\<exists>pre. ct_trace (snd (Reconcile pf cfg env key c)) =
      ct_trace c @ pre @ apply_effects pf env (reconcile_decide pf cfg env ob st)"
    "ct_StateStore (snd (Reconcile pf cfg env key c)) =
      (ct_StateStore c)(key \<mapsto> applied_state env (reconcile_decide pf cfg env ob st))"
proof -
  obtain c1 where c1: "quiet_ext c c1" "Reconcile pf cfg env key c = reconcile_calibrate pf cfg env ob c1"
    using healthy_calibrates [OF assms(1)] by metis
  have k: "ob_key ob = key" using assms(1) by (simp add: healthy_def observation_def)
  have s: "ct_StateStore c1 = ct_StateStore c" using c1(1) by (simp add: quiet_ext_def)
  let ?c2 = "c1\<lparr>ct_StateStore := (ct_StateStore c)(key \<mapsto> st)\<rparr>"
  have r: "Reconcile pf cfg env key c = reconcile_apply pf cfg env (reconcile_decide pf cfg env ob st) ?c2"
    using c1(2) assms(2) k s by (simp add: reconcile_calibrate_eq Let_def)
  show "\<exists>pre. ct_trace (snd (Reconcile pf cfg env key c)) =
      ct_trace c @ pre @ apply_effects pf env (reconcile_decide pf cfg env ob st)"
    unfolding r reconcile_apply_trace using c1(1) by (auto simp: quiet_ext_def)
  show "ct_StateStore (snd (Reconcile pf cfg env key c)) =
      (ct_StateStore c)(key \<mapsto> applied_state env (reconcile_decide pf cfg env ob st))"
    unfolding r by (subst reconcile_apply_store) (simp_all add: k)
qed

section \<open>A concrete reconcile\<close>

definition demo_key :: namespaced_name where "demo_key = aas_key demo_cr"

definition demo_deploy :: deployment where
  "demo_deploy = \<lparr>dp_Namespace = ''prod'', dp_Name = ''web'', dp_Annotations = Map.empty, dp_Replicas = Some 3\<rparr>"

definition demo_renv :: reconcile_env where
  "demo_renv = \<lparr>re_Get = \<lambda>k. if k = demo_key then Inr demo_cr else Inl (ApiNotFound (nn_Name k)), re_ListHPA = \<lambda>_. Inr [], re_InstantQuery = \<lambda>_. Inr (Fin 300),
     re_now_history = 1700000000 * ns_Second,
     re_RangeQuery = \<lambda>_ _ _ _. Inr (replicate 10 \<lparr>smp_Timestamp = 0, smp_Value = Fin 300\<rparr>),
     re_now_context = 1700000000 * ns_Second,
     re_Recommend = \<lambda>_. Inr \<lparr>rs_PredictedRPS = Fin 2600, rs_HorizonMinutes = 5, rs_ModelUsed = ''linear_extrap''\<rparr>,
     re_GetDeployment = \<lambda>_. Inr demo_deploy, re_now = 1700000000 * ns_Second,
     re_ScaleUpdate = \<lambda>_ _. None, re_StatusUpdate = \<lambda>_. None\<rparr>"

definition demo_controller :: controller where
  "demo_controller = \<lparr>ct_StateStore = NewStateStore, ct_Classifier = None, ct_explainCh = make_chan 1,
     ct_metrics = no_metrics, ct_trace = []\<rparr>"

lemma demo_store_wf [simp]: "store_wf (ct_StateStore demo_controller)"
  by (simp add: store_wf_def demo_controller_def NewStateStore_def)

theorem reconcile_no_panic_witness:
  "0 < sint (cfg_ReconcileInterval default_config) \<and>
   comes_back (fst (Reconcile amd64 default_config demo_renv demo_key demo_controller))"
proof -
  have i: "0 < sint (cfg_ReconcileInterval default_config)" by code_simp
  have "re_Get demo_renv demo_key = Inr demo_cr" "\<not> being_deleted demo_cr"
    by (simp_all add: demo_renv_def demo_cr_def being_deleted_def)
  moreover from this have "aas_key a = demo_key" if "re_Get demo_renv demo_key = Inr a" for a
    using that by (simp add: demo_key_def)
  ultimately show ?thesis
    using reconcile_no_panic [OF demo_store_wf i, where env = demo_renv and key = demo_key and pf = amd64] i by simp
qed

text \<open>One observation of 100 requests per second and pod; the forecast asks for 26 replicas, the
  range allows 10 and the step 4, so the reconcile patches 7.\<close>

definition demo_state :: per_cr_state where
  "demo_state = \<lparr>ps_Observations = \<lparr>rb_data = [Fin 100], rb_cap = 10\<rparr>, ps_RpsPerPod = Fin 100,
     ps_LastScaleUpTime = zero_time, ps_LastScaleDownTime = zero_time, ps_Initialized = True\<rparr>"

definition demo_ob :: observed where
  "demo_ob = \<lparr>ob_aas = demo_cr, ob_key = demo_key, ob_currentRPS = Fin 300,
     ob_forecast = \<lparr>rs_PredictedRPS = Fin 2600, rs_HorizonMinutes = 5, rs_ModelUsed = ''linear_extrap''\<rparr>,
     ob_effective = \<lparr>ep_CooldownUp = 60, ep_CooldownDown = 300, ep_MaxStep = 4, ep_Forecaster = ''auto''\<rparr>,
     ob_deploy = demo_deploy, ob_currentReplicas = 3\<rparr>"

lemma demo_effective:
  "ResolveEffectiveParams (buildParamSources default_config demo_cr) =
     \<lparr>ep_CooldownUp = 60, ep_CooldownDown = 300, ep_MaxStep = 4, ep_Forecaster = ''auto''\<rparr>"
proof -
  have "durationSecondsAsInt32 (secs 60) = 60" "durationSecondsAsInt32 (secs 300) = 300" by code_simp+
  then show ?thesis
    by (simp add: ResolveEffectiveParams_def buildParamSources_def demo_cr_def demo_spec_def zero_status_def
        default_config_def coalesce32_def classifiedField32_def coalesceStr_def classifiedFieldStr_def)
qed

lemma demo_calibrate: "calibrate default_config demo_renv demo_ob (start_state demo_ob NewStateStore) = Some demo_state"
  by code_simp

lemma demo_decided:
  "co_ShouldPatch (de_cap (reconcile_decide amd64 default_config demo_renv demo_ob demo_state)) \<and>
   co_Target (de_cap (reconcile_decide amd64 default_config demo_renv demo_ob demo_state)) = 7"
  by code_simp


lemma demo_not_paused: "not_paused demo_renv demo_cr"
  by (simp add: not_paused_def demo_cr_def annotation_def being_deleted_def findConflictingHPA_def demo_renv_def)

section \<open>Paused resources\<close>



lemma paused_store:
  "ct_StateStore (snd (handleKillSwitch cfg env a c0)) = ct_StateStore c0"
  "ct_StateStore (snd (handleConflict cfg env a n c0)) = ct_StateStore c0"
  by (auto simp: handleKillSwitch_def handleConflict_def Let_def)




section \<open>Where a replica patch comes from\<close>

lemma scale_origin:
  assumes "store_wf (ct_StateStore c)" "ct_trace (snd (Reconcile pf cfg env key c)) = ct_trace c @ effs"
    "e \<in> set effs" "\<not> quiet e"
  obtains a ob st pre where "re_Get env key = Inr a" "not_paused env a" "observation cfg env key a ob"
    "calibrate cfg env ob (start_state ob (ct_StateStore c)) = Some st"
    "effs = pre @ apply_effects pf env (reconcile_decide pf cfg env ob st)"
    "list_all (\<lambda>e. quiet e \<and> \<not> is_status e) pre"
    "ct_StateStore (snd (Reconcile pf cfg env key c)) =
       (ct_StateStore c)(key \<mapsto> applied_state env (reconcile_decide pf cfg env ob st))"
  using Reconcile_shape [of key c pf cfg env]
proof (elim disjE exE conjE)
  assume "stays_out key c (Reconcile pf cfg env key c)"
  then have "list_all quiet effs" using assms(2) by (auto simp: stays_out_def)
  then show ?thesis using assms(3,4) by (auto simp: list_all_iff)
next
  fix a assume h: "re_Get env key = Inr a" "not_paused env a" "hot_call pf cfg env key a c (Reconcile pf cfg env key c)"
  obtain ob st c2 where o: "observation cfg env key a ob"
    "calibrate cfg env ob (start_state ob (ct_StateStore c)) = Some st" "rb_wf (ps_Observations st)"
    "quiet_ext (c\<lparr>ct_StateStore := (ct_StateStore c)(key \<mapsto> st)\<rparr>) c2"
    "Reconcile pf cfg env key c = reconcile_apply pf cfg env (reconcile_decide pf cfg env ob st) c2"
    using hot_call_apply [OF h(3) assms(1)] .
  obtain pre where p: "ct_trace c2 = ct_trace c @ pre" "list_all (\<lambda>e. quiet e \<and> \<not> is_status e) pre"
    using o(4) by (auto simp: quiet_ext_def)
  have "effs = pre @ apply_effects pf env (reconcile_decide pf cfg env ob st)"
    using assms(2) o(5) p(1) by (simp add: reconcile_apply_trace)
  moreover have "ob_key ob = key" "ct_StateStore c2 = (ct_StateStore c)(key \<mapsto> st)"
    using o(1,4) by (simp_all add: observation_def quiet_ext_def)
  then have "ct_StateStore (snd (Reconcile pf cfg env key c)) =
       (ct_StateStore c)(key \<mapsto> applied_state env (reconcile_decide pf cfg env ob st))"
    unfolding o(5) by (subst reconcile_apply_store) simp_all
  ultimately show ?thesis using that h(1,2) o(1,2) p(2) by blast
qed

text \<open>The input of the decision.\<close>

definition cap_input_of :: "go_platform \<Rightarrow> reconcile_env \<Rightarrow> observed \<Rightarrow> per_cr_state \<Rightarrow> cap_input" where
  "cap_input_of pf env ob st =
     (let spec = aas_Spec (ob_aas ob);
          r = ClampRecommended (ComputeUnboundedRecommended pf (rs_PredictedRPS (ob_forecast ob))
                (ClampRpsPerPod (ps_RpsPerPod st) (derefOr (spec_RpsPerPodMin spec) 50) (derefOr (spec_RpsPerPodMax spec) 500)))
              (derefOr (spec_MinReplicas spec) 2) (derefOr (spec_MaxReplicas spec) 10)
      in \<lparr>ci_Recommended = fst r, ci_Current = ob_currentReplicas ob, ci_MaxStep = ep_MaxStep (ob_effective ob),
          ci_CooldownUp = ep_CooldownUp (ob_effective ob), ci_CooldownDown = ep_CooldownDown (ob_effective ob),
          ci_LastScaleUp = ps_LastScaleUpTime st, ci_LastScaleDown = ps_LastScaleDownTime st,
          ci_Now = re_now env, ci_BindingReason = snd r\<rparr>)"

lemma de_cap_eq: "de_cap (reconcile_decide pf cfg env ob st) = ApplyCapAndCooldown (cap_input_of pf env ob st)"
  by (simp add: reconcile_decide_def cap_input_of_def Let_def observed.extend_def decided.fields_def case_prod_beta)

lemma cap_input_of_simps [simp]:
  "ci_Current (cap_input_of pf env ob st) = ob_currentReplicas ob"
  "ci_MaxStep (cap_input_of pf env ob st) = ep_MaxStep (ob_effective ob)"
  "ci_CooldownUp (cap_input_of pf env ob st) = ep_CooldownUp (ob_effective ob)"
  "ci_CooldownDown (cap_input_of pf env ob st) = ep_CooldownDown (ob_effective ob)"
  "ci_LastScaleUp (cap_input_of pf env ob st) = ps_LastScaleUpTime st"
  "ci_LastScaleDown (cap_input_of pf env ob st) = ps_LastScaleDownTime st"
  "ci_Now (cap_input_of pf env ob st) = re_now env"
  by (simp_all add: cap_input_of_def Let_def)

lemma ClampRecommended_range:
  "sint mn \<le> sint mx \<Longrightarrow> sint mn \<le> sint (fst (ClampRecommended u mn mx)) \<and> sint (fst (ClampRecommended u mn mx)) \<le> sint mx"
  by (auto simp: ClampRecommended_def signed_less)

lemma cap_input_of_range:
  assumes "sint (derefOr (spec_MinReplicas (aas_Spec (ob_aas ob))) 2) \<le> sint (derefOr (spec_MaxReplicas (aas_Spec (ob_aas ob))) 10)"
  shows "sint (derefOr (spec_MinReplicas (aas_Spec (ob_aas ob))) 2) \<le> sint (ci_Recommended (cap_input_of pf env ob st))"
    "sint (ci_Recommended (cap_input_of pf env ob st)) \<le> sint (derefOr (spec_MaxReplicas (aas_Spec (ob_aas ob))) 10)"
  using ClampRecommended_range [OF assms] by (simp_all add: cap_input_of_def Let_def)

text \<open>Sizes at which neither sum of the step cap overflows: at most \<open>2\<^sup>3\<^sup>0\<close> replicas, a positive
  step below that, and a replica range that is not empty.\<close>

definition scale_sane :: "config \<Rightarrow> aas \<Rightarrow> int32 \<Rightarrow> bool" where
  "scale_sane cfg a current \<longleftrightarrow>
     0 \<le> sint current \<and> sint current \<le> 2 ^ 30 \<and>
     1 \<le> sint (ep_MaxStep (ResolveEffectiveParams (buildParamSources cfg a))) \<and>
     sint (ep_MaxStep (ResolveEffectiveParams (buildParamSources cfg a))) < 2 ^ 30 \<and>
     sint (derefOr (spec_MinReplicas (aas_Spec a)) 2) \<le> sint (derefOr (spec_MaxReplicas (aas_Spec a)) 10)"

lemma scale_sane_no_overflow:
  "scale_sane cfg a (ob_currentReplicas ob) \<Longrightarrow> observation cfg env key a ob \<Longrightarrow> no_overflow (cap_input_of pf env ob st)"
  by (intro small_no_overflow) (auto simp: scale_sane_def observation_def)

text \<open>The current replica count a reconcile of \<open>a\<close> sees.\<close>

definition observed_replicas :: "reconcile_env \<Rightarrow> aas \<Rightarrow> int32 option" where
  "observed_replicas env a =
     (case re_GetDeployment env \<lparr>nn_Namespace = aas_Namespace a, nn_Name = ref_Name (spec_TargetRef (aas_Spec a))\<rparr> of
        Inl _ \<Rightarrow> None | Inr d \<Rightarrow> Some (derefOr (dp_Replicas d) 1))"

lemma observation_replicas: "observation cfg env key a ob \<Longrightarrow> observed_replicas env a = Some (ob_currentReplicas ob)"
  by (simp add: observation_def observed_replicas_def)

lemma apply_effects_scale:
  "EffScale k t err \<in> set (apply_effects pf env d) \<Longrightarrow>
     co_ShouldPatch (de_cap d) \<and> t = co_Target (de_cap d) \<and> k = \<lparr>nn_Namespace = dp_Namespace (ob_deploy d), nn_Name = dp_Name (ob_deploy d)\<rparr>
     \<and> err = re_ScaleUpdate env (ob_deploy d) t"
  by (auto simp: apply_effects_def finish_effects_def scale_effect_def Let_def split: if_splits)

lemma apply_effects_count: "length (filter is_scale (apply_effects pf env d)) \<le> 1"
  by (simp add: apply_effects_def finish_effects_def scale_effect_def Let_def)

lemma quiet_no_scale: "list_all (\<lambda>e. quiet e \<and> \<not> is_status e) pre \<Longrightarrow> filter is_scale pre = []"
  by (induction pre) (auto elim: is_scale.elims)

lemma scale_bounds:
  assumes "store_wf (ct_StateStore c)" and "ct_trace (snd (Reconcile pf cfg env key c)) = ct_trace c @ effs"
    and "EffScale k t err \<in> set effs" and "re_Get env key = Inr a"
    and "observed_replicas env a = Some current" and "scale_sane cfg a current"
  shows "not_paused env a \<and> length (filter is_scale effs) = 1 \<and> t \<noteq> current \<and>
     \<bar>sint t - sint current\<bar> \<le> sint (ep_MaxStep (ResolveEffectiveParams (buildParamSources cfg a))) \<and>
     min (sint current) (sint (derefOr (spec_MinReplicas (aas_Spec a)) 2)) \<le> sint t \<and>
     sint t \<le> max (sint current) (sint (derefOr (spec_MaxReplicas (aas_Spec a)) 10))"
proof -
  obtain a' ob st pre where o: "re_Get env key = Inr a'" "not_paused env a'" "observation cfg env key a' ob"
    "calibrate cfg env ob (start_state ob (ct_StateStore c)) = Some st"
    "effs = pre @ apply_effects pf env (reconcile_decide pf cfg env ob st)"
    "list_all (\<lambda>e. quiet e \<and> \<not> is_status e) pre"
    using scale_origin [OF assms(1,2,3)] by (metis quiet.simps(1))
  let ?d = "reconcile_decide pf cfg env ob st" let ?i = "cap_input_of pf env ob st"
  have a: "a' = a" "ob_currentReplicas ob = current" "ob_aas ob = a"
    "ob_effective ob = ResolveEffectiveParams (buildParamSources cfg a)"
    using o(1,3) assms(4,5) observation_replicas [OF o(3)] by (simp_all add: observation_def)
  have "EffScale k t err \<notin> set pre" using o(6) by (auto simp: list_all_iff)
  then have m: "EffScale k t err \<in> set (apply_effects pf env ?d)" using assms(3) o(5) by simp
  have p: "co_ShouldPatch (ApplyCapAndCooldown ?i)" "t = co_Target (ApplyCapAndCooldown ?i)"
    using apply_effects_scale [OF m] by (simp_all add: de_cap_eq)
  have s: "no_overflow ?i" using scale_sane_no_overflow assms(6) o(3) a by simp
  note t = ApplyCap_target [OF s]
  have step: "0 \<le> sint (ci_MaxStep ?i)" using assms(6) a by (simp add: scale_sane_def)
  have r: "sint (derefOr (spec_MinReplicas (aas_Spec a)) 2) \<le> sint (ci_Recommended ?i)"
    "sint (ci_Recommended ?i) \<le> sint (derefOr (spec_MaxReplicas (aas_Spec a)) 10)"
    using cap_input_of_range [of ob] assms(6) a by (simp_all add: scale_sane_def)
  have "length (filter is_scale effs) \<le> 1"
    using apply_effects_count [of pf env ?d] quiet_no_scale [OF o(6)] o(5) by simp
  moreover have "filter is_scale effs \<noteq> []"
    using assms(3) by (metis filter_empty_conv is_scale.simps(1))
  ultimately have n: "length (filter is_scale effs) = 1" by (simp add: le_Suc_eq)
  have "t \<noteq> current" using p ApplyCap_patch [of ?i] a by auto
  then show ?thesis
    using n o(2) a p(2) t r decide_spec_between [OF step, of "sint (ci_Recommended ?i)" "sint (ci_Current ?i)" "up_ready ?i" "down_ready ?i"]
    by (simp add: min_le_iff_disj le_max_iff_disj) linarith
qed

text \<open>C7. A reconcile changes the replica count at most once and safely: the patch is made only when no
  pre-check stops the autoscaler, it moves the count of the observed deployment by at least one and
  at most the effective step, towards a value of the replica range: the new count is between the
  smaller of the current count and the minimum and the larger of the current count and the maximum.
  This is for sane sizes (\<open>scale_sane\<close>: at most \<open>2\<^sup>3\<^sup>0\<close> replicas, a step of at least one and below
  \<open>2\<^sup>3\<^sup>0\<close>, so that no sum wraps around, and a replica range that is not empty).\<close>

theorem scale_patch_bounded:
  assumes "store_wf (ct_StateStore c)" and "ct_trace (snd (Reconcile pf cfg env key c)) = ct_trace c @ effs"
    and "EffScale k t err \<in> set effs" and "re_Get env key = Inr a"
    and "observed_replicas env a = Some current" and "scale_sane cfg a current"
  shows "not_paused env a \<and> length (filter is_scale effs) = 1 \<and> t \<noteq> current \<and>
     \<bar>sint t - sint current\<bar> \<le> sint (ep_MaxStep (ResolveEffectiveParams (buildParamSources cfg a))) \<and>
     min (sint current) (sint (derefOr (spec_MinReplicas (aas_Spec a)) 2)) \<le> sint t \<and>
     sint t \<le> max (sint current) (sint (derefOr (spec_MaxReplicas (aas_Spec a)) 10))"
  using assms by (rule scale_bounds)


lemma demo_healthy: "healthy default_config demo_renv demo_key demo_cr demo_ob"
  unfolding healthy_def observation_def demo_effective using demo_not_paused
  by (simp add: demo_renv_def demo_ob_def demo_deploy_def derefOr_def)
     (simp add: default_config_def)

lemma demo_store: "ct_StateStore demo_controller = NewStateStore"
  by (simp add: demo_controller_def)

lemma demo_patches:
  "EffScale \<lparr>nn_Namespace = ''prod'', nn_Name = ''web''\<rparr> 7 None
     \<in> set (ct_trace (snd (Reconcile amd64 default_config demo_renv demo_key demo_controller)))"
  using healthy_run(1) [OF demo_healthy, of demo_controller demo_state amd64] demo_calibrate demo_decided
  unfolding demo_store
  by (auto simp: apply_effects_def scale_effect_def) (auto simp: demo_renv_def demo_ob_def demo_deploy_def)

lemma demo_sane: "scale_sane default_config demo_cr 3" "observed_replicas demo_renv demo_cr = Some 3"
  unfolding scale_sane_def demo_effective
  by (simp_all add: observed_replicas_def demo_renv_def demo_deploy_def derefOr_def demo_cr_def demo_spec_def)

lemma demo_Get: "re_Get demo_renv demo_key = Inr demo_cr"
  by (simp add: demo_renv_def)

theorem scale_patch_bounded_witness:
  "length (filter is_scale (ct_trace (snd (Reconcile amd64 default_config demo_renv demo_key demo_controller)))) = 1"
  using scale_patch_bounded [OF demo_store_wf _ demo_patches demo_Get demo_sane(2,1)]
  by (simp add: demo_controller_def)

section \<open>Cooldowns across reconciles\<close>

lemma patch_ready:
  assumes "no_overflow inp" "1 \<le> sint (ci_MaxStep inp)"
  shows "sint (ci_Current inp) < sint (co_Target (ApplyCapAndCooldown inp)) \<Longrightarrow> up_ready inp"
    "sint (co_Target (ApplyCapAndCooldown inp)) < sint (ci_Current inp) \<Longrightarrow> down_ready inp"
  using assms(2) unfolding ApplyCap_target [OF assms(1)] by (auto simp: decide_spec_def split: if_splits)

text \<open>A patch is made only when the cooldown of its direction has elapsed since the time recorded in
  the state the reconcile starts from, and a successful one records its own time.\<close>

lemma patch_times:
  assumes "store_wf (ct_StateStore c)" "ct_trace (snd (Reconcile pf cfg env key c)) = ct_trace c @ effs"
    "EffScale k t err \<in> set effs" "re_Get env key = Inr a" "observed_replicas env a = Some current"
    "scale_sane cfg a current"
  obtains ob st where "ob_key ob = key" "ob_aas ob = a"
    "sint current < sint t \<Longrightarrow> sint (ep_CooldownUp (ResolveEffectiveParams (buildParamSources cfg a))) * ns_Second
       \<le> re_now env - ps_LastScaleUpTime (start_state ob (ct_StateStore c))"
    "sint t < sint current \<Longrightarrow> sint (ep_CooldownDown (ResolveEffectiveParams (buildParamSources cfg a))) * ns_Second
       \<le> re_now env - ps_LastScaleDownTime (start_state ob (ct_StateStore c))"
    "ct_StateStore (snd (Reconcile pf cfg env key c)) key = Some st" "ps_Initialized st"
    "err = None \<Longrightarrow> sint current < sint t \<Longrightarrow> ps_LastScaleUpTime st = re_now env"
    "err = None \<Longrightarrow> sint t < sint current \<Longrightarrow> ps_LastScaleDownTime st = re_now env"
proof -
  obtain a' ob st pre where o: "re_Get env key = Inr a'" "not_paused env a'" "observation cfg env key a' ob"
    "calibrate cfg env ob (start_state ob (ct_StateStore c)) = Some st"
    "effs = pre @ apply_effects pf env (reconcile_decide pf cfg env ob st)"
    "list_all (\<lambda>e. quiet e \<and> \<not> is_status e) pre"
    "ct_StateStore (snd (Reconcile pf cfg env key c)) =
       (ct_StateStore c)(key \<mapsto> applied_state env (reconcile_decide pf cfg env ob st))"
    by (rule scale_origin [OF assms(1,2,3)]) simp_all
  let ?d = "reconcile_decide pf cfg env ob st" let ?i = "cap_input_of pf env ob st"
  have a: "a' = a" "ob_currentReplicas ob = current" "ob_aas ob = a" "ob_key ob = key"
    "ob_effective ob = ResolveEffectiveParams (buildParamSources cfg a)"
    using o(1,3) assms(4,5) observation_replicas [OF o(3)] by (simp_all add: observation_def)
  have "EffScale k t err \<notin> set pre" using o(6) by (auto simp: list_all_iff)
  then have m: "EffScale k t err \<in> set (apply_effects pf env ?d)" using assms(3) o(5) by simp
  note p = apply_effects_scale [OF m, unfolded de_cap_eq reconcile_decide_simps]
  have s: "no_overflow ?i" using scale_sane_no_overflow assms(6) o(3) a by simp
  have "1 \<le> sint (ci_MaxStep ?i)" using assms(6) a by (simp add: scale_sane_def)
  note ready = patch_ready [OF s this]
  have k: "ps_LastScaleUpTime st = ps_LastScaleUpTime (start_state ob (ct_StateStore c))"
    "ps_LastScaleDownTime st = ps_LastScaleDownTime (start_state ob (ct_StateStore c))" "ps_Initialized st"
    using calibrate_keeps [OF o(4)] by simp_all
  show ?thesis
  proof (rule that [of ob "applied_state env ?d"])
    show "ct_StateStore (snd (Reconcile pf cfg env key c)) key = Some (applied_state env ?d)"
      by (simp add: o(7))
    show "err = None \<Longrightarrow> sint current < sint t \<Longrightarrow> ps_LastScaleUpTime (applied_state env ?d) = re_now env"
      "err = None \<Longrightarrow> sint t < sint current \<Longrightarrow> ps_LastScaleDownTime (applied_state env ?d) = re_now env"
      using p a by (simp_all add: applied_state_def de_cap_eq signed_less)
  qed (use p a k ready in \<open>simp_all add: up_ready_def down_ready_def applied_state_simps\<close>)
qed

text \<open>Reconciles one after another, of any resources.\<close>

definition reconciles :: "go_platform \<Rightarrow> config \<Rightarrow> controller \<Rightarrow> (reconcile_env \<times> namespaced_name) list \<Rightarrow> controller" where
  "reconciles pf cfg c rs = foldl (\<lambda>c (env, key). snd (Reconcile pf cfg env key c)) c rs"

lemma reconciles_wf: "store_wf (ct_StateStore c) \<Longrightarrow> store_wf (ct_StateStore (reconciles pf cfg c rs))"
  by (induction rs arbitrary: c) (auto simp: reconciles_def Reconcile_store_wf)

text \<open>The read did not answer that the resource does not exist.\<close>

definition not_gone :: "reconcile_env \<Rightarrow> namespaced_name \<Rightarrow> bool" where
  "not_gone env key \<longleftrightarrow> (\<forall>e. re_Get env key = Inl e \<longrightarrow> \<not> IsNotFound e)"

text \<open>A reconcile of a resource that exists keeps its entry in the store, and each of its two scale times
  is kept or becomes the time of that reconcile; the entries of other resources are untouched.\<close>

lemma Reconcile_store_Inr:
  assumes "re_Get env key = Inr a"
  shows "ct_StateStore (snd (Reconcile pf cfg env key c)) = ct_StateStore c \<or>
    hot_call pf cfg env key a c (Reconcile pf cfg env key c)"
proof -
  obtain c0 where c0: "ct_StateStore c0 = ct_StateStore c" "ct_explainCh c0 = ct_explainCh c"
    "ct_trace c0 = ct_trace c" and r: "Reconcile pf cfg env key c =
      (if annotation (aas_Annotations a) AnnotationKillSwitch = ''true'' then handleKillSwitch cfg env a c0
       else if being_deleted a then (Return 0 None, c0)
       else case findConflictingHPA env a of
              Inl e \<Rightarrow> (Return 0 (Some e), c0)
            | Inr (Some hpaName) \<Rightarrow> handleConflict cfg env a hpaName c0
            | Inr None \<Rightarrow> reconcile_observe pf cfg env key a c0)"
    using Reconcile_Get [OF assms] .
  have "quiet_ext c c0" using c0 by (simp add: quiet_ext_def)
  from observe_shape [OF this, of cfg key pf env a] show ?thesis
    unfolding r using c0(1) by (auto simp: paused_store gives_up_def quiet_ext_def split: sum.splits option.splits)
qed

lemma applied_state_times:
  "ps_LastScaleUpTime (applied_state env d) \<in> {ps_LastScaleUpTime (de_state d), re_now env}"
  "ps_LastScaleDownTime (applied_state env d) \<in> {ps_LastScaleDownTime (de_state d), re_now env}"
  by (simp_all add: applied_state_def)

lemma own_reconcile_times:
  assumes "store_wf (ct_StateStore c)" and "ct_StateStore c key = Some st" and "ps_Initialized st" and "not_gone env key"
  shows "\<exists>st'. ct_StateStore (snd (Reconcile pf cfg env key c)) key = Some st' \<and> ps_Initialized st' \<and>
     ps_LastScaleUpTime st' \<in> {ps_LastScaleUpTime st, re_now env} \<and>
     ps_LastScaleDownTime st' \<in> {ps_LastScaleDownTime st, re_now env}"
proof (cases "re_Get env key")
  case (Inl e)
  then show ?thesis using assms by (auto simp: Reconcile_def not_gone_def IgnoreNotFound_def)
next
  case (Inr a)
  show ?thesis
    using Reconcile_store_Inr [OF Inr, of pf cfg c]
  proof (elim disjE)
    assume "ct_StateStore (snd (Reconcile pf cfg env key c)) = ct_StateStore c"
    then show ?thesis using assms(2,3) by simp
  next
    assume h: "hot_call pf cfg env key a c (Reconcile pf cfg env key c)"
    obtain ob st1 c2 where o: "observation cfg env key a ob"
      "calibrate cfg env ob (start_state ob (ct_StateStore c)) = Some st1"
      "quiet_ext (c\<lparr>ct_StateStore := (ct_StateStore c)(key \<mapsto> st1)\<rparr>) c2"
      "Reconcile pf cfg env key c = reconcile_apply pf cfg env (reconcile_decide pf cfg env ob st1) c2"
      using hot_call_apply [OF h assms(1)] .
    have k: "ob_key ob = key" "ct_StateStore c2 = (ct_StateStore c)(key \<mapsto> st1)"
      using o(1,3) by (simp_all add: observation_def quiet_ext_def)
    then have "start_state ob (ct_StateStore c) = st" using assms(2,3) by (simp add: start_state_def)
    note keep = calibrate_keeps [OF o(2), unfolded this]
    have "ct_StateStore (snd (Reconcile pf cfg env key c)) key = Some (applied_state env (reconcile_decide pf cfg env ob st1))"
      unfolding o(4) by (subst reconcile_apply_store) (simp_all add: k)
    then show ?thesis
      using applied_state_times [of env "reconcile_decide pf cfg env ob st1"] keep assms(3)
      by (simp add: applied_state_simps)
  qed
qed

lemma other_reconcile_store:
  assumes "store_wf (ct_StateStore c)" and "k \<noteq> key"
  shows "ct_StateStore (snd (Reconcile pf cfg env k c)) key = ct_StateStore c key"
  using assms(2) Reconcile_shape [of k c pf cfg env]
  by (auto simp: stays_out_def store_Delete_def elim: hot_call_store [OF _ assms(1)])

text \<open>The entry of a resource with its scale times at or after given times.\<close>

definition scaled_since :: "state_store \<Rightarrow> namespaced_name \<Rightarrow> time \<Rightarrow> time \<Rightarrow> bool" where
  "scaled_since s key up down \<longleftrightarrow>
     (\<exists>st. s key = Some st \<and> ps_Initialized st \<and> up \<le> ps_LastScaleUpTime st \<and> down \<le> ps_LastScaleDownTime st)"

lemma reconcile_scaled_since:
  assumes "store_wf (ct_StateStore c)" and "scaled_since (ct_StateStore c) key up down"
    and "k = key \<Longrightarrow> not_gone env key \<and> up \<le> re_now env \<and> down \<le> re_now env"
  shows "scaled_since (ct_StateStore (snd (Reconcile pf cfg env k c))) key up down"
proof (cases "k = key")
  case True
  obtain st where st: "ct_StateStore c key = Some st" "ps_Initialized st"
    "up \<le> ps_LastScaleUpTime st" "down \<le> ps_LastScaleDownTime st"
    using assms(2) by (auto simp: scaled_since_def)
  show ?thesis
    using own_reconcile_times [OF assms(1) st(1,2), of env pf cfg] assms(3) [OF True] st(3,4) True
    by (auto simp: scaled_since_def)
next
  case False
  then show ?thesis using assms(2) other_reconcile_store [OF assms(1)] by (simp add: scaled_since_def)
qed

text \<open>The resource was there at each of its reconciles, and the clock read there at or after \<open>T\<close>.\<close>

definition continues :: "namespaced_name \<Rightarrow> time \<Rightarrow> (reconcile_env \<times> namespaced_name) list \<Rightarrow> bool" where
  "continues key T rs \<longleftrightarrow> list_all (\<lambda>(env, k). k = key \<longrightarrow> not_gone env key \<and> T \<le> re_now env) rs"

lemma reconciles_scaled_since:
  assumes "store_wf (ct_StateStore c)" and "scaled_since (ct_StateStore c) key up down"
    and "continues key up rs" and "continues key down rs"
  shows "scaled_since (ct_StateStore (reconciles pf cfg c rs)) key up down"
  using assms
proof (induction rs arbitrary: c)
  case (Cons r rs)
  obtain env k where r: "r = (env, k)" by (cases r)
  let ?c = "snd (Reconcile pf cfg env k c)"
  have "scaled_since (ct_StateStore ?c) key up down"
    by (rule reconcile_scaled_since [OF Cons.prems(1,2)]) (use Cons.prems(3,4) r in \<open>auto simp: continues_def\<close>)
  then have "scaled_since (ct_StateStore (reconciles pf cfg ?c rs)) key up down"
    using Cons.IH Reconcile_store_wf [OF Cons.prems(1)] Cons.prems(3,4) r by (simp add: continues_def)
  then show ?case by (simp add: reconciles_def r)
qed (simp add: reconciles_def)

text \<open>C9. Cooldowns hold across reconciles. Let a reconcile have patched the deployment of a resource with
  success, and let any number of reconciles follow, of this and of other resources, held, failed,
  paused or scaling, as long as the process is not restarted, the resource is not found missing and
  the clock does not go back behind that patch. The next patch of the resource in the same direction,
  and every later one, happens at least the then-effective cooldown of that direction after it. Both
  patching reconciles are sane (\<open>scale_sane\<close>: at most \<open>2\<^sup>3\<^sup>0\<close> replicas, a step of at least one and below
  \<open>2\<^sup>3\<^sup>0\<close>, a replica range that is not empty).\<close>

theorem cooldown_between_reconciles:
  assumes "store_wf (ct_StateStore c)" and "re_Get env key = Inr a"
    and "observed_replicas env a = Some current" and "scale_sane cfg a current"
    and "ct_trace (snd (Reconcile pf cfg env key c)) = ct_trace c @ effs" and "EffScale k t None \<in> set effs"
    and "continues key (re_now env) between"
    and "c' = reconciles pf cfg (snd (Reconcile pf cfg env key c)) between" and "re_Get env' key = Inr a'"
    and "observed_replicas env' a' = Some current'" and "scale_sane cfg a' current'"
    and "ct_trace (snd (Reconcile pf cfg env' key c')) = ct_trace c' @ effs'" and "EffScale k' t' err' \<in> set effs'"
  shows "(sint current < sint t \<and> sint current' < sint t' \<longrightarrow>
       re_now env + sint (ep_CooldownUp (ResolveEffectiveParams (buildParamSources cfg a'))) * ns_Second \<le> re_now env') \<and>
     (sint t < sint current \<and> sint t' < sint current' \<longrightarrow>
       re_now env + sint (ep_CooldownDown (ResolveEffectiveParams (buildParamSources cfg a'))) * ns_Second \<le> re_now env')"
proof -
  let ?c1 = "snd (Reconcile pf cfg env key c)"
  obtain st where st: "ct_StateStore ?c1 key = Some st" "ps_Initialized st"
    "sint current < sint t \<Longrightarrow> ps_LastScaleUpTime st = re_now env"
    "sint t < sint current \<Longrightarrow> ps_LastScaleDownTime st = re_now env"
    by (rule patch_times [OF assms(1,5,6,2,3,4)]) simp_all
  have wf1: "store_wf (ct_StateStore ?c1)" by (rule Reconcile_store_wf [OF assms(1)])
  have wf: "store_wf (ct_StateStore c')" unfolding assms(8) by (rule reconciles_wf [OF wf1])
  have "scaled_since (ct_StateStore ?c1) key (min (re_now env) (ps_LastScaleUpTime st)) (min (re_now env) (ps_LastScaleDownTime st))"
    using st(1,2) by (simp add: scaled_since_def)
  moreover have "continues key (min (re_now env) x) between" for x
    using assms(7) by (auto simp: continues_def list_all_iff)
  ultimately have "scaled_since (ct_StateStore c') key
      (min (re_now env) (ps_LastScaleUpTime st)) (min (re_now env) (ps_LastScaleDownTime st))"
    unfolding assms(8) by (intro reconciles_scaled_since wf1)
  then obtain st' where st': "ct_StateStore c' key = Some st'" "ps_Initialized st'"
    "min (re_now env) (ps_LastScaleUpTime st) \<le> ps_LastScaleUpTime st'"
    "min (re_now env) (ps_LastScaleDownTime st) \<le> ps_LastScaleDownTime st'"
    by (auto simp: scaled_since_def)
  obtain ob where ob: "ob_key ob = key"
    "sint current' < sint t' \<Longrightarrow> sint (ep_CooldownUp (ResolveEffectiveParams (buildParamSources cfg a'))) * ns_Second
       \<le> re_now env' - ps_LastScaleUpTime (start_state ob (ct_StateStore c'))"
    "sint t' < sint current' \<Longrightarrow> sint (ep_CooldownDown (ResolveEffectiveParams (buildParamSources cfg a'))) * ns_Second
       \<le> re_now env' - ps_LastScaleDownTime (start_state ob (ct_StateStore c'))"
    by (rule patch_times [OF wf assms(12,13,9,10,11)]) simp_all
  have "start_state ob (ct_StateStore c') = st'" using st'(1,2) ob(1) by (simp add: start_state_def)
  then show ?thesis using st(3,4) st'(3,4) ob(2,3) by auto
qed

text \<open>A minute later, with the seven replicas running, the forecast still asks for more.\<close>

definition demo_renv2 :: reconcile_env where
  "demo_renv2 = demo_renv\<lparr>re_GetDeployment := \<lambda>_. Inr (demo_deploy\<lparr>dp_Replicas := Some 7\<rparr>),
     re_now := 1700000060 * ns_Second\<rparr>"

definition demo_ob2 :: observed where
  "demo_ob2 = demo_ob\<lparr>ob_deploy := demo_deploy\<lparr>dp_Replicas := Some 7\<rparr>, ob_currentReplicas := 7\<rparr>"

definition demo_state2 :: per_cr_state where
  "demo_state2 = demo_state\<lparr>ps_LastScaleUpTime := 1700000000 * ns_Second\<rparr>"

lemma demo_healthy2: "healthy default_config demo_renv2 demo_key demo_cr demo_ob2"
  using demo_healthy unfolding healthy_def observation_def not_paused_def findConflictingHPA_def
    demo_renv2_def demo_ob2_def
  by (simp add: derefOr_def recommend_request_of_def)

lemma demo_applied:
  "applied_state demo_renv (reconcile_decide amd64 default_config demo_renv demo_ob demo_state) = demo_state2"
  using demo_decided
  by (simp add: applied_state_def demo_state2_def demo_renv_def demo_ob_def signed_less)

lemma demo_calibrate2: "calibrate default_config demo_renv2 demo_ob2 (start_state demo_ob2 [demo_key \<mapsto> demo_state2]) = Some demo_state2"
proof -
  have "start_state demo_ob2 [demo_key \<mapsto> demo_state2] = demo_state2"
    by (simp add: start_state_def demo_ob2_def demo_ob_def demo_state2_def demo_state_def)
  moreover have "calibrate default_config demo_renv2 demo_ob2 demo_state2 = Some demo_state2" by code_simp
  ultimately show ?thesis by simp
qed

lemma demo_decided2:
  "co_ShouldPatch (de_cap (reconcile_decide amd64 default_config demo_renv2 demo_ob2 demo_state2)) \<and>
   co_Target (de_cap (reconcile_decide amd64 default_config demo_renv2 demo_ob2 demo_state2)) = 10"
  by code_simp

definition demo_controller2 :: controller where
  "demo_controller2 = snd (Reconcile amd64 default_config demo_renv demo_key demo_controller)"

lemma demo_store2: "ct_StateStore demo_controller2 = [demo_key \<mapsto> demo_state2]"
  using healthy_run(2) [OF demo_healthy, of demo_controller demo_state amd64] demo_calibrate demo_applied
  by (simp add: demo_controller2_def demo_store NewStateStore_def)

text \<open>Half a minute after the first patch a reconcile finds the resource cooling down.\<close>

definition demo_renv_held :: reconcile_env where
  "demo_renv_held = demo_renv2\<lparr>re_now := 1700000030 * ns_Second\<rparr>"

lemma demo_healthy_held: "healthy default_config demo_renv_held demo_key demo_cr demo_ob2"
  using demo_healthy2 unfolding healthy_def observation_def not_paused_def findConflictingHPA_def demo_renv_held_def
  by (simp add: recommend_request_of_def)

lemma demo_held:
  "calibrate default_config demo_renv_held demo_ob2 demo_state2 = Some demo_state2"
  "\<not> co_ShouldPatch (de_cap (reconcile_decide amd64 default_config demo_renv_held demo_ob2 demo_state2))"
  by code_simp+

definition demo_controller_held :: controller where
  "demo_controller_held = reconciles amd64 default_config demo_controller2 [(demo_renv_held, demo_key)]"

lemma demo_store_held: "ct_StateStore demo_controller_held = [demo_key \<mapsto> demo_state2]"
proof -
  have "start_state demo_ob2 [demo_key \<mapsto> demo_state2] = demo_state2"
    by (simp add: start_state_def demo_ob2_def demo_ob_def demo_state2_def demo_state_def)
  then show ?thesis
    using healthy_run(2) [OF demo_healthy_held, of demo_controller2 demo_state2 amd64] demo_held
    by (simp add: demo_controller_held_def reconciles_def demo_store2 applied_state_def)
qed

lemma demo_patches2:
  assumes "ct_StateStore c = [demo_key \<mapsto> demo_state2]"
  shows "\<exists>effs. ct_trace (snd (Reconcile amd64 default_config demo_renv2 demo_key c)) = ct_trace c @ effs \<and>
     EffScale \<lparr>nn_Namespace = ''prod'', nn_Name = ''web''\<rparr> 10 None \<in> set effs"
  using healthy_run(1) [OF demo_healthy2, of c demo_state2 amd64] demo_calibrate2 demo_decided2
  unfolding assms
  by (auto simp: apply_effects_def scale_effect_def)
     (auto simp: demo_renv2_def demo_renv_def demo_ob2_def demo_ob_def demo_deploy_def)

theorem cooldown_between_reconciles_witness:
  "re_now demo_renv + sint (ep_CooldownUp (ResolveEffectiveParams (buildParamSources default_config demo_cr))) * ns_Second
     \<le> re_now demo_renv2"
proof -
  obtain effs where e: "ct_trace (snd (Reconcile amd64 default_config demo_renv2 demo_key demo_controller_held)) = ct_trace demo_controller_held @ effs"
    "EffScale \<lparr>nn_Namespace = ''prod'', nn_Name = ''web''\<rparr> 10 None \<in> set effs"
    using demo_patches2 [OF demo_store_held] by blast
  have s: "re_Get demo_renv2 demo_key = Inr demo_cr" "observed_replicas demo_renv2 demo_cr = Some 7"
    "scale_sane default_config demo_cr 7"
    using demo_sane(1) by (simp_all add: demo_renv2_def demo_renv_def observed_replicas_def derefOr_def scale_sane_def)
  have "continues demo_key (re_now demo_renv) [(demo_renv_held, demo_key)]"
    by (simp add: continues_def not_gone_def demo_renv_held_def demo_renv2_def demo_renv_def)
  from cooldown_between_reconciles [OF demo_store_wf demo_Get demo_sane(2,1) _ demo_patches this
      demo_controller_held_def [unfolded demo_controller2_def] s e]
  show ?thesis by (simp add: demo_controller_def)
qed


text \<open>C10. Cooldowns survive a restart: a controller that holds no state for the resource and finds a
  last scale time in its status makes no patch before the cooldown of that direction has elapsed
  since that time, for sane sizes (\<open>scale_sane\<close>: at most \<open>2\<^sup>3\<^sup>0\<close> replicas, a step of at least one and
  below \<open>2\<^sup>3\<^sup>0\<close>, a replica range that is not empty).\<close>

theorem restart_keeps_cooldown:
  assumes "store_wf (ct_StateStore c)" and "ct_StateStore c key = None" and "re_Get env key = Inr a"
    and "st_LastScaleTime (aas_Status a) = Some last_scale" and "last_scale \<noteq> zero_time"
    and "observed_replicas env a = Some current" and "scale_sane cfg a current"
    and "ct_trace (snd (Reconcile pf cfg env key c)) = ct_trace c @ effs" and "EffScale k t err \<in> set effs"
  shows "(sint current < sint t \<longrightarrow>
       last_scale + sint (ep_CooldownUp (ResolveEffectiveParams (buildParamSources cfg a))) * ns_Second \<le> re_now env) \<and>
     (sint t < sint current \<longrightarrow>
       last_scale + sint (ep_CooldownDown (ResolveEffectiveParams (buildParamSources cfg a))) * ns_Second \<le> re_now env)"
proof (rule patch_times [OF assms(1,8,9,3,6,7)])
  fix ob st
  assume ob: "ob_key ob = key" "ob_aas ob = a"
    and up: "sint current < sint t \<Longrightarrow> sint (ep_CooldownUp (ResolveEffectiveParams (buildParamSources cfg a))) * ns_Second
       \<le> re_now env - ps_LastScaleUpTime (start_state ob (ct_StateStore c))"
    and down: "sint t < sint current \<Longrightarrow> sint (ep_CooldownDown (ResolveEffectiveParams (buildParamSources cfg a))) * ns_Second
       \<le> re_now env - ps_LastScaleDownTime (start_state ob (ct_StateStore c))"
  have "ps_LastScaleUpTime (start_state ob (ct_StateStore c)) = last_scale"
    "ps_LastScaleDownTime (start_state ob (ct_StateStore c)) = last_scale"
    using assms(2,4,5) ob
    by (simp_all add: start_state_def Let_def InitializeFromStatus_def buildStatusSeed_def fresh_state_def IsZero_def)
  then show ?thesis using up down by linarith
qed

definition demo_cr3 :: aas where
  "demo_cr3 = demo_cr\<lparr>aas_Status := zero_status\<lparr>st_LastScaleTime := Some 0\<rparr>\<rparr>"

definition demo_renv3 :: reconcile_env where
  "demo_renv3 = demo_renv\<lparr>re_Get := \<lambda>_. Inr demo_cr3\<rparr>"

definition demo_ob3 :: observed where
  "demo_ob3 = demo_ob\<lparr>ob_aas := demo_cr3\<rparr>"

definition demo_state3 :: per_cr_state where
  "demo_state3 = demo_state\<lparr>ps_LastScaleUpTime := 0, ps_LastScaleDownTime := 0\<rparr>"

lemma demo_effective3: "ResolveEffectiveParams (buildParamSources default_config demo_cr3) =
    ResolveEffectiveParams (buildParamSources default_config demo_cr)"
  by (simp add: buildParamSources_def demo_cr3_def) (simp add: demo_cr_def zero_status_def)

lemma demo_healthy3: "healthy default_config demo_renv3 demo_key demo_cr3 demo_ob3"
  using demo_healthy
  unfolding healthy_def observation_def not_paused_def findConflictingHPA_def demo_effective3
  by (simp add: demo_renv3_def demo_ob3_def demo_cr3_def being_deleted_def)
     (simp add: demo_renv_def demo_ob_def)

lemma demo_calibrate3: "calibrate default_config demo_renv3 demo_ob3 (start_state demo_ob3 NewStateStore) = Some demo_state3"
  by code_simp

lemma demo_decided3:
  "co_ShouldPatch (de_cap (reconcile_decide amd64 default_config demo_renv3 demo_ob3 demo_state3)) \<and>
   co_Target (de_cap (reconcile_decide amd64 default_config demo_renv3 demo_ob3 demo_state3)) = 7"
  by code_simp

lemma demo_patches3:
  "EffScale \<lparr>nn_Namespace = ''prod'', nn_Name = ''web''\<rparr> 7 None
     \<in> set (ct_trace (snd (Reconcile amd64 default_config demo_renv3 demo_key demo_controller)))"
  using healthy_run(1) [OF demo_healthy3, of demo_controller demo_state3 amd64] demo_calibrate3 demo_decided3
  unfolding demo_store
  by (auto simp: apply_effects_def scale_effect_def) (auto simp: demo_renv3_def demo_renv_def demo_ob3_def demo_ob_def demo_deploy_def)

theorem restart_keeps_cooldown_witness:
  "0 + sint (ep_CooldownUp (ResolveEffectiveParams (buildParamSources default_config demo_cr3))) * ns_Second
     \<le> re_now demo_renv3"
proof -
  have s: "scale_sane default_config demo_cr3 3" "observed_replicas demo_renv3 demo_cr3 = Some 3"
    using demo_sane unfolding scale_sane_def demo_effective3
    by (simp_all add: demo_cr3_def demo_renv3_def observed_replicas_def)
  show ?thesis
    using restart_keeps_cooldown [OF demo_store_wf _ _ _ _ s(2,1) _ demo_patches3, where last_scale = 0]
    by (simp add: demo_store NewStateStore_def demo_renv3_def zero_time_def)
       (simp add: demo_controller_def demo_cr3_def)
qed

section \<open>Explanations and status\<close>

lemma patch_reason:
  assumes "co_ShouldPatch (ApplyCapAndCooldown inp)"
  shows "co_Reason (ApplyCapAndCooldown inp) \<in> {ScaleUp, StepCappedUp, ScaleDown, StepCappedDown}"
proof -
  have "co_Target (ApplyCapAndCooldown inp) \<noteq> ci_Current inp" using assms ApplyCap_patch [of inp] by auto
  then show ?thesis unfolding ApplyCap_reason ApplyCap_target_word by (auto split: if_splits)
qed

lemma explanation_facts:
  assumes "store_wf (ct_StateStore c)" and "ct_trace (snd (Reconcile pf cfg env key c)) = ct_trace c @ effs"
  shows "((\<exists>q. EffNotify q \<in> set effs) \<longleftrightarrow> (\<exists>k t. EffScale k t None \<in> set effs)) \<and>
     (EffNotify q \<in> set effs \<longrightarrow> (\<exists>k. EffScale k (er_TargetReplicas q) None \<in> set effs) \<and>
        er_CurrentReplicas q \<noteq> er_TargetReplicas q \<and>
        er_Reason q \<in> {ScaleUp, StepCappedUp, ScaleDown, StepCappedDown})"
proof (cases "list_all quiet effs")
  case True
  then show ?thesis by (auto simp: list_all_iff)
next
  case False
  then obtain e where "e \<in> set effs" "\<not> quiet e" by (auto simp: list_all_iff)
  then obtain a ob st pre where o: "effs = pre @ apply_effects pf env (reconcile_decide pf cfg env ob st)"
    "list_all (\<lambda>e. quiet e \<and> \<not> is_status e) pre"
    using scale_origin [OF assms] by metis
  let ?d = "reconcile_decide pf cfg env ob st"
  have p: "EffNotify q \<notin> set pre" "EffScale k t err \<notin> set pre" for q k t err
    using o(2) by (auto simp: list_all_iff)
  have "co_ShouldPatch (de_cap ?d) \<Longrightarrow> ob_currentReplicas ?d \<noteq> co_Target (de_cap ?d) \<and>
      co_Reason (de_cap ?d) \<in> {ScaleUp, StepCappedUp, ScaleDown, StepCappedDown}"
    using ApplyCap_patch [of "cap_input_of pf env ob st"] patch_reason unfolding de_cap_eq by auto
  then show ?thesis
    unfolding o(1) using p
    by (auto simp: apply_effects_def finish_effects_def scale_effect_def explain_of_def Let_def)
qed

text \<open>C13. Explanations are asked for exactly for real scalings: a reconcile sends an explanation request
  iff its patch of the scale subresource succeeded, the request names the replica count that was
  patched, and its reason is one of the four scaling tokens, never a CRD-binding one.\<close>

theorem explanation_iff_scaled:
  assumes "store_wf (ct_StateStore c)" and "ct_trace (snd (Reconcile pf cfg env key c)) = ct_trace c @ effs"
  shows "((\<exists>q. EffNotify q \<in> set effs) \<longleftrightarrow> (\<exists>k t. EffScale k t None \<in> set effs)) \<and>
     (EffNotify q \<in> set effs \<longrightarrow> (\<exists>k. EffScale k (er_TargetReplicas q) None \<in> set effs) \<and>
        er_CurrentReplicas q \<noteq> er_TargetReplicas q \<and>
        er_Reason q \<in> {ScaleUp, StepCappedUp, ScaleDown, StepCappedDown})"
  using assms by (rule explanation_facts)

theorem explanation_iff_scaled_witness:
  "\<exists>q. EffNotify q \<in> set (ct_trace (snd (Reconcile amd64 default_config demo_renv demo_key demo_controller)))"
  using explanation_iff_scaled [OF demo_store_wf, of amd64 default_config demo_renv demo_key] demo_patches
  by (auto simp: demo_controller_def)


text \<open>A status write of the reconciler: the object as read, with its status changed outside the
  classifier's part.\<close>

definition keeps_classification :: "aas \<Rightarrow> effect \<Rightarrow> bool" where
  "keeps_classification a e \<longleftrightarrow> (\<forall>b err. e = EffStatusUpdate b err \<longrightarrow>
     (\<exists>s. b = a\<lparr>aas_Status := s\<rparr> \<and> st_ClassifiedParams s = st_ClassifiedParams (aas_Status a)))"

lemma finish_effects_keep: "list_all (keeps_classification (ob_aas d)) (finish_effects pf env d)"
  by (auto simp: finish_effects_def keeps_classification_def final_status_def Let_def)

lemma apply_effects_keep: "list_all (keeps_classification (ob_aas d)) (apply_effects pf env d)"
  using finish_effects_keep [of d pf env]
  by (auto simp: apply_effects_def scale_effect_def keeps_classification_def)

lemma not_status_keeps: "list_all (\<lambda>e. quiet e \<and> \<not> is_status e) effs \<Longrightarrow> list_all (keeps_classification a) effs"
  by (auto simp: list_all_iff keeps_classification_def)

lemma paused_keep:
  assumes "ct_trace c0 = ct_trace c"
  shows "\<exists>effs. ct_trace (snd (handleKillSwitch cfg env a c0)) = ct_trace c @ effs \<and> list_all (keeps_classification a) effs"
    "\<exists>effs. ct_trace (snd (handleConflict cfg env a n c0)) = ct_trace c @ effs \<and> list_all (keeps_classification a) effs"
  using assms by (auto simp: handleKillSwitch_def handleConflict_def Let_def keeps_classification_def intro!: exI)

lemma calibrate_keep:
  assumes "quiet_ext c c1"
  shows "\<exists>effs. ct_trace (snd (reconcile_calibrate pf cfg env ob c1)) = ct_trace c @ effs \<and>
    list_all (keeps_classification (ob_aas ob)) effs"
proof -
  obtain pre where p: "ct_trace c1 = ct_trace c @ pre" "list_all (\<lambda>e. quiet e \<and> \<not> is_status e) pre"
    using assms by (auto simp: quiet_ext_def)
  show ?thesis
    using not_status_keeps [OF p(2), of "ob_aas ob"] apply_effects_keep p(1)
    by (auto simp: reconcile_calibrate_eq Let_def reconcile_apply_trace split: option.splits)
       (metis reconcile_decide_simps(1))
qed

lemma reconcile_keeps:
  assumes "re_Get env key = Inr a"
  shows "\<exists>effs. ct_trace (snd (Reconcile pf cfg env key c)) = ct_trace c @ effs \<and>
     list_all (keeps_classification a) effs"
proof -
  obtain c0 where c0: "ct_StateStore c0 = ct_StateStore c" "ct_explainCh c0 = ct_explainCh c"
    "ct_trace c0 = ct_trace c" and r: "Reconcile pf cfg env key c =
      (if annotation (aas_Annotations a) AnnotationKillSwitch = ''true'' then handleKillSwitch cfg env a c0
       else if being_deleted a then (Return 0 None, c0)
       else case findConflictingHPA env a of
              Inl e \<Rightarrow> (Return 0 (Some e), c0)
            | Inr (Some hpaName) \<Rightarrow> handleConflict cfg env a hpaName c0
            | Inr None \<Rightarrow> reconcile_observe pf cfg env key a c0)"
    using Reconcile_Get [OF assms] .
  have q: "quiet_ext c c0" using c0 by (simp add: quiet_ext_def)
  have "\<exists>effs. ct_trace (snd (reconcile_observe pf cfg env key a c0)) = ct_trace c @ effs \<and>
      list_all (keeps_classification a) effs"
    using observe_shape [OF q, of cfg key pf env a]
  proof
    assume "gives_up cfg key c (reconcile_observe pf cfg env key a c0)"
    then show ?thesis using not_status_keeps by (auto simp: gives_up_def quiet_ext_def)
  next
    assume "hot_call pf cfg env key a c (reconcile_observe pf cfg env key a c0)"
    then show ?thesis using calibrate_keep unfolding hot_call_def observation_def by metis
  qed
  then show ?thesis
    unfolding r using paused_keep [OF c0(3)] c0(3) by (auto split: sum.splits option.splits)
qed

text \<open>The two writers of the status do not overwrite each other's part on purpose: every status
  update of a reconcile writes back the object it has read with \<^verbatim>\<open>classifiedParams\<close>, spec, name and
  annotations unchanged.\<close>

theorem hot_path_keeps_classification:
  assumes "re_Get env key = Inr a"
  shows "\<exists>effs. ct_trace (snd (Reconcile pf cfg env key c)) = ct_trace c @ effs \<and>
     list_all (keeps_classification a) effs"
  using assms by (rule reconcile_keeps)

theorem hot_path_keeps_classification_witness:
  "\<exists>effs. ct_trace (snd (Reconcile amd64 default_config demo_renv demo_key demo_controller)) = effs \<and>
     list_all (keeps_classification demo_cr) effs"
  using hot_path_keeps_classification [OF demo_Get, of amd64 default_config demo_controller]
  by (auto simp: demo_controller_def)

section \<open>Outages and deletion\<close>

text \<open>One of the services the hot path needs does not answer, or has too little data.\<close>

definition short_history :: "config \<Rightarrow> string + prom_sample list \<Rightarrow> bool" where
  "short_history cfg r \<longleftrightarrow>
     (case r of Inl _ \<Rightarrow> True | Inr samples \<Rightarrow> int (length samples) < sint (cfg_HotPathMinPoints cfg))"

definition outage :: "config \<Rightarrow> reconcile_env \<Rightarrow> namespaced_name \<Rightarrow> aas \<Rightarrow> bool" where
  "outage cfg env key a \<longleftrightarrow>
     (\<exists>e. re_InstantQuery env (InstantRPS (ref_Name (spec_TargetRef (aas_Spec a)))) = Inl e) \<or>
     (\<forall>q s e d. short_history cfg (re_RangeQuery env q s e d)) \<or>
     (\<forall>q s e d samples. re_RangeQuery env q s e d = Inr samples \<longrightarrow>
        (\<exists>err. re_Recommend env (recommend_request_of cfg env key a samples) = Inl err)) \<or>
     observed_replicas env a = None"

lemma metrics_short_gives_up:
  assumes "quiet_ext c c1" and "short_history cfg r"
  shows "gives_up cfg key c (case r of
      Inl e \<Rightarrow> metrics_unavailable cfg a e c1
    | Inr samples \<Rightarrow> if int (length samples) < sint (cfg_HotPathMinPoints cfg)
        then metrics_unavailable cfg a (msg samples) c1 else cont samples)"
  using assms by (auto simp: short_history_def metrics_unavailable_gives_up split: sum.splits)

lemma target_missing_gives_up:
  assumes "quiet_ext c c1" and "observed_replicas env a = None"
  shows "gives_up cfg key c (reconcile_target pf cfg env key a rps resp c1)"
  using assms by (auto simp: reconcile_target_def observed_replicas_def gives_up_def split: sum.splits)

lemma outage_gives_up:
  assumes "quiet_ext c c1" and "outage cfg env key a"
  shows "gives_up cfg key c (reconcile_observe pf cfg env key a c1)"
proof -
  consider (instant) e where "re_InstantQuery env (InstantRPS (ref_Name (spec_TargetRef (aas_Spec a)))) = Inl e"
    | (history) "\<forall>q s e d. short_history cfg (re_RangeQuery env q s e d)"
    | (forecast) "\<forall>q s e d samples. re_RangeQuery env q s e d = Inr samples \<longrightarrow>
        (\<exists>err. re_Recommend env (recommend_request_of cfg env key a samples) = Inl err)"
    | (target) "observed_replicas env a = None"
    using assms(2) unfolding outage_def by (elim disjE exE)
  then show ?thesis
  proof cases
    case instant
    then show ?thesis using assms(1) by (simp add: reconcile_observe_def metrics_unavailable_gives_up)
  next
    case history
    then show ?thesis using assms(1)
      by (simp add: reconcile_observe_def Let_def metrics_short_gives_up metrics_unavailable_gives_up
          split: sum.split)
  next
    case forecast
    have "gives_up cfg key c (case re_Recommend env (recommend_request_of cfg env key a samples) of
          Inl e \<Rightarrow> (requeue cfg, (emit (EffEvent k Warning r (msg e)) c2)\<lparr>ct_metrics := x\<rparr>)
        | Inr resp \<Rightarrow> cont resp)" if "quiet_ext c c2" "re_RangeQuery env q s e d = Inr samples"
      for q s e d samples k r msg c2 x cont
      using forecast [rule_format, OF that(2)] that(1) by (auto simp: gives_up_def)
    then show ?thesis using assms(1)
      by (simp add: reconcile_observe_def Let_def metrics_unavailable_gives_up split: sum.split)
  next
    case target
    then show ?thesis using assms(1)
      by (simp add: reconcile_observe_def Let_def target_missing_gives_up metrics_unavailable_gives_up
          gives_up_def [of _ _ _ "(_, _)"] split: sum.split)
  qed
qed

lemma outage_quiet:
  assumes "re_Get env key = Inr a" and "not_paused env a" and "outage cfg env key a"
  shows "fst (Reconcile pf cfg env key c) = requeue cfg \<and> quiet_ext c (snd (Reconcile pf cfg env key c))"
proof -
  obtain c0 where c0: "ct_StateStore c0 = ct_StateStore c" "ct_explainCh c0 = ct_explainCh c"
    "ct_trace c0 = ct_trace c" and r: "Reconcile pf cfg env key c =
      (if annotation (aas_Annotations a) AnnotationKillSwitch = ''true'' then handleKillSwitch cfg env a c0
       else if being_deleted a then (Return 0 None, c0)
       else case findConflictingHPA env a of
              Inl e \<Rightarrow> (Return 0 (Some e), c0)
            | Inr (Some hpaName) \<Rightarrow> handleConflict cfg env a hpaName c0
            | Inr None \<Rightarrow> reconcile_observe pf cfg env key a c0)"
    using Reconcile_Get [OF assms(1)] .
  have q: "quiet_ext c c0" using c0 by (simp add: quiet_ext_def)
  have "gives_up cfg key c (reconcile_observe pf cfg env key a c0)"
    by (rule outage_gives_up [OF q assms(3)])
  then show ?thesis using r assms(2) by (simp add: not_paused_def gives_up_def)
qed

text \<open>C12. Outages degrade gracefully: when Prometheus, the Forecast Service or the target deployment is
  unavailable, or the history is too short, the reconcile asks to be run again at the normal
  interval without an error, and neither scales, nor writes a status, nor touches the decision state.\<close>

theorem outage_requeues:
  assumes "re_Get env key = Inr a" and "not_paused env a" and "outage cfg env key a"
  shows "fst (Reconcile pf cfg env key c) = requeue cfg \<and> quiet_ext c (snd (Reconcile pf cfg env key c))"
  using assms by (rule outage_quiet)

theorem outage_requeues_witness:
  "fst (Reconcile amd64 default_config (demo_renv\<lparr>re_Recommend := \<lambda>_. Inl ''HTTP 503''\<rparr>) demo_key demo_controller) = requeue default_config"
  using outage_requeues [of "demo_renv\<lparr>re_Recommend := \<lambda>_. Inl ''HTTP 503''\<rparr>" demo_key demo_cr default_config amd64 demo_controller]
    demo_not_paused demo_Get
  by (simp add: outage_def not_paused_def findConflictingHPA_def)

text \<open>C14. A deleted resource leaves nothing behind: when the object is gone, the reconcile reports no
  error, forgets the decision state of that resource and stops its classifier, so a resource
  created later under the same name starts from a fresh state; other resources keep theirs.\<close>

theorem deletion_cleans_up:
  assumes "re_Get env key = Inl (ApiNotFound msg)" and "ct_Classifier c = Some m"
  shows "fst (Reconcile pf cfg env key c) = Return 0 None \<and>
     fst (GetOrCreate (ct_StateStore (snd (Reconcile pf cfg env key c))) key n) = fresh_state n \<and>
     (\<exists>m'. ct_Classifier (snd (Reconcile pf cfg env key c)) = Some m' \<and> \<not> HasWorker m' key \<and>
        (k \<noteq> key \<longrightarrow> HasWorker m' k = HasWorker m k \<and>
           store_Get (ct_StateStore (snd (Reconcile pf cfg env key c))) k = store_Get (ct_StateStore c) k))"
  using assms state_store.removed_starts_fresh [of "ct_StateStore c" key n]
  by (simp add: Reconcile_def IgnoreNotFound_def IsNotFound_def classifiers.has_stop state_store.remove)

theorem deletion_cleans_up_witness:
  "\<exists>m'. ct_Classifier (snd (Reconcile amd64 default_config (demo_renv\<lparr>re_Get := \<lambda>_. Inl (ApiNotFound ''web'')\<rparr>) demo_key
      (demo_controller\<lparr>ct_Classifier := Some (Ensure (NewManager demo_cfg) demo_cr)\<rparr>))) = Some m' \<and> \<not> HasWorker m' demo_key"
  using deletion_cleans_up [of "demo_renv\<lparr>re_Get := \<lambda>_. Inl (ApiNotFound ''web'')\<rparr>" demo_key "''web''"
      "demo_controller\<lparr>ct_Classifier := Some (Ensure (NewManager demo_cfg) demo_cr)\<rparr>" "Ensure (NewManager demo_cfg) demo_cr" amd64 default_config]
  by auto

end
