(* ===== verification/ClassifierWorker.thy ===== *)
theory ClassifierWorker
  imports Manager
begin

text \<open>
  \<^verbatim>\<open>internal/classifier/worker.go\<close>: the cold-path goroutine of one resource. One classification is
  a function of the worker and of the answers its calls get (\<open>class_env\<close>: the clock at each
  reading, Prometheus, and the API server at each request), returning whether it succeeded, the
  worker, and the effects in order. The goroutine itself (\<^verbatim>\<open>Run\<close> and \<^verbatim>\<open>runOnce\<close>, with their panic
  boundary) is the step relation \<open>wstep\<close>.

  Lemmas: a classification writes nothing but \<^verbatim>\<open>status.classifiedParams\<close>, and only admissible
  values; it moves the dedup clock iff it wrote; the reclassify annotation is removed only after a
  successful write; a ticker interval that is not positive makes every pass panic after its first
  classification.
\<close>

definition PanicBackoff :: duration where "PanicBackoff = Duration_of_i32 60 * Second"

record class_env =
  ce_now_start :: time \<comment> \<open>end of the query window\<close>
  ce_now_patch :: time \<comment> \<open>ClassifiedAt\<close>
  ce_now_done :: time \<comment> \<open>lastClassifyAt\<close>
  ce_RangeQuery :: "string \<Rightarrow> time \<Rightarrow> time \<Rightarrow> duration \<Rightarrow> string + prom_sample list"
  ce_Get_patch :: "namespaced_name \<Rightarrow> api_error + aas"
  ce_StatusUpdate :: "aas \<Rightarrow> api_error option"
  ce_EventRecorder :: bool \<comment> \<open>not nil\<close>
  ce_Get_event :: "namespaced_name \<Rightarrow> api_error + aas"
  ce_Get_annotation :: "namespaced_name \<Rightarrow> api_error + aas"
  ce_Update :: "aas \<Rightarrow> api_error option"

definition SetLastClassifyAt :: "worker \<Rightarrow> time \<Rightarrow> worker" where
  "SetLastClassifyAt w t = w\<lparr>wk_lastClassifyAt := t\<rparr>"

definition LastClassifyAt :: "worker \<Rightarrow> time" where
  "LastClassifyAt w = wk_lastClassifyAt w"

definition ShouldRunOnGeneration :: "worker \<Rightarrow> time \<Rightarrow> bool" where
  "ShouldRunOnGeneration w now =
     (let dedup = word_of_int (wc_DedupSeconds (wk_Config w)) * Second
      in dedup <s Sub now (wk_lastClassifyAt w))"

definition historyPointsAsInt32 :: "int \<Rightarrow> int32" where
  "historyPointsAsInt32 v = (if v > MaxInt32 then i32 MaxInt32 else if v < MinInt32 then i32 MinInt32 else i32 v)"

definition formatClassifiedMessage :: "'a pipeline_result_scheme \<Rightarrow> string" where
  "formatClassifiedMessage r =
     ''pattern='' @ pr_Pattern r @ '' confidence='' @ pr_Confidence r
     @ '' historyPoints='' @ itoa (int (pr_HistoryPoints r))
     @ '' scaleUpCooldown='' @ itoa32 (co_ScaleUpCooldown (pr_Params r))
     @ ''s scaleDownCooldown='' @ itoa32 (co_ScaleDownCooldown (pr_Params r))
     @ ''s maxStep='' @ itoa32 (co_MaxStep (pr_Params r))
     @ '' forecaster='' @ co_PreferredForecaster (pr_Params r)"

definition worker_emitEvent :: "class_env \<Rightarrow> worker \<Rightarrow> string \<Rightarrow> string \<Rightarrow> effect list" where
  "worker_emitEvent env w reason message =
     (if \<not> ce_EventRecorder env then []
      else case ce_Get_event env (wk_Key w) of
        Inl _ \<Rightarrow> []
      | Inr a \<Rightarrow> [EffEvent (aas_key a) Normal (PascalReason reason) (reason @ '' '' @ message)])"

datatype patch_error = GetCR api_error | UpdateStatus api_error

definition new_params :: "class_env \<Rightarrow> 'a pipeline_result_scheme \<Rightarrow> classified_params" where
  "new_params env result =
     \<lparr>cp_Pattern = pr_Pattern result,
      cp_ScaleUpCooldownSeconds = co_ScaleUpCooldown (pr_Params result),
      cp_ScaleDownCooldownSeconds = co_ScaleDownCooldown (pr_Params result),
      cp_MaxStepSize = co_MaxStep (pr_Params result),
      cp_PreferredForecaster = co_PreferredForecaster (pr_Params result),
      cp_ClassifiedAt = ce_now_patch env,
      cp_HistoryPoints = historyPointsAsInt32 (int (pr_HistoryPoints result)),
      cp_Confidence = pr_Confidence result, cp_Context = None\<rparr>"

definition set_params :: "aas \<Rightarrow> classified_params \<Rightarrow> aas" where
  "set_params a cp = a\<lparr>aas_Status := (aas_Status a)\<lparr>st_ClassifiedParams := Some cp\<rparr>\<rparr>"

definition update_status :: "class_env \<Rightarrow> aas \<Rightarrow> patch_error option \<times> effect list" where
  "update_status env a =
     (let err = ce_StatusUpdate env a in (map_option UpdateStatus err, [EffStatusUpdate a err]))"

definition patchStatus :: "class_env \<Rightarrow> worker \<Rightarrow> pipeline_result \<Rightarrow> patch_error option \<times> effect list" where
  "patchStatus env w result =
     (case ce_Get_patch env (wk_Key w) of
        Inl e \<Rightarrow> (Some (GetCR e), [])
      | Inr a \<Rightarrow> update_status env (set_params a (new_params env result)))"

definition context_of :: "context_output \<Rightarrow> context_fields" where
  "context_of c = \<lparr>cf_BaselineRPS = cx_BaselineRPS c, cf_PeakP95RPS = cx_PeakP95RPS c,
     cf_Trend24hSlope = cx_Trend24hSlope c, cf_HourlyProfile = cx_HourlyProfile c,
     cf_HourlyProfileValid = cx_HourlyProfileValid c\<rparr>"

definition patchStatusV2 :: "class_env \<Rightarrow> worker \<Rightarrow> pipeline_result_v2 \<Rightarrow> patch_error option \<times> effect list" where
  "patchStatusV2 env w result =
     (case ce_Get_patch env (wk_Key w) of
        Inl e \<Rightarrow> (Some (GetCR e), [])
      | Inr a \<Rightarrow>
          let cp = new_params env result;
              cp = (case pr_Context result of None \<Rightarrow> cp | Some c \<Rightarrow> cp\<lparr>cp_Context := Some (context_of c)\<rparr>)
          in update_status env (set_params a cp))"

text \<open>The message of a pattern-unknown event.\<close>

definition insufficient :: "nat \<Rightarrow> worker \<Rightarrow> string" where
  "insufficient n w = ''insufficient history: '' @ itoa (int n) @ '' points (need ''
     @ itoa (wc_MinPoints (wk_Config w)) @ '')''"

definition runClassification ::
    "go_platform \<Rightarrow> class_env \<Rightarrow> worker \<Rightarrow> bool \<times> worker \<times> effect list" where
  "runClassification pf env w =
     (let end' = ce_now_start env;
          start = Add end' (- wc_HistoryHours (wk_Config w));
          step = word_of_int (wc_ResolutionMin (wk_Config w)) * Minute;
          step = (if step \<le>s 0 then Minute else step);
          query = RangeRPS (wk_DeploymentName w);
          q = EffRangeQuery query start end' step
      in case ce_RangeQuery env query start end' step of
        Inl _ \<Rightarrow> (False, w, [q])
      | Inr samples \<Rightarrow>
          let series = map smp_Value samples in
          if wc_ResolutionMin (wk_Config w) > 0 then
            let cfg = \<lparr>pc_ResolutionMin = wc_ResolutionMin (wk_Config w),
                       pc_HourlyProfileMinHours = wc_HourlyProfileMinHours (wk_Config w),
                       pc_CVGuardMeanRPS = wc_CVGuardMeanRPS (wk_Config w),
                       pc_StartHourUTC = Hour_UTC start\<rparr>
            in case RunPipelineV2 pf series (wc_HighConfPoints (wk_Config w)) (wc_MinPoints (wk_Config w))
                      (wk_MinReplicas w) (wk_MaxReplicas w) cfg of
                 Inl _ \<Rightarrow> (False, w, q # worker_emitEvent env w PatternUnknown (insufficient (length series) w))
               | Inr v2Result \<Rightarrow>
                   let (patchErr, effs) = patchStatusV2 env w v2Result in
                   if patchErr \<noteq> None then (False, w, q # effs)
                   else (True, w\<lparr>wk_lastClassifyAt := ce_now_done env\<rparr>,
                         q # effs @ worker_emitEvent env w PatternClassified (formatClassifiedMessage v2Result))
          else case RunPipeline pf series (wc_HighConfPoints (wk_Config w)) (wc_MinPoints (wk_Config w))
                      (wk_MinReplicas w) (wk_MaxReplicas w) of
                 Inl _ \<Rightarrow> (False, w, q # worker_emitEvent env w PatternUnknown (insufficient (length series) w))
               | Inr result \<Rightarrow>
                   let (err, effs) = patchStatus env w result in
                   if err \<noteq> None then (False, w, q # effs)
                   else (True, w\<lparr>wk_lastClassifyAt := ce_now_done env\<rparr>,
                         q # effs @ worker_emitEvent env w PatternClassified (formatClassifiedMessage result)))"

definition removeReclassifyAnnotation :: "class_env \<Rightarrow> worker \<Rightarrow> effect list" where
  "removeReclassifyAnnotation env w =
     (case ce_Get_annotation env (wk_Key w) of
        Inl _ \<Rightarrow> []
      | Inr a \<Rightarrow>
          (case aas_Annotations a AnnotationReclassify of
             None \<Rightarrow> []
           | Some _ \<Rightarrow>
               let a = a\<lparr>aas_Annotations := (aas_Annotations a)(AnnotationReclassify := None)\<rparr>
               in [EffUpdate a (ce_Update env a)]))"

section \<open>The goroutine\<close>

datatype worker_pc = Entry | Looping | BackingOff | Exited

record goroutine =
  gr_pc :: worker_pc
  gr_worker :: worker
  gr_reclassifyCh :: "unit channel"
  gr_generationCh :: "unit channel"
  gr_trace :: "effect list"

definition classify_step :: "go_platform \<Rightarrow> class_env \<Rightarrow> goroutine \<Rightarrow> bool \<times> goroutine" where
  "classify_step pf env g =
     (case runClassification pf env (gr_worker g) of (ok, w, effs) \<Rightarrow>
        (ok, g\<lparr>gr_worker := w, gr_trace := gr_trace g @ effs\<rparr>))"

text \<open>\<^verbatim>\<open>time.NewTicker\<close> panics when its interval is not positive; the deferred recovery then backs off.\<close>

definition enter_loop :: "goroutine \<Rightarrow> goroutine" where
  "enter_loop g = g\<lparr>gr_pc := (if 0 <s wc_Interval (wk_Config (gr_worker g)) then Looping else BackingOff)\<rparr>"

definition serve_reclassify :: "go_platform \<Rightarrow> class_env \<Rightarrow> goroutine \<Rightarrow> goroutine" where
  "serve_reclassify pf env g =
     (let g = g\<lparr>gr_reclassifyCh := snd (try_recv (gr_reclassifyCh g))\<rparr>;
          (ok, g) = classify_step pf env g
      in if ok then g\<lparr>gr_trace := gr_trace g @ removeReclassifyAnnotation env (gr_worker g)\<rparr> else g)"

definition serve_generation :: "go_platform \<Rightarrow> class_env \<Rightarrow> time \<Rightarrow> goroutine \<Rightarrow> goroutine" where
  "serve_generation pf env now g =
     (let g = g\<lparr>gr_generationCh := snd (try_recv (gr_generationCh g))\<rparr>
      in if ShouldRunOnGeneration (gr_worker g) now then snd (classify_step pf env g) else g)"

inductive wstep :: "go_platform \<Rightarrow> goroutine \<Rightarrow> goroutine \<Rightarrow> bool" for pf where
  first_run: "gr_pc g = Entry \<Longrightarrow> wstep pf g (enter_loop (snd (classify_step pf env g)))"
| timer: "gr_pc g = Looping \<Longrightarrow> wstep pf g (snd (classify_step pf env g))"
| reclassify: "gr_pc g = Looping \<Longrightarrow> ch_buf (gr_reclassifyCh g) \<noteq> [] \<Longrightarrow> wstep pf g (serve_reclassify pf env g)"
| generation: "gr_pc g = Looping \<Longrightarrow> ch_buf (gr_generationCh g) \<noteq> [] \<Longrightarrow> wstep pf g (serve_generation pf env now g)"
| backed_off: "gr_pc g = BackingOff \<Longrightarrow> wstep pf g (g\<lparr>gr_pc := Entry\<rparr>)"
| cancelled: "gr_pc g \<noteq> Exited \<Longrightarrow> wstep pf g (g\<lparr>gr_pc := Exited\<rparr>)"
| signalled: "wstep pf g (g\<lparr>gr_reclassifyCh := dropAndPush (gr_reclassifyCh g)\<rparr>)"
| rollout: "wstep pf g (g\<lparr>gr_generationCh := dropAndPush (gr_generationCh g)\<rparr>)"

inductive_cases wstepE: "wstep pf g g'"

definition start_worker :: "worker \<Rightarrow> goroutine" where
  "start_worker w = \<lparr>gr_pc = Entry, gr_worker = w, gr_reclassifyCh = make_chan 1,
     gr_generationCh = make_chan 1, gr_trace = []\<rparr>"

inductive wreach :: "go_platform \<Rightarrow> worker \<Rightarrow> goroutine \<Rightarrow> bool" for pf w where
  start: "wreach pf w (start_worker w)"
| step: "wreach pf w g \<Longrightarrow> wstep pf g g' \<Longrightarrow> wreach pf w g'"


section \<open>What a classification writes\<close>

definition params_admissible :: "int32 \<Rightarrow> int32 \<Rightarrow> classified_params \<Rightarrow> bool" where
  "params_admissible mn mx cp \<longleftrightarrow>
     cp_Pattern cp \<in> known_patterns \<and> cp_Confidence cp \<in> {''high'', ''medium''} \<and>
     30 \<le> sint (cp_ScaleUpCooldownSeconds cp) \<and> sint (cp_ScaleUpCooldownSeconds cp) \<le> 180 \<and>
     60 \<le> sint (cp_ScaleDownCooldownSeconds cp) \<and> sint (cp_ScaleDownCooldownSeconds cp) \<le> 600 \<and>
     1 \<le> sint (cp_MaxStepSize cp) \<and> sint (cp_MaxStepSize cp) \<le> max 1 (sint (mx - mn)) \<and>
     cp_PreferredForecaster cp \<in> {''linear_extrap'', ''prophet'', ''gbdt_quantile''} \<and>
     0 \<le> sint (cp_HistoryPoints cp)"

lemma historyPoints_nonneg: "0 \<le> sint (historyPointsAsInt32 (int n))"
  by (simp add: historyPointsAsInt32_def sint_i32 in_i32_def)

lemma new_params_admissible:
  "publishable mn mx (pr_Pattern r) (pr_Confidence r) (pr_Params r) \<Longrightarrow> params_admissible mn mx (new_params env r)"
  by (simp add: publishable_def params_admissible_def new_params_def classified_ok_def historyPoints_nonneg)

lemma params_admissible_context: "params_admissible mn mx (cp\<lparr>cp_Context := c\<rparr>) \<longleftrightarrow> params_admissible mn mx cp"
  by (simp add: params_admissible_def)

lemma RunPipelineV2_Inr:
  assumes "RunPipelineV2 pf series hi lo mn mx cfg = Inr r"
  shows "publishable mn mx (pr_Pattern r) (pr_Confidence r) (pr_Params r)"
  using RunPipelineV2_result [where pf = pf and series = series and hi = hi and lo = lo and mn = mn and mx = mx and cfg = cfg] assms by simp

lemma RunPipeline_Inr:
  assumes "RunPipeline pf series hi lo mn mx = Inr r"
  shows "publishable mn mx (pr_Pattern r) (pr_Confidence r) (pr_Params r)"
  using RunPipeline_cases [of pf series hi lo mn mx] assms by auto

fun is_update :: "effect \<Rightarrow> bool" where
  "is_update (EffUpdate _ _) = True" | "is_update _ = False"

text \<open>The outcomes of one classification: nothing written, or one status update of the resource as
  just read, with admissible parameters.\<close>

definition wrote_nothing :: "effect list \<Rightarrow> bool" where
  "wrote_nothing effs \<longleftrightarrow> list_all (\<lambda>e. status_written e = None \<and> \<not> is_scale e \<and> \<not> is_update e) effs"

definition classification_outcome ::
    "class_env \<Rightarrow> worker \<Rightarrow> bool \<Rightarrow> worker \<Rightarrow> effect list \<Rightarrow> bool" where
  "classification_outcome env w ok w' effs \<longleftrightarrow>
     (\<not> ok \<and> w' = w \<and> wrote_nothing effs) \<or>
     (\<exists>pre post a cp err. effs = pre @ EffStatusUpdate (set_params a cp) err # post \<and>
        wrote_nothing pre \<and> wrote_nothing post \<and>
        ce_Get_patch env (wk_Key w) = Inr a \<and> params_admissible (wk_MinReplicas w) (wk_MaxReplicas w) cp \<and>
        err = ce_StatusUpdate env (set_params a cp) \<and>
        ok = (err = None) \<and>
        w' = (if ok then w\<lparr>wk_lastClassifyAt := ce_now_done env\<rparr> else w))"

lemma wrote_nothing_simps [simp]:
  "wrote_nothing []" "wrote_nothing (EffRangeQuery q s e d # effs) = wrote_nothing effs"
  "wrote_nothing (worker_emitEvent env w reason msg)"
  by (simp_all add: wrote_nothing_def worker_emitEvent_def split: sum.splits)

lemma outcome_update:
  assumes "ce_Get_patch env (wk_Key w) = Inr a" "params_admissible (wk_MinReplicas w) (wk_MaxReplicas w) cp"
  shows "ce_StatusUpdate env (set_params a cp) = None \<Longrightarrow>
      classification_outcome env w True (w\<lparr>wk_lastClassifyAt := ce_now_done env\<rparr>)
        (EffRangeQuery q s e d # EffStatusUpdate (set_params a cp) None # worker_emitEvent env w r m)"
    and "ce_StatusUpdate env (set_params a cp) = Some err \<Longrightarrow>
      classification_outcome env w False w [EffRangeQuery q s e d, EffStatusUpdate (set_params a cp) (Some err)]"
  unfolding classification_outcome_def using assms
  by (metis append_Cons append_Nil wrote_nothing_simps option.distinct(1))+

lemma runClassification_outcome:
  "case runClassification pf env w of (ok, w', effs) \<Rightarrow> classification_outcome env w ok w' effs"
proof -
  define st where "st = Add (ce_now_start env) (- wc_HistoryHours (wk_Config w))"
  define d where "d = (if word_of_int (wc_ResolutionMin (wk_Config w)) * Minute \<le>s 0 then Minute
      else word_of_int (wc_ResolutionMin (wk_Config w)) * Minute)"
  have n: "classification_outcome env w False w (EffRangeQuery (RangeRPS (wk_DeploymentName w)) st (ce_now_start env) d # effs)"
    if "wrote_nothing effs" for effs
    using that by (simp add: classification_outcome_def)
  have one: "case patchStatus env w r of (err, effs) \<Rightarrow> if err \<noteq> None
        then classification_outcome env w False w (EffRangeQuery q s e dd # effs)
        else classification_outcome env w True (w\<lparr>wk_lastClassifyAt := ce_now_done env\<rparr>)
          (EffRangeQuery q s e dd # effs @ worker_emitEvent env w rr m)"
    if "publishable (wk_MinReplicas w) (wk_MaxReplicas w) (pr_Pattern r) (pr_Confidence r) (pr_Params r)" for r q s e dd rr m
    using outcome_update new_params_admissible [OF that]
    by (auto simp: patchStatus_def update_status_def Let_def classification_outcome_def [of env w False w "[_]"]
        split: sum.splits)
  have two: "case patchStatusV2 env w r of (err, effs) \<Rightarrow> if err \<noteq> None
        then classification_outcome env w False w (EffRangeQuery q s e dd # effs)
        else classification_outcome env w True (w\<lparr>wk_lastClassifyAt := ce_now_done env\<rparr>)
          (EffRangeQuery q s e dd # effs @ worker_emitEvent env w rr m)"
    if "publishable (wk_MinReplicas w) (wk_MaxReplicas w) (pr_Pattern r) (pr_Confidence r) (pr_Params r)" for r q s e dd rr m
    using outcome_update new_params_admissible [OF that]
    by (auto simp: patchStatusV2_def update_status_def Let_def params_admissible_context
        classification_outcome_def [of env w False w "[_]"] split: sum.splits option.splits)
  show ?thesis
    unfolding runClassification_def Let_def d_def [symmetric] st_def [symmetric]
    using one [OF RunPipeline_Inr] two [OF RunPipelineV2_Inr]
    by (fastforce simp: n split: sum.splits prod.splits if_splits)
qed


text \<open>C28. One classification either writes nothing and leaves the worker as it was, or makes exactly
  one status update, of the resource as just read with only \<^verbatim>\<open>classifiedParams\<close> replaced by
  admissible values; it reports success and moves the dedup clock iff that update succeeded, and
  it never touches the replica count.\<close>

theorem classification_safe:
  assumes "runClassification pf env w = (ok, w', effs)"
  shows "classification_outcome env w ok w' effs"
  using runClassification_outcome [where pf = pf and env = env and w = w] assms by simp

definition demo_env :: class_env where
  "demo_env = \<lparr>ce_now_start = 0, ce_now_patch = 1, ce_now_done = 2,
     ce_RangeQuery = \<lambda>_ _ _ _. Inr [\<lparr>smp_Timestamp = 0, smp_Value = Fin 10\<rparr>],
     ce_Get_patch = \<lambda>_. Inr demo_cr, ce_StatusUpdate = \<lambda>_. None, ce_EventRecorder = True,
     ce_Get_event = \<lambda>_. Inr demo_cr, ce_Get_annotation = \<lambda>_. Inr demo_cr, ce_Update = \<lambda>_. None\<rparr>"

definition demo_worker :: worker where
  "demo_worker = \<lparr>wk_Key = aas_key demo_cr, wk_DeploymentName = ''web'', wk_MinReplicas = 2,
     wk_MaxReplicas = 10, wk_Config = demo_cfg\<lparr>wc_MinPoints := 1\<rparr>, wk_lastClassifyAt = zero_time\<rparr>"

theorem classification_safe_witness:
  "\<exists>w' effs. runClassification amd64 demo_env demo_worker = (True, w', effs) \<and>
     classification_outcome demo_env demo_worker True w' effs"
proof -
  have "fst (runClassification amd64 demo_env demo_worker)"
    by (simp add: runClassification_def Let_def demo_env_def demo_worker_def demo_cfg_def RunPipeline_def
        patchStatus_def update_status_def split: prod.splits)
  then obtain w' effs where "runClassification amd64 demo_env demo_worker = (True, w', effs)"
    by (metis prod.collapse)
  then show ?thesis using classification_safe by blast
qed

section \<open>The goroutine's life\<close>

fun is_query :: "effect \<Rightarrow> bool" where
  "is_query (EffRangeQuery _ _ _ _) = True" | "is_query _ = False"

text \<open>The trace ends with a classification that has written its result: since its query there was a
  successful status update and no other query. Every removal of the annotation comes right after one.\<close>

definition just_served :: "effect list \<Rightarrow> bool" where
  "just_served tr \<longleftrightarrow> (\<exists>before q s e d since b. tr = before @ EffRangeQuery q s e d # since \<and>
     \<not> list_ex is_query since \<and> EffStatusUpdate b None \<in> set since)"

definition removal_ok :: "effect list \<Rightarrow> bool" where
  "removal_ok tr \<longleftrightarrow> (\<forall>pre a err post. tr = pre @ EffUpdate a err # post \<longrightarrow>
     aas_Annotations a AnnotationReclassify = None \<and> just_served pre)"

lemma removal_ok_append:
  assumes "removal_ok tr" "\<not> list_ex is_update effs"
  shows "removal_ok (tr @ effs)"
  unfolding removal_ok_def
proof (intro allI impI)
  fix pre a err post
  assume eq: "tr @ effs = pre @ EffUpdate a err # post"
  then consider us where "tr = pre @ us" "us @ effs = EffUpdate a err # post"
    | us where "tr @ us = pre" "effs = us @ EffUpdate a err # post"
    by (auto simp: append_eq_append_conv2)
  then show "aas_Annotations a AnnotationReclassify = None \<and> just_served pre"
  proof cases
    case 1
    then obtain us' where "us = EffUpdate a err # us'" using assms(2) by (cases us) auto
    then show ?thesis using 1 assms(1) unfolding removal_ok_def by blast
  next
    case 2
    then show ?thesis using assms(2) by auto
  qed
qed

lemma runClassification_updates:
  "case runClassification pf env w of (ok, w', effs) \<Rightarrow> \<not> list_ex is_update effs"
proof -
  have n: "\<not> list_ex is_update effs" if "wrote_nothing effs" for effs
    using that by (induction effs) (auto simp: wrote_nothing_def)
  show ?thesis
    using runClassification_outcome [where pf = pf and env = env and w = w]
    by (auto simp: classification_outcome_def n split: prod.splits)
qed

lemma no_query [simp]:
  "\<not> list_ex is_query (worker_emitEvent env w reason msg)"
  "\<not> list_ex is_query (snd (patchStatus env w r1))" "\<not> list_ex is_query (snd (patchStatusV2 env w r2))"
  by (simp_all add: worker_emitEvent_def patchStatus_def patchStatusV2_def update_status_def Let_def split: sum.split)

lemma runClassification_query:
  "\<exists>q s e d since. snd (snd (runClassification pf env w)) = EffRangeQuery q s e d # since \<and> \<not> list_ex is_query since"
  unfolding runClassification_def Let_def case_prod_beta by (simp split: sum.split if_split)

lemma runClassification_served:
  assumes "runClassification pf env w = (True, w', effs)"
  shows "just_served (tr @ effs)"
proof -
  obtain q s e d since where "effs = EffRangeQuery q s e d # since" "\<not> list_ex is_query since"
    using runClassification_query [of pf env w] assms by auto
  moreover have "\<exists>b. EffStatusUpdate b None \<in> set effs"
    using runClassification_outcome [where pf = pf and env = env and w = w] assms
    by (auto simp: classification_outcome_def)
  ultimately have "tr @ effs = tr @ EffRangeQuery q s e d # since \<and> \<not> list_ex is_query since \<and> (\<exists>b. EffStatusUpdate b None \<in> set since)"
    by auto
  then show ?thesis unfolding just_served_def by blast
qed

lemma classify_step_removal:
  assumes "removal_ok (gr_trace g)"
  shows "removal_ok (gr_trace (snd (classify_step pf env g)))"
    and "fst (classify_step pf env g) \<Longrightarrow> just_served (gr_trace (snd (classify_step pf env g)))"
proof -
  obtain ok w' effs where r: "runClassification pf env (gr_worker g) = (ok, w', effs)"
    by (metis prod_cases3)
  show "removal_ok (gr_trace (snd (classify_step pf env g)))"
    using runClassification_updates [where pf = pf and env = env and w = "gr_worker g"] assms r
    by (simp add: classify_step_def removal_ok_append)
  show "just_served (gr_trace (snd (classify_step pf env g)))" if "fst (classify_step pf env g)"
    using runClassification_served r that by (auto simp: classify_step_def)
qed

lemma removal_ok_snoc:
  "removal_ok tr \<Longrightarrow> aas_Annotations a AnnotationReclassify = None \<Longrightarrow> just_served tr \<Longrightarrow>
   removal_ok (tr @ [EffUpdate a err])"
proof -
  assume a: "removal_ok tr" "aas_Annotations a AnnotationReclassify = None" "just_served tr"
  have "aas_Annotations b AnnotationReclassify = None \<and> just_served pre"
    if eq: "tr @ [EffUpdate a err] = pre @ EffUpdate b e # post" for pre b e post
  proof (cases post rule: rev_cases)
    case Nil
    then show ?thesis using eq a by auto
  next
    case (snoc ys y)
    then have "tr = pre @ EffUpdate b e # ys" using eq by simp
    then show ?thesis using a(1) unfolding removal_ok_def by blast
  qed
  then show ?thesis unfolding removal_ok_def by blast
qed

lemma serve_reclassify_removal:
  assumes "removal_ok (gr_trace g)"
  shows "removal_ok (gr_trace (serve_reclassify pf env g))"
proof -
  let ?g = "g\<lparr>gr_reclassifyCh := snd (try_recv (gr_reclassifyCh g))\<rparr>"
  have g: "removal_ok (gr_trace ?g)" using assms by simp
  note c = classify_step_removal [OF g, of pf env]
  show ?thesis
    using c removal_ok_snoc
    by (auto simp: serve_reclassify_def Let_def removeReclassifyAnnotation_def case_prod_beta
        split: sum.splits option.splits)
qed

lemma wstep_removal: "wstep pf g g' \<Longrightarrow> removal_ok (gr_trace g) \<Longrightarrow> removal_ok (gr_trace g')"
  by (erule wstepE) (simp_all add: classify_step_removal serve_reclassify_removal enter_loop_def
      serve_generation_def Let_def)

lemma wreach_removal: "wreach pf w g \<Longrightarrow> removal_ok (gr_trace g)"
  by (induction rule: wreach.induct) (simp_all add: wstep_removal, simp add: start_worker_def removal_ok_def)

text \<open>C29. The operator's reclassify request is acknowledged only when it was served: along every run of
  the goroutine, each update that strips the annotation comes right after a classification that has
  written \<^verbatim>\<open>classifiedParams\<close> successfully, and the object it writes no longer carries the annotation.\<close>

theorem annotation_removed_after_success:
  assumes "wreach pf w g" and "gr_trace g = pre @ EffUpdate a err # post"
  shows "aas_Annotations a AnnotationReclassify = None \<and> just_served pre"
  using wreach_removal [OF assms(1)] assms(2) unfolding removal_ok_def by blast

definition annotated_env :: class_env where
  "annotated_env = demo_env\<lparr>ce_Get_annotation := \<lambda>_. Inr (demo_cr\<lparr>aas_Annotations := [AnnotationReclassify \<mapsto> ''true'']\<rparr>)\<rparr>"

lemma demo_classifies:
  assumes "gr_worker g = demo_worker \<or> gr_worker g = demo_worker\<lparr>wk_lastClassifyAt := 2\<rparr>"
  shows "fst (classify_step amd64 annotated_env g)"
    "gr_worker (snd (classify_step amd64 annotated_env g)) = demo_worker\<lparr>wk_lastClassifyAt := 2\<rparr>"
    "gr_pc (snd (classify_step amd64 annotated_env g)) = gr_pc g"
    "gr_reclassifyCh (snd (classify_step amd64 annotated_env g)) = gr_reclassifyCh g"
  using assms
  by (auto simp: classify_step_def runClassification_def Let_def annotated_env_def demo_env_def demo_worker_def
      demo_cfg_def RunPipeline_def patchStatus_def update_status_def split: prod.splits)

theorem annotation_removed_after_success_witness:
  "\<exists>g pre a err post. wreach amd64 demo_worker g \<and> gr_trace g = pre @ EffUpdate a err # post \<and>
     just_served pre"
proof -
  let ?g0 = "start_worker demo_worker"
  let ?g1 = "enter_loop (snd (classify_step amd64 annotated_env ?g0))"
  let ?g2 = "?g1\<lparr>gr_reclassifyCh := dropAndPush (gr_reclassifyCh ?g1)\<rparr>"
  let ?g3 = "serve_reclassify amd64 annotated_env ?g2"
  have w: "gr_worker ?g0 = demo_worker" "gr_pc ?g0 = Entry" by (simp_all add: start_worker_def)
  note d = demo_classifies [of ?g0, OF disjI1 [OF w(1)]]
  have "0 <s wc_Interval (wk_Config demo_worker)"
    by (simp add: demo_worker_def demo_cfg_def signed_less sint_mul64)
  then have l: "gr_pc ?g2 = Looping" "gr_worker ?g2 = demo_worker\<lparr>wk_lastClassifyAt := 2\<rparr>"
    using d by (simp_all add: enter_loop_def)
  have "slot (gr_reclassifyCh ?g0)" by (simp add: start_worker_def slot_def make_chan_def)
  then have "ch_buf (gr_reclassifyCh ?g2) \<noteq> []"
    using d(4) by (simp add: enter_loop_def dropAndPush_slot)
  then have "wstep amd64 ?g2 ?g3" using l(1) by (intro wstep.reclassify)
  moreover have "wreach amd64 demo_worker ?g1"
    using wreach.step [OF wreach.start wstep.first_run [OF w(2)]] .
  then have "wreach amd64 demo_worker ?g2" using wstep.signalled by (rule wreach.step)
  ultimately have "wreach amd64 demo_worker ?g3" by (rule wreach.step [rotated])
  moreover have "\<exists>pre a err. gr_trace ?g3 = pre @ [EffUpdate a err]"
  proof -
    let ?h = "?g2\<lparr>gr_reclassifyCh := snd (try_recv (gr_reclassifyCh ?g2))\<rparr>"
    have "gr_worker ?h = demo_worker\<lparr>wk_lastClassifyAt := 2\<rparr>" using l(2) by simp
    note e = demo_classifies [of ?h, OF disjI2 [OF this]]
    have "\<exists>a err. removeReclassifyAnnotation annotated_env (demo_worker\<lparr>wk_lastClassifyAt := 2\<rparr>) = [EffUpdate a err]"
      by (simp add: removeReclassifyAnnotation_def annotated_env_def demo_worker_def Let_def)
    then show ?thesis using e(1,2) by (auto simp: serve_reclassify_def Let_def case_prod_beta)
  qed
  ultimately show ?thesis using annotation_removed_after_success by blast
qed


lemma runClassification_config:
  "wk_Config (fst (snd (runClassification pf env w))) = wk_Config w"
  using runClassification_outcome [where pf = pf and env = env and w = w]
  by (auto simp: classification_outcome_def split: prod.splits)

lemma classify_step_config [simp]:
  "wk_Config (gr_worker (snd (classify_step pf env g))) = wk_Config (gr_worker g)"
  "gr_pc (snd (classify_step pf env g)) = gr_pc g"
  using runClassification_config [of pf env "gr_worker g"]
  by (simp_all add: classify_step_def case_prod_beta)

lemma wstep_config: "wstep pf g g' \<Longrightarrow> wk_Config (gr_worker g') = wk_Config (gr_worker g)"
  by (erule wstepE)
     (simp_all add: enter_loop_def serve_reclassify_def serve_generation_def Let_def case_prod_beta)

lemma wreach_config: "wreach pf w g \<Longrightarrow> wk_Config (gr_worker g) = wk_Config w"
  by (induction rule: wreach.induct) (simp_all add: wstep_config start_worker_def)

text \<open>C30. With a classifier interval that is not positive the worker never reaches its loop: in every
  reachable state the goroutine is entering, backing off after the panic of \<^verbatim>\<open>NewTicker\<close>, or gone,
  so no reclassify or rollout signal is ever served.\<close>

theorem zero_interval_never_loops:
  assumes "wreach pf w g" and "\<not> 0 <s wc_Interval (wk_Config w)"
  shows "gr_pc g \<noteq> Looping"
  using assms
proof (induction rule: wreach.induct)
  case start
  then show ?case by (simp add: start_worker_def)
next
  case (step g g')
  then show ?case
    using wreach_config [OF step.hyps(1)] by (auto elim!: wstepE simp: enter_loop_def)
qed

theorem zero_interval_never_loops_witness:
  "gr_pc (enter_loop (snd (classify_step amd64 demo_env
     (start_worker (demo_worker\<lparr>wk_Config := demo_cfg\<lparr>wc_Interval := 0\<rparr>\<rparr>))))) \<noteq> Looping"
proof -
  let ?w = "demo_worker\<lparr>wk_Config := demo_cfg\<lparr>wc_Interval := 0\<rparr>\<rparr>"
  have "gr_pc (start_worker ?w) = Entry" by (simp add: start_worker_def)
  then have "wreach amd64 ?w (enter_loop (snd (classify_step amd64 demo_env (start_worker ?w))))"
    by (intro wreach.step [OF wreach.start] wstep.first_run)
  then show ?thesis using zero_interval_never_loops by (simp add: signed_less)
qed

text \<open>A rollout signal is served iff the dedup window since the last successful classification has
  passed; inside the window the goroutine only consumes the signal.\<close>

theorem generation_dedup:
  assumes "0 \<le> wc_DedupSeconds (wk_Config (gr_worker g))" and "wc_DedupSeconds (wk_Config (gr_worker g)) \<le> MaxInt32"
    and "wk_lastClassifyAt (gr_worker g) \<le> now"
  shows "serve_generation pf env now g =
     (let g' = g\<lparr>gr_generationCh := snd (try_recv (gr_generationCh g))\<rparr> in
      if wc_DedupSeconds (wk_Config (gr_worker g)) * ns_Second < now - wk_lastClassifyAt (gr_worker g)
      then snd (classify_step pf env g') else g')"
proof -
  let ?d = "wc_DedupSeconds (wk_Config (gr_worker g))"
  have w: "sint (word_of_int ?d :: duration) = ?d"
    using assms by (simp add: sint_sbintrunc' signed_take_bit_int_eq_self)
  have "sint (word_of_int ?d * Second :: duration) = ?d * ns_Second"
    using assms by (subst sint_mul64) (simp_all add: w)
  then have "ShouldRunOnGeneration (gr_worker g) now \<longleftrightarrow> ?d * ns_Second < now - wk_lastClassifyAt (gr_worker g)"
    using assms by (auto simp: ShouldRunOnGeneration_def Let_def signed_less)
  then show ?thesis by (simp add: serve_generation_def Let_def)
qed

theorem generation_dedup_witness:
  "serve_generation amd64 demo_env (30 * ns_Second) (start_worker (demo_worker\<lparr>wk_lastClassifyAt := 0\<rparr>)) =
     (start_worker (demo_worker\<lparr>wk_lastClassifyAt := 0\<rparr>))
       \<lparr>gr_generationCh := snd (try_recv (gr_generationCh (start_worker demo_worker)))\<rparr>"
  using generation_dedup [of "start_worker (demo_worker\<lparr>wk_lastClassifyAt := 0\<rparr>)" "30 * ns_Second" amd64 demo_env]
  by (simp add: start_worker_def demo_worker_def demo_cfg_def Let_def)

end
