(* ===== verification/Utf8.thy ===== *)
theory Utf8
  imports GoText
begin

text \<open>
  UTF-8 as Go's \<^verbatim>\<open>unicode/utf8\<close> reads it. A string is a list of bytes; \<open>rune_len\<close> is the width of the
  encoding at its front, zero when there is none. \<open>ToValidUTF8\<close> is what \<^verbatim>\<open>encoding/json\<close> makes of a
  string: every byte that starts no encoding becomes the replacement character.

  Lemmas: validity of a concatenation, \<open>ToValidUTF8\<close> returns valid text and is the identity exactly on
  valid text.
\<close>

abbreviation byte :: "char \<Rightarrow> nat" where "byte c \<equiv> of_char c"

fun conts :: "(nat \<times> nat) list \<Rightarrow> string \<Rightarrow> bool" where
  "conts [] s = True"
| "conts (r # rs) [] = False"
| "conts (r # rs) (c # s) = (fst r \<le> byte c \<and> byte c \<le> snd r \<and> conts rs s)"

text \<open>The ranges of the continuation bytes, by the first byte.\<close>

definition rune_ranges :: "nat \<Rightarrow> (nat \<times> nat) list option" where
  "rune_ranges b =
     (let t = (0x80, 0xBF) in
      if b < 0x80 then Some []
      else if b < 0xC2 then None
      else if b < 0xE0 then Some [t]
      else if b = 0xE0 then Some [(0xA0, 0xBF), t]
      else if b = 0xED then Some [(0x80, 0x9F), t]
      else if b < 0xF0 then Some [t, t]
      else if b = 0xF0 then Some [(0x90, 0xBF), t, t]
      else if b < 0xF4 then Some [t, t, t]
      else if b = 0xF4 then Some [(0x80, 0x8F), t, t]
      else None)"

fun rune_len :: "string \<Rightarrow> nat" where
  "rune_len [] = 0"
| "rune_len (c # s) = (case rune_ranges (byte c) of
     None \<Rightarrow> 0 | Some rs \<Rightarrow> if conts rs s then Suc (length rs) else 0)"

function ValidString :: "string \<Rightarrow> bool" where
  "ValidString s = (if s = [] then True else if rune_len s = 0 then False else ValidString (drop (rune_len s) s))"
  by auto

termination by (relation "measure length") auto

definition RuneError :: string where "RuneError = [CHR 0xEF, CHR 0xBF, CHR 0xBD]"

function ToValidUTF8 :: "string \<Rightarrow> string" where
  "ToValidUTF8 s =
     (if s = [] then []
      else if rune_len s = 0 then RuneError @ ToValidUTF8 (drop 1 s)
      else take (rune_len s) s @ ToValidUTF8 (drop (rune_len s) s))"
  by auto

termination by (relation "measure length") auto

declare ValidString.simps [simp del] ToValidUTF8.simps [simp del]

section \<open>Facts\<close>

lemma conts_length: "conts rs s \<Longrightarrow> length rs \<le> length s"
  by (induction rs s rule: conts.induct) auto

lemma conts_append: "conts rs s \<Longrightarrow> conts rs (s @ t)"
  by (induction rs s rule: conts.induct) auto

lemma conts_take: "conts rs s \<Longrightarrow> conts rs (take (length rs) s)"
  by (induction rs s rule: conts.induct) auto

lemma rune_len_le: "rune_len s \<le> length s"
  by (cases s) (auto split: option.splits dest: conts_length)

lemma rune_len_append: "rune_len s \<noteq> 0 \<Longrightarrow> rune_len (s @ t) = rune_len s"
  by (cases s) (auto simp: conts_append split: option.splits if_splits)

lemma rune_len_take: "rune_len s \<noteq> 0 \<Longrightarrow> rune_len (take (rune_len s) s) = rune_len s"
  by (cases s) (auto simp: conts_take split: option.splits if_splits)

lemma ValidString_Nil [simp]: "ValidString []"
  by (simp add: ValidString.simps)

lemma rune_len_ascii: "byte c < 0x80 \<Longrightarrow> rune_len (c # s) = 1"
proof -
  assume "byte c < 0x80"
  then have "rune_ranges (byte c) = Some []" unfolding rune_ranges_def Let_def by (rule if_P)
  then show ?thesis by simp
qed

lemma ValidString_ascii_Cons: "byte c < 0x80 \<Longrightarrow> ValidString (c # s) = ValidString s"
  by (subst ValidString.simps) (simp add: rune_len_ascii del: rune_len.simps)

lemma ValidString_ascii: "\<forall>c \<in> set s. byte c < 0x80 \<Longrightarrow> ValidString (s @ t) = ValidString t"
  by (induction s) (simp_all add: ValidString_ascii_Cons)

lemma ValidString_Cons:
  "s \<noteq> [] \<Longrightarrow> ValidString s \<longleftrightarrow> rune_len s \<noteq> 0 \<and> ValidString (drop (rune_len s) s)"
  by (subst ValidString.simps) simp

lemma ValidString_step: "rune_len s \<noteq> 0 \<Longrightarrow> ValidString s = ValidString (drop (rune_len s) s)"
  by (subst ValidString.simps) auto

lemma ValidString_append: "ValidString s \<Longrightarrow> ValidString (s @ t) = ValidString t"
proof (induction s rule: ValidString.induct)
  case (1 s)
  show ?case
  proof (cases "s = []")
    case False
    then have n: "rune_len s \<noteq> 0" and v: "ValidString (drop (rune_len s) s)"
      using "1.prems" by (simp_all add: ValidString_Cons)
    have "ValidString (s @ t) = ValidString (drop (rune_len s) s @ t)"
      using n rune_len_le [of s] by (subst ValidString_step) (simp_all add: rune_len_append)
    then show ?thesis using "1.IH" [OF False n v] by simp
  qed simp
qed

lemma ToValidUTF8_valid: "ValidString (ToValidUTF8 s)"
proof (induction s rule: ToValidUTF8.induct)
  case (1 s)
  have e: "ValidString RuneError" by code_simp
  have t: "ValidString (take (rune_len s) s)" if "rune_len s \<noteq> 0"
    using that rune_len_take [OF that] rune_len_le [of s] by (subst ValidString_step) simp_all
  show ?case
    using 1 e t by (subst ToValidUTF8.simps) (auto simp: ValidString_append)
qed

lemma ToValidUTF8_id: "ValidString s \<Longrightarrow> ToValidUTF8 s = s"
proof (induction s rule: ValidString.induct)
  case (1 s)
  show ?case
  proof (cases "s = []")
    case False
    then have n: "rune_len s \<noteq> 0" and v: "ValidString (drop (rune_len s) s)"
      using "1.prems" by (simp_all add: ValidString_Cons)
    then show ?thesis
      using False "1.IH" [OF False n v] by (subst ToValidUTF8.simps) simp
  qed (simp add: ToValidUTF8.simps)
qed

lemma ToValidUTF8_idem: "ToValidUTF8 (ToValidUTF8 s) = ToValidUTF8 s"
  by (rule ToValidUTF8_id [OF ToValidUTF8_valid])

text \<open>No continuation byte is ASCII, so ASCII text after a string does not change its validity.\<close>

lemma rune_ranges_ge: "rune_ranges b = Some rs \<Longrightarrow> \<forall>r \<in> set rs. 0x80 \<le> fst r"
  unfolding rune_ranges_def Let_def by (auto split: if_splits)

lemma conts_ascii:
  assumes "\<forall>r \<in> set rs. 0x80 \<le> fst r" and "\<forall>c \<in> set v. byte c < 0x80"
  shows "conts rs (s @ v) = conts rs s"
  using assms(1)
proof (induction rs s rule: conts.induct)
  case (2 r rs)
  then show ?case using assms(2) by (cases v) auto
qed auto

lemma rune_len_ascii_append:
  assumes "s \<noteq> []" and "\<forall>c \<in> set v. byte c < 0x80"
  shows "rune_len (s @ v) = rune_len s"
  using assms by (cases s) (auto simp: conts_ascii rune_ranges_ge split: option.splits)

lemma ValidString_append_ascii:
  assumes "\<forall>c \<in> set v. byte c < 0x80"
  shows "ValidString (s @ v) = ValidString s"
proof (induction s rule: ValidString.induct)
  case (1 s)
  show ?case
  proof (cases "s = [] \<or> rune_len s = 0")
    case True
    have "\<not> ValidString t" if "t \<noteq> []" "rune_len t = 0" for t
      using that ValidString_Cons [of t] by simp
    then show ?thesis
      using True ValidString_ascii [OF assms, of "[]"] rune_len_ascii_append [OF _ assms, of s]
      by (cases "s = []") simp_all
  next
    case False
    then have "ValidString (s @ v) = ValidString (drop (rune_len s) s @ v)"
      using rune_len_le [of s] assms by (subst ValidString_step) (simp_all add: rune_len_ascii_append)
    then show ?thesis using 1 False by (simp add: ValidString_step [of s])
  qed
qed

end
