(* ===== verification/Json.thy ===== *)
theory Json
  imports Utf8 ParseFloat
begin

text \<open>
  What the adapters use of \<^verbatim>\<open>encoding/json\<close>, at the level of JSON values: the byte syntax is below the
  model, so a body is a value, or the text of the scanner's error. Numbers of a received value
  keep their literal, which Go parses according to the type of the target; numbers of a marshalled
  value are the finite floats and integers of the Go value.

  A decoder works on the current content of its target, as \<^verbatim>\<open>Unmarshal\<close> does: \<^verbatim>\<open>null\<close> leaves a scalar
  or a struct alone, unknown keys are skipped, keys match exactly or up to case, a later duplicate
  decodes into what the earlier one left, and the first type mismatch is the error.
\<close>

datatype 'n json = JNull | JBool bool | JNum 'n | JStr string
  | JArr "'n json list" | JObj "(string \<times> 'n json) list"

section \<open>Marshalling\<close>

datatype number = NumFloat rat | NumInt int

datatype marshal_error = UnsupportedValue float64

definition marshal_string :: "string \<Rightarrow> number json" where
  "marshal_string s = JStr (ToValidUTF8 s)"

definition marshal_int :: "int \<Rightarrow> number json" where
  "marshal_int i = JNum (NumInt i)"

fun marshal_float :: "float64 \<Rightarrow> marshal_error + number json" where
  "marshal_float (Fin x) = Inr (JNum (NumFloat x))"
| "marshal_float v = Inl (UnsupportedValue v)"

fun marshal_floats :: "float64 list \<Rightarrow> marshal_error + number json list" where
  "marshal_floats [] = Inr []"
| "marshal_floats (v # vs) =
     (case marshal_float v of
        Inl e \<Rightarrow> Inl e
      | Inr j \<Rightarrow> (case marshal_floats vs of Inl e \<Rightarrow> Inl e | Inr js \<Rightarrow> Inr (j # js)))"

text \<open>A list of floats can be sent iff all are finite; the error names the first that is not.\<close>

definition finite64 :: "float64 \<Rightarrow> bool" where
  "finite64 v = (case v of Fin _ \<Rightarrow> True | _ \<Rightarrow> False)"

lemma marshal_float_ok: "(\<exists>j. marshal_float v = Inr j) \<longleftrightarrow> finite64 v"
  by (cases v) (auto simp: finite64_def)

lemma marshal_floats_ok: "(\<exists>js. marshal_floats vs = Inr js) \<longleftrightarrow> list_all finite64 vs"
proof (induction vs)
  case (Cons v vs)
  then show ?case by (cases v) (auto simp: finite64_def split: sum.splits)
qed simp

lemma marshal_floats_error:
  "\<not> list_all finite64 vs \<Longrightarrow> \<exists>v \<in> set vs. \<not> finite64 v \<and> marshal_floats vs = Inl (UnsupportedValue v)"
proof (induction vs)
  case (Cons v vs)
  then show ?case by (cases v) (auto simp: finite64_def split: sum.splits)
qed simp

section \<open>Unmarshalling\<close>

datatype json_error = SyntaxError string | UnmarshalTypeError string string \<comment> \<open>value, Go type\<close>

type_synonym 'a decoder = "string json \<Rightarrow> 'a \<Rightarrow> json_error + 'a"

fun json_value :: "'n json \<Rightarrow> string" where
  "json_value JNull = ''null''"
| "json_value (JBool _) = ''bool''"
| "json_value (JNum _) = ''number''"
| "json_value (JStr _) = ''string''"
| "json_value (JArr _) = ''array''"
| "json_value (JObj _) = ''object''"

definition dec_string :: "string decoder" where
  "dec_string j old = (case j of JStr s \<Rightarrow> Inr s | JNull \<Rightarrow> Inr old
     | _ \<Rightarrow> Inl (UnmarshalTypeError (json_value j) ''string''))"

definition read_number :: "string \<Rightarrow> json_error + float64" where
  "read_number lit = (case ParseFloat64 lit of
     Inl _ \<Rightarrow> Inl (UnmarshalTypeError (''number '' @ lit) ''float64'') | Inr v \<Rightarrow> Inr v)"

definition dec_float :: "float64 decoder" where
  "dec_float j old = (case j of JNum lit \<Rightarrow> read_number lit | JNull \<Rightarrow> Inr old
     | _ \<Rightarrow> Inl (UnmarshalTypeError (json_value j) ''float64''))"

definition dec_int :: "int decoder" where
  "dec_int j old = (case j of
     JNum lit \<Rightarrow> (case ParseInt 64 lit of
       Inl _ \<Rightarrow> Inl (UnmarshalTypeError (''number '' @ lit) ''int'') | Inr v \<Rightarrow> Inr v)
   | JNull \<Rightarrow> Inr old
   | _ \<Rightarrow> Inl (UnmarshalTypeError (json_value j) ''int''))"

text \<open>Into an interface value every JSON value fits; its numbers become floats.\<close>

fun any_of :: "string json \<Rightarrow> json_error + float64 json"
  and any_list :: "string json list \<Rightarrow> json_error + float64 json list"
  and any_obj :: "(string \<times> string json) list \<Rightarrow> json_error + (string \<times> float64 json) list" where
  "any_of JNull = Inr JNull"
| "any_of (JBool b) = Inr (JBool b)"
| "any_of (JNum lit) = (case read_number lit of Inl e \<Rightarrow> Inl e | Inr v \<Rightarrow> Inr (JNum v))"
| "any_of (JStr s) = Inr (JStr s)"
| "any_of (JArr xs) = (case any_list xs of Inl e \<Rightarrow> Inl e | Inr ys \<Rightarrow> Inr (JArr ys))"
| "any_of (JObj kvs) = (case any_obj kvs of Inl e \<Rightarrow> Inl e | Inr ys \<Rightarrow> Inr (JObj ys))"
| "any_list [] = Inr []"
| "any_list (x # xs) = (case any_of x of Inl e \<Rightarrow> Inl e
     | Inr y \<Rightarrow> (case any_list xs of Inl e \<Rightarrow> Inl e | Inr ys \<Rightarrow> Inr (y # ys)))"
| "any_obj [] = Inr []"
| "any_obj ((k, x) # xs) = (case any_of x of Inl e \<Rightarrow> Inl e
     | Inr y \<Rightarrow> (case any_obj xs of Inl e \<Rightarrow> Inl e | Inr ys \<Rightarrow> Inr ((k, y) # ys)))"

text \<open>\<^verbatim>\<open>[2]any\<close>: missing elements are nil, further ones are skipped.\<close>

definition dec_pair :: "(float64 json \<times> float64 json) decoder" where
  "dec_pair j old = (case j of
     JArr [] \<Rightarrow> Inr (JNull, JNull)
   | JArr [x] \<Rightarrow> (case any_of x of Inl e \<Rightarrow> Inl e | Inr v \<Rightarrow> Inr (v, JNull))
   | JArr (x # y # _) \<Rightarrow> (case any_of x of Inl e \<Rightarrow> Inl e
       | Inr v \<Rightarrow> (case any_of y of Inl e \<Rightarrow> Inl e | Inr w \<Rightarrow> Inr (v, w)))
   | JNull \<Rightarrow> Inr old
   | _ \<Rightarrow> Inl (UnmarshalTypeError (json_value j) ''[2]interface {}''))"

fun dec_elems :: "'a decoder \<Rightarrow> 'a \<Rightarrow> string json list \<Rightarrow> 'a list \<Rightarrow> json_error + 'a list" where
  "dec_elems d z [] old = Inr []"
| "dec_elems d z (x # xs) old =
     (case d x (case old of [] \<Rightarrow> z | y # _ \<Rightarrow> y) of
        Inl e \<Rightarrow> Inl e
      | Inr v \<Rightarrow> (case dec_elems d z xs (drop 1 old) of Inl e \<Rightarrow> Inl e | Inr vs \<Rightarrow> Inr (v # vs)))"

definition dec_slice :: "string \<Rightarrow> 'a decoder \<Rightarrow> 'a \<Rightarrow> 'a list decoder" where
  "dec_slice typ d z j old = (case j of
     JArr xs \<Rightarrow> dec_elems d z xs old | JNull \<Rightarrow> Inr []
   | _ \<Rightarrow> Inl (UnmarshalTypeError (json_value j) typ))"

fun dec_entries :: "(string \<times> string json) list \<Rightarrow> (string \<rightharpoonup> string) \<Rightarrow> json_error + (string \<rightharpoonup> string)" where
  "dec_entries [] m = Inr m"
| "dec_entries ((k, j) # kvs) m =
     (case dec_string j '''' of Inl e \<Rightarrow> Inl e | Inr s \<Rightarrow> dec_entries kvs (m(k \<mapsto> s)))"

definition dec_map :: "(string \<rightharpoonup> string) decoder" where
  "dec_map j old = (case j of
     JObj kvs \<Rightarrow> dec_entries kvs old | JNull \<Rightarrow> Inr Map.empty
   | _ \<Rightarrow> Inl (UnmarshalTypeError (json_value j) ''map[string]string''))"

text \<open>Keys up to case: ASCII letters, the long s and the Kelvin sign fold to upper-case ASCII.\<close>

fun foldName :: "string \<Rightarrow> string" where
  "foldName [] = []"
| "foldName (c # s) =
     (if 97 \<le> byte c \<and> byte c \<le> 122 then char_of (byte c - 32) # foldName s
      else if c = CHR 0xC5 \<and> take 1 s = [CHR 0xBF] then CHR ''S'' # foldName (drop 1 s)
      else if c = CHR 0xE2 \<and> take 2 s = [CHR 0x84, CHR 0xAA] then CHR ''K'' # foldName (drop 2 s)
      else c # foldName s)"

definition find_field :: "(string \<times> 'a decoder) list \<Rightarrow> string \<Rightarrow> 'a decoder option" where
  "find_field fs k = (case map_of fs k of
     Some d \<Rightarrow> Some d | None \<Rightarrow> map_of (map (\<lambda>(n, d). (foldName n, d)) fs) (foldName k))"

fun dec_fields :: "(string \<times> 'a decoder) list \<Rightarrow> (string \<times> string json) list \<Rightarrow> 'a \<Rightarrow> json_error + 'a" where
  "dec_fields fs [] x = Inr x"
| "dec_fields fs ((k, j) # kvs) x =
     (case find_field fs k of
        None \<Rightarrow> dec_fields fs kvs x
      | Some d \<Rightarrow> (case d j x of Inl e \<Rightarrow> Inl e | Inr x' \<Rightarrow> dec_fields fs kvs x'))"

definition dec_struct :: "string \<Rightarrow> (string \<times> 'a decoder) list \<Rightarrow> 'a decoder" where
  "dec_struct typ fs j x = (case j of
     JObj kvs \<Rightarrow> dec_fields fs kvs x | JNull \<Rightarrow> Inr x
   | _ \<Rightarrow> Inl (UnmarshalTypeError (json_value j) typ))"

text \<open>The decoder of one field of a record, from its selector and update.\<close>

definition on_field :: "('a \<Rightarrow> 'b) \<Rightarrow> (('b \<Rightarrow> 'b) \<Rightarrow> 'a \<Rightarrow> 'a) \<Rightarrow> 'b decoder \<Rightarrow> 'a decoder" where
  "on_field get upd d j x = (case d j (get x) of Inl e \<Rightarrow> Inl e | Inr v \<Rightarrow> Inr (upd (\<lambda>_. v) x))"

lemmas dec_defs = dec_string_def dec_float_def dec_int_def dec_pair_def dec_slice_def dec_map_def
  dec_struct_def on_field_def find_field_def read_number_def

end
