(* ===== verification/Http.thy ===== *)
theory Http
  imports Json
begin

text \<open>
  What the adapters use of \<^verbatim>\<open>net/url\<close> and \<^verbatim>\<open>net/http\<close>. Query strings are built by \<^verbatim>\<open>url.Values.Encode\<close>;
  a request is the record of its method, URL, content type and body. The network and the services
  behind it are a parameter (\<open>net\<close>): whether a URL is well formed, and what a request gets back.

  \<open>parse_query\<close> is the reference reader of query strings (the syntax of
  \<^verbatim>\<open>application/x-www-form-urlencoded\<close>), which recovers from an encoded query exactly the
  parameters that were encoded, whatever bytes they hold.
\<close>

section \<open>Query strings\<close>

definition unreserved :: "char \<Rightarrow> bool" where
  "unreserved c \<longleftrightarrow>
     97 \<le> byte c \<and> byte c \<le> 122 \<or> 65 \<le> byte c \<and> byte c \<le> 90 \<or> is_digit c \<or> c \<in> set ''-_.~''"

definition upperhex :: "nat \<Rightarrow> char" where
  "upperhex d = (if d < 10 then digit_char d else char_of (55 + d))"

definition escape_char :: "char \<Rightarrow> string" where
  "escape_char c =
     (if unreserved c then [c]
      else if c = CHR '' '' then ''+''
      else [CHR ''%'', upperhex (byte c div 16), upperhex (byte c mod 16)])"

definition QueryEscape :: "string \<Rightarrow> string" where
  "QueryEscape s = concat (map escape_char s)"

text \<open>\<^verbatim>\<open>Encode\<close> of values with one entry per key, given sorted by key as \<^verbatim>\<open>Encode\<close> emits them.\<close>

definition encode_pair :: "string \<times> string \<Rightarrow> string" where
  "encode_pair p = QueryEscape (fst p) @ ''='' @ QueryEscape (snd p)"

definition Encode :: "(string \<times> string) list \<Rightarrow> string" where
  "Encode vs = join ''&'' (map encode_pair vs)"

section \<open>Reading a query string\<close>

definition unhex :: "char \<Rightarrow> nat option" where
  "unhex c = (if is_digit c then Some (digit_val c)
     else if 65 \<le> byte c \<and> byte c \<le> 70 then Some (byte c - 55)
     else if 97 \<le> byte c \<and> byte c \<le> 102 then Some (byte c - 87) else None)"

fun QueryUnescape :: "string \<Rightarrow> string option" where
  "QueryUnescape [] = Some []"
| "QueryUnescape (c # s) =
     (if c = CHR ''%'' then
        (case s of a # b # r \<Rightarrow>
           (case (unhex a, unhex b) of
              (Some x, Some y) \<Rightarrow> map_option ((#) (char_of (16 * x + y))) (QueryUnescape r)
            | _ \<Rightarrow> None)
         | _ \<Rightarrow> None)
      else if c = CHR ''+'' then map_option ((#) (CHR '' '')) (QueryUnescape s)
      else map_option ((#) c) (QueryUnescape s))"

fun split_on :: "char \<Rightarrow> string \<Rightarrow> string list" where
  "split_on sep [] = [[]]"
| "split_on sep (c # s) =
     (if c = sep then [] # split_on sep s
      else case split_on sep s of [] \<Rightarrow> [[c]] | w # ws \<Rightarrow> (c # w) # ws)"

definition parse_pair :: "string \<Rightarrow> (string \<times> string) option" where
  "parse_pair s =
     (let k = takeWhile (\<lambda>c. c \<noteq> CHR ''='') s; v = drop (Suc (length k)) s
      in Option.bind (QueryUnescape k) (\<lambda>k. map_option (Pair k) (QueryUnescape v)))"

fun parse_pairs :: "string list \<Rightarrow> (string \<times> string) list option" where
  "parse_pairs [] = Some []"
| "parse_pairs (w # ws) =
     Option.bind (parse_pair w) (\<lambda>p. map_option ((#) p) (parse_pairs ws))"

definition parse_query :: "string \<Rightarrow> (string \<times> string) list option" where
  "parse_query s = parse_pairs (split_on (CHR ''&'') s)"

lemma unhex_upperhex: "d < 16 \<Longrightarrow> unhex (upperhex d) = Some d"
  by (auto simp: unhex_def upperhex_def is_digit_def digit_val_def digit_char_def)

lemma upperhex_plain: "d < 16 \<Longrightarrow> upperhex d \<notin> {CHR ''&'', CHR ''=''}"
  by (auto simp: upperhex_def digit_char_def dest!: arg_cong [of _ _ "of_char :: char \<Rightarrow> nat"])

lemma unreserved_plain: "unreserved c \<Longrightarrow> c \<notin> {CHR ''&'', CHR ''='', CHR ''%'', CHR ''+''}"
  by (auto simp: unreserved_def is_digit_def)

lemma nibbles: "byte c div 16 < 16" "byte c mod 16 < 16"
proof -
  have "byte c < 16 * 16" using nat_of_char_less_256 [of c] by simp
  then show "byte c div 16 < 16" by (rule less_mult_imp_div_less)
qed simp

lemma byte_split: "char_of (16 * (byte c div 16) + byte c mod 16) = c"
  by simp

lemma unescape_escape_char:
  "QueryUnescape (escape_char c @ s) = map_option ((#) c) (QueryUnescape s)"
proof (cases "unreserved c")
  case True
  then show ?thesis using unreserved_plain [OF True] by (simp add: escape_char_def)
next
  case False
  then show ?thesis by (simp add: escape_char_def unhex_upperhex nibbles)
qed

lemma QueryUnescape_QueryEscape: "QueryUnescape (QueryEscape s) = Some s"
  by (induction s) (simp_all add: QueryEscape_def unescape_escape_char)

lemma escape_char_plain: "x \<in> set (escape_char c) \<Longrightarrow> x \<notin> {CHR ''&'', CHR ''=''}"
proof -
  assume "x \<in> set (escape_char c)"
  then show ?thesis
    using upperhex_plain [OF nibbles(1) [of c]] upperhex_plain [OF nibbles(2) [of c]] unreserved_plain [of c]
    by (auto simp: escape_char_def split: if_splits)
qed

lemma QueryEscape_plain: "x \<in> set (QueryEscape s) \<Longrightarrow> x \<noteq> CHR ''&'' \<and> x \<noteq> CHR ''=''"
  using escape_char_plain by (fastforce simp: QueryEscape_def)

lemma split_on_plain: "sep \<notin> set w \<Longrightarrow> split_on sep w = [w]"
  by (induction w) auto

lemma split_on_append: "sep \<notin> set w \<Longrightarrow> split_on sep (w @ sep # s) = w # split_on sep s"
  by (induction w) auto

lemma split_on_join: "\<forall>w \<in> set ws. sep \<notin> set w \<Longrightarrow> ws \<noteq> [] \<Longrightarrow> split_on sep (join [sep] ws) = ws"
proof (induction ws rule: induct_list012)
  case (3 x y zs)
  then show ?case by (simp add: split_on_append)
qed (simp_all add: split_on_plain)

lemma parse_encode_pair: "parse_pair (encode_pair p) = Some p"
proof -
  have "takeWhile (\<lambda>c. c \<noteq> CHR ''='') (QueryEscape k @ CHR ''='' # s) = QueryEscape k" for k s
    using QueryEscape_plain [of _ k] by (subst takeWhile_append2) auto
  then show ?thesis
    by (simp add: parse_pair_def encode_pair_def QueryUnescape_QueryEscape)
qed

lemma parse_pairs_encode: "parse_pairs (map encode_pair vs) = Some vs"
  by (induction vs) (simp_all add: parse_encode_pair)

lemma parse_query_Encode:
  assumes "vs \<noteq> []"
  shows "parse_query (Encode vs) = Some vs"
proof -
  have "CHR ''&'' \<notin> set (encode_pair p)" for p
    using QueryEscape_plain [of "CHR ''&''"] by (auto simp: encode_pair_def)
  then have "split_on (CHR ''&'') (Encode vs) = map encode_pair vs"
    unfolding Encode_def using assms by (intro split_on_join) auto
  then show ?thesis by (simp add: parse_query_def parse_pairs_encode)
qed

section \<open>Requests\<close>

record http_request =
  hq_Method :: string
  hq_URL :: string
  hq_ContentType :: "string option"
  hq_Body :: "number json option"

record http_response =
  hp_StatusCode :: int
  hp_Body :: "string + string json" \<comment> \<open>the scanner's error, or the first value of the body\<close>

datatype net_error = ConnRefused string | NetError string

record net =
  net_BadURL :: "string \<Rightarrow> string option"
  net_Do :: "http_request \<Rightarrow> net_error + http_response"

definition success :: "http_response \<Rightarrow> bool" where
  "success r \<longleftrightarrow> trunc_div (hp_StatusCode r) 100 = 2"

definition Decode :: "'a decoder \<Rightarrow> 'a \<Rightarrow> http_response \<Rightarrow> json_error + 'a" where
  "Decode d z r = (case hp_Body r of Inl e \<Rightarrow> Inl (SyntaxError e) | Inr j \<Rightarrow> d j z)"

end
