(* ===== verification/Adapters.thy ===== *)
theory Adapters
  imports Http Interfaces
begin

text \<open>
  The clients of the three services: \<^verbatim>\<open>internal/adapters/prometheus/client.go\<close>,
  \<^verbatim>\<open>internal/adapters/forecast/client.go\<close> and \<^verbatim>\<open>internal/adapters/ollama/client.go\<close>. Each call is a
  function of the network (\<open>net\<close>); its errors are the constructors of one datatype per client,
  one for each error return of the code that can occur. The timeout of a client is part of what \<open>net_Do\<close> does.

  Lemmas: a forecast is accepted only when it is finite, not negative and names its model; a history
  with a value that is not finite is never sent; an Ollama answer is never empty; a Prometheus query
  reaches the server with exactly its parameters.
\<close>

record http_client =
  cl_baseURL :: string
  cl_Timeout :: duration

definition New :: "string \<Rightarrow> duration \<Rightarrow> http_client" where
  "New baseURL timeout = \<lparr>cl_baseURL = baseURL, cl_Timeout = timeout\<rparr>"

text \<open>The other two clients have the same two fields and constructors of their own.\<close>

definition forecast_New :: "string \<Rightarrow> duration \<Rightarrow> http_client" where
  "forecast_New baseURL timeout = \<lparr>cl_baseURL = baseURL, cl_Timeout = timeout\<rparr>"

definition ollama_New :: "string \<Rightarrow> duration \<Rightarrow> http_client" where
  "ollama_New baseURL timeout = \<lparr>cl_baseURL = baseURL, cl_Timeout = timeout\<rparr>"

section \<open>Prometheus\<close>

datatype prom_error =
    PromBuild string
  | PromRequest net_error
  | PromStatus int
  | PromDecode json_error
  | PromReported string
  | TimestampNotNumber "float64 json"
  | ValueNotString "float64 json"
  | PromParse num_error

record 'a prom_response =
  pm_Status :: string
  pm_ResultType :: string
  pm_Result :: "'a list"
  pm_ErrorType :: string
  pm_Error :: string

record instant_sample =
  is_Metric :: "string \<rightharpoonup> string"
  is_Value :: "float64 json \<times> float64 json"

record range_series =
  sr_Metric :: "string \<rightharpoonup> string"
  sr_Values :: "(float64 json \<times> float64 json) list"

definition zero_response :: "'a prom_response" where
  "zero_response = \<lparr>pm_Status = '''', pm_ResultType = '''', pm_Result = [], pm_ErrorType = '''', pm_Error = ''''\<rparr>"

definition dec_response :: "'a list decoder \<Rightarrow> 'a prom_response decoder" where
  "dec_response d = dec_struct ''prometheus.response''
     [(''status'', on_field pm_Status pm_Status_update dec_string),
      (''data'', dec_struct ''struct''
         [(''resultType'', on_field pm_ResultType pm_ResultType_update dec_string),
          (''result'', on_field pm_Result pm_Result_update d)]),
      (''errorType'', on_field pm_ErrorType pm_ErrorType_update dec_string),
      (''error'', on_field pm_Error pm_Error_update dec_string)]"

definition dec_instantSample :: "instant_sample decoder" where
  "dec_instantSample = dec_struct ''prometheus.instantSample''
     [(''metric'', on_field is_Metric is_Metric_update dec_map),
      (''value'', on_field is_Value is_Value_update dec_pair)]"

definition dec_instantResponse :: "instant_sample prom_response decoder" where
  "dec_instantResponse = dec_response (dec_slice ''[]prometheus.instantSample'' dec_instantSample
     \<lparr>is_Metric = Map.empty, is_Value = (JNull, JNull)\<rparr>)"

definition dec_rangeSeries :: "range_series decoder" where
  "dec_rangeSeries = dec_struct ''prometheus.rangeSeries''
     [(''metric'', on_field sr_Metric sr_Metric_update dec_map),
      (''values'', on_field sr_Values sr_Values_update (dec_slice ''[][2]interface {}'' dec_pair (JNull, JNull)))]"

definition dec_rangeResponse :: "range_series prom_response decoder" where
  "dec_rangeResponse = dec_response (dec_slice ''[]prometheus.rangeSeries'' dec_rangeSeries
     \<lparr>sr_Metric = Map.empty, sr_Values = []\<rparr>)"

text \<open>The steps the two queries share: build the request, send it, check the status, decode, check
  what Prometheus reports.\<close>

definition prom_get :: "net \<Rightarrow> 'a prom_response decoder \<Rightarrow> string \<Rightarrow> prom_error + 'a prom_response" where
  "prom_get net d u =
     (case net_BadURL net u of
        Some e \<Rightarrow> Inl (PromBuild e)
      | None \<Rightarrow>
          (case net_Do net \<lparr>hq_Method = ''GET'', hq_URL = u, hq_ContentType = None, hq_Body = None\<rparr> of
             Inl e \<Rightarrow> Inl (PromRequest e)
           | Inr resp \<Rightarrow>
               if \<not> success resp then Inl (PromStatus (hp_StatusCode resp))
               else case Decode d zero_response resp of
                      Inl e \<Rightarrow> Inl (PromDecode e)
                    | Inr out \<Rightarrow> if pm_Status out \<noteq> ''success'' then Inl (PromReported (pm_Error out)) else Inr out))"

definition instant_url :: "http_client \<Rightarrow> string \<Rightarrow> string" where
  "instant_url c query = cl_baseURL c @ ''/api/v1/query?'' @ Encode [(''query'', query)]"

definition parse_sample :: "float64 json \<Rightarrow> prom_error + float64" where
  "parse_sample v =
     (case v of
        JStr raw \<Rightarrow> (case ParseFloat64 raw of Inl e \<Rightarrow> Inl (PromParse e) | Inr x \<Rightarrow> Inr x)
      | _ \<Rightarrow> Inl (ValueNotString v))"

definition InstantQuery :: "net \<Rightarrow> http_client \<Rightarrow> string \<Rightarrow> prom_error + float64" where
  "InstantQuery net c query =
     (case prom_get net dec_instantResponse (instant_url c query) of
        Inl e \<Rightarrow> Inl e
      | Inr out \<Rightarrow> (case pm_Result out of [] \<Rightarrow> Inr (Fin 0) | s # _ \<Rightarrow> parse_sample (snd (is_Value s))))"

text \<open>\<^verbatim>\<open>time.Duration.Seconds\<close> and \<^verbatim>\<open>time.Time.Unix\<close>.\<close>

definition Seconds :: "duration \<Rightarrow> float64" where
  "Seconds d =
     (let sec = trunc_div (sint d) ns_Second; nsec = sint d - sec * ns_Second
      in fadd (rnd (of_int sec)) (fdiv (rnd (of_int nsec)) (Fin (of_int ns_Second))))"

definition Unix :: "time \<Rightarrow> int" where "Unix t = t div ns_Second"

definition range_params :: "go_platform \<Rightarrow> string \<Rightarrow> time \<Rightarrow> time \<Rightarrow> duration \<Rightarrow> (string \<times> string) list" where
  "range_params pf query start end' step =
     [(''end'', itoa (Unix end')), (''query'', query), (''start'', itoa (Unix start)),
      (''step'', itoa (i64_of_float pf (Seconds step)))]"

definition range_url :: "go_platform \<Rightarrow> http_client \<Rightarrow> string \<Rightarrow> time \<Rightarrow> time \<Rightarrow> duration \<Rightarrow> string" where
  "range_url pf c query start end' step =
     cl_baseURL c @ ''/api/v1/query_range?'' @ Encode (range_params pf query start end' step)"

fun range_samples :: "go_platform \<Rightarrow> (float64 json \<times> float64 json) list \<Rightarrow> prom_error + prom_sample list" where
  "range_samples pf [] = Inr []"
| "range_samples pf ((t, v) # ps) =
     (case t of
        JNum ts \<Rightarrow>
          (case parse_sample v of
             Inl e \<Rightarrow> Inl e
           | Inr x \<Rightarrow> (case range_samples pf ps of
               Inl e \<Rightarrow> Inl e
             | Inr ss \<Rightarrow> Inr (\<lparr>smp_Timestamp = i64_of_float pf ts * ns_Second, smp_Value = x\<rparr> # ss)))
      | _ \<Rightarrow> Inl (TimestampNotNumber t))"

definition RangeQuery ::
    "go_platform \<Rightarrow> net \<Rightarrow> http_client \<Rightarrow> string \<Rightarrow> time \<Rightarrow> time \<Rightarrow> duration \<Rightarrow> prom_error + prom_sample list" where
  "RangeQuery pf net c query start end' step =
     (case prom_get net dec_rangeResponse (range_url pf c query start end' step) of
        Inl e \<Rightarrow> Inl e
      | Inr out \<Rightarrow> (case pm_Result out of [] \<Rightarrow> Inr [] | first # _ \<Rightarrow> range_samples pf (sr_Values first)))"

section \<open>Forecast Service\<close>

datatype forecast_error =
    FcMarshal marshal_error
  | FcBuild string
  | FcRequest net_error
  | FcStatus int
  | FcDecode json_error
  | InvalidPrediction float64
  | MissingModel

text \<open>The hourly profile is written as an array: the classifier always makes one of 24 bins.\<close>

definition marshal_context :: "context_payload \<Rightarrow> marshal_error + number json" where
  "marshal_context c =
     (case marshal_float (cpl_Trend24hSlope c) of
        Inl e \<Rightarrow> Inl e
      | Inr slope \<Rightarrow> Inr (JObj
          [(''baseline_rps'', marshal_int (sint (cpl_BaselineRPS c))),
           (''peak_p95_rps'', marshal_int (sint (cpl_PeakP95RPS c))),
           (''trend_24h_slope'', slope),
           (''hourly_profile'', JArr (map (\<lambda>v. marshal_int (sint v)) (cpl_HourlyProfile c))),
           (''hourly_profile_valid'', JBool (cpl_HourlyProfileValid c)),
           (''current_hour_utc'', marshal_int (sint (cpl_CurrentHourUTC c))),
           (''current_minute_utc'', marshal_int (sint (cpl_CurrentMinuteUTC c)))]))"

text \<open>Fields tagged \<^verbatim>\<open>omitempty\<close> are left out when empty or nil.\<close>

definition marshal_request :: "recommend_request \<Rightarrow> marshal_error + number json" where
  "marshal_request req =
     (case marshal_floats (rq_RpsHistory req) of
        Inl e \<Rightarrow> Inl e
      | Inr hist \<Rightarrow>
          (case (case rq_Context req of None \<Rightarrow> Inr []
                 | Some c \<Rightarrow> (case marshal_context c of Inl e \<Rightarrow> Inl e | Inr j \<Rightarrow> Inr [(''context'', j)])) of
             Inl e \<Rightarrow> Inl e
           | Inr ctx \<Rightarrow> Inr (JObj ([(''rps_history'', JArr hist)]
               @ (if rq_WorkloadID req = '''' then [] else [(''workload_id'', marshal_string (rq_WorkloadID req))])
               @ (if rq_PreferredModel req = '''' then [] else [(''preferred_model'', marshal_string (rq_PreferredModel req))])
               @ ctx))))"

definition dec_recommendResponse :: "recommend_response decoder" where
  "dec_recommendResponse = dec_struct ''forecast.RecommendResponse''
     [(''predicted_rps'', on_field rs_PredictedRPS rs_PredictedRPS_update dec_float),
      (''horizon_minutes'', on_field rs_HorizonMinutes rs_HorizonMinutes_update dec_int),
      (''model_used'', on_field rs_ModelUsed rs_ModelUsed_update dec_string)]"

definition Recommend :: "net \<Rightarrow> http_client \<Rightarrow> recommend_request \<Rightarrow> forecast_error + recommend_response" where
  "Recommend net c req =
     (let req = (if rq_PreferredModel req = ''auto'' then req\<lparr>rq_PreferredModel := ''''\<rparr> else req);
          u = cl_baseURL c @ ''/recommend''
      in case marshal_request req of
        Inl e \<Rightarrow> Inl (FcMarshal e)
      | Inr body \<Rightarrow>
          (case net_BadURL net u of
             Some e \<Rightarrow> Inl (FcBuild e)
           | None \<Rightarrow>
               (case net_Do net \<lparr>hq_Method = ''POST'', hq_URL = u, hq_ContentType = Some ''application/json'', hq_Body = Some body\<rparr> of
                  Inl e \<Rightarrow> Inl (FcRequest e)
                | Inr resp \<Rightarrow>
                    if \<not> success resp then Inl (FcStatus (hp_StatusCode resp))
                    else case Decode dec_recommendResponse
                           \<lparr>rs_PredictedRPS = Fin 0, rs_HorizonMinutes = 0, rs_ModelUsed = ''''\<rparr> resp of
                           Inl e \<Rightarrow> Inl (FcDecode e)
                         | Inr out \<Rightarrow>
                             if rs_PredictedRPS out = NaN \<or> rs_PredictedRPS out \<in> {PInf, NInf} \<or> flt (rs_PredictedRPS out) (Fin 0)
                             then Inl (InvalidPrediction (rs_PredictedRPS out))
                             else if rs_ModelUsed out = '''' then Inl MissingModel
                             else Inr out)))"

section \<open>Ollama\<close>

text \<open>Marshalling a chat request cannot fail: it holds no floats.\<close>

datatype ollama_error =
    OlBuild string
  | OlRequest net_error
  | ErrModelNotFound
  | OlStatus int
  | OlDecode json_error
  | ErrEmptyResponse

record chat_message =
  cm_Role :: string
  cm_Content :: string

record chat_request =
  cr_Model :: string
  cr_Messages :: "chat_message list"
  cr_MaxTokens :: int
  cr_Stream :: bool

record chat_choice =
  cc_Message :: chat_message
  cc_FinishReason :: string

definition marshal_chat :: "chat_request \<Rightarrow> number json" where
  "marshal_chat req = JObj
     [(''model'', marshal_string (cr_Model req)),
      (''messages'', JArr (map (\<lambda>m. JObj [(''role'', marshal_string (cm_Role m)), (''content'', marshal_string (cm_Content m))]) (cr_Messages req))),
      (''max_tokens'', marshal_int (cr_MaxTokens req)),
      (''stream'', JBool (cr_Stream req))]"

definition dec_chatResponse :: "chat_choice list decoder" where
  "dec_chatResponse = dec_struct ''ollama.chatResponse''
     [(''choices'', dec_slice ''[]struct''
        (dec_struct ''struct''
           [(''message'', on_field cc_Message cc_Message_update (dec_struct ''ollama.ChatMessage''
               [(''role'', on_field cm_Role cm_Role_update dec_string),
                (''content'', on_field cm_Content cm_Content_update dec_string)])),
            (''finish_reason'', on_field cc_FinishReason cc_FinishReason_update dec_string)])
        \<lparr>cc_Message = \<lparr>cm_Role = '''', cm_Content = ''''\<rparr>, cc_FinishReason = ''''\<rparr>)]"

definition Chat :: "net \<Rightarrow> http_client \<Rightarrow> chat_request \<Rightarrow> ollama_error + string" where
  "Chat net c req =
     (let req = req\<lparr>cr_Stream := False\<rparr>;
          u = cl_baseURL c @ ''/v1/chat/completions''
      in case net_BadURL net u of
        Some e \<Rightarrow> Inl (OlBuild e)
      | None \<Rightarrow>
          (case net_Do net \<lparr>hq_Method = ''POST'', hq_URL = u, hq_ContentType = Some ''application/json'', hq_Body = Some (marshal_chat req)\<rparr> of
             Inl e \<Rightarrow> Inl (OlRequest e)
           | Inr resp \<Rightarrow>
               if hp_StatusCode resp = 404 then Inl ErrModelNotFound
               else if \<not> success resp then Inl (OlStatus (hp_StatusCode resp))
               else case Decode dec_chatResponse [] resp of
                      Inl e \<Rightarrow> Inl (OlDecode e)
                    | Inr [] \<Rightarrow> Inl ErrEmptyResponse
                    | Inr (x # _) \<Rightarrow> if cm_Content (cc_Message x) = '''' then Inl ErrEmptyResponse
                                     else Inr (cm_Content (cc_Message x))))"

section \<open>What a client returns\<close>

definition forecast_ok :: "recommend_response \<Rightarrow> bool" where
  "forecast_ok r \<longleftrightarrow> (\<exists>x. rs_PredictedRPS r = Fin x \<and> 0 \<le> x) \<and> rs_ModelUsed r \<noteq> ''''"

lemma Recommend_ok: "Recommend net c req = Inr out \<Longrightarrow> forecast_ok out"
  by (cases "rs_PredictedRPS out")
     (auto simp: Recommend_def forecast_ok_def Let_def split: sum.splits option.splits if_splits)

lemma marshal_request_history: "marshal_request req = Inr body \<Longrightarrow> list_all finite64 (rq_RpsHistory req)"
  using marshal_floats_ok [of "rq_RpsHistory req"] by (auto simp: marshal_request_def split: sum.splits)

lemma Recommend_nonfinite:
  assumes "\<not> list_all finite64 (rq_RpsHistory req)"
  shows "\<exists>v. Recommend net c req = Inl (FcMarshal (UnsupportedValue v))"
proof -
  obtain v where "marshal_floats (rq_RpsHistory req) = Inl (UnsupportedValue v)"
    using marshal_floats_error [OF assms] by blast
  then show ?thesis by (simp add: Recommend_def marshal_request_def Let_def)
qed

text \<open>C32. A prediction reaches the controller only when it is usable: a forecast the client returns is
  finite and not negative and names its model, and a history with a value that is not finite is
  refused before anything is sent.\<close>

theorem forecast_usable:
  "(Recommend net c req = Inr out \<longrightarrow> forecast_ok out \<and> list_all finite64 (rq_RpsHistory req)) \<and>
   (\<not> list_all finite64 (rq_RpsHistory req) \<longrightarrow>
      (\<exists>v. Recommend net c req = Inl (FcMarshal (UnsupportedValue v)) \<and> \<not> finite64 v))"
proof -
  have "\<not> list_all finite64 (rq_RpsHistory req) \<Longrightarrow>
      \<exists>v. Recommend net c req = Inl (FcMarshal (UnsupportedValue v)) \<and> \<not> finite64 v"
    using marshal_floats_error [of "rq_RpsHistory req"]
    by (auto simp: Recommend_def marshal_request_def Let_def)
  then show ?thesis using Recommend_ok by (metis Inl_Inr_False)
qed

definition demo_net :: "http_response \<Rightarrow> net" where
  "demo_net resp = \<lparr>net_BadURL = \<lambda>_. None, net_Do = \<lambda>_. Inr resp\<rparr>"

definition demo_forecast :: http_response where
  "demo_forecast = \<lparr>hp_StatusCode = 200, hp_Body = Inr (JObj [(''predicted_rps'', JNum ''250''),
     (''horizon_minutes'', JNum ''15''), (''model_used'', JStr ''prophet'')])\<rparr>"

definition demo_request :: recommend_request where
  "demo_request = \<lparr>rq_RpsHistory = [Fin 100, Fin 120], rq_WorkloadID = ''ns/web'', rq_PreferredModel = ''auto'', rq_Context = None\<rparr>"

lemma demo_Recommend:
  "Recommend (demo_net demo_forecast) (New ''http://forecast'' 0) demo_request =
     Inr \<lparr>rs_PredictedRPS = Fin 250, rs_HorizonMinutes = 15, rs_ModelUsed = ''prophet''\<rparr>"
proof -
  have "ParseFloat64 ''250'' = Inr (Fin 250)" by code_simp
  moreover have "ParseInt 64 ''15'' = Inr 15" by (simp add: ParseInt_def is_digit_def digit_val_def)
  ultimately show ?thesis
    by (simp add: Recommend_def demo_net_def demo_forecast_def demo_request_def New_def marshal_request_def
        Decode_def dec_recommendResponse_def dec_defs success_def trunc_div_def)
qed

theorem forecast_usable_witness:
  "forecast_ok \<lparr>rs_PredictedRPS = Fin 250, rs_HorizonMinutes = 15, rs_ModelUsed = ''prophet''\<rparr> \<and>
   (\<exists>v. Recommend (demo_net demo_forecast) (New ''http://forecast'' 0) (demo_request\<lparr>rq_RpsHistory := [Fin 1, NaN]\<rparr>)
      = Inl (FcMarshal (UnsupportedValue v)) \<and> \<not> finite64 v)"
  using forecast_usable [of "demo_net demo_forecast" "New ''http://forecast'' 0" demo_request]
    forecast_usable [of "demo_net demo_forecast" "New ''http://forecast'' 0" "demo_request\<lparr>rq_RpsHistory := [Fin 1, NaN]\<rparr>"]
    demo_Recommend by (simp add: finite64_def)

text \<open>The model names \<^verbatim>\<open>auto\<close> and the empty one are the same request on the wire: the same calls with
  the same answers, and a body without the \<^verbatim>\<open>preferred_model\<close> key.\<close>

theorem auto_is_absent:
  "Recommend net c (req\<lparr>rq_PreferredModel := ''auto''\<rparr>) = Recommend net c (req\<lparr>rq_PreferredModel := ''''\<rparr>) \<and>
   (\<forall>body. marshal_request (req\<lparr>rq_PreferredModel := ''''\<rparr>) = Inr body \<longrightarrow>
      (\<exists>kvs. body = JObj kvs \<and> map_of kvs ''preferred_model'' = None))"
  by (auto simp: Recommend_def marshal_request_def Let_def split: sum.splits option.splits if_splits)

theorem auto_is_absent_witness:
  "\<exists>kvs. marshal_request (demo_request\<lparr>rq_PreferredModel := ''''\<rparr>) = Inr (JObj kvs) \<and> map_of kvs ''preferred_model'' = None"
  using auto_is_absent [of "demo_net demo_forecast" "New ''http://forecast'' 0" demo_request]
  by (auto simp: demo_request_def marshal_request_def)

lemma Chat_nonempty: "Chat net c req = Inr content \<Longrightarrow> content \<noteq> ''''"
  by (auto simp: Chat_def Let_def split: option.splits sum.splits list.splits if_splits)

text \<open>A range answer is taken whole or not at all, in order.\<close>

lemma range_samples_all:
  "range_samples pf ps = Inr ss \<Longrightarrow> list_all2 (\<lambda>p s. parse_sample (snd p) = Inr (smp_Value s)) ps ss"
  by (induction pf ps arbitrary: ss rule: range_samples.induct) (auto split: json.splits sum.splits)

section \<open>Queries\<close>

lemma sint_word_of_int64: "MinInt64 \<le> i \<Longrightarrow> i \<le> MaxInt64 \<Longrightarrow> sint (word_of_int i :: duration) = i"
  by (simp add: sint_sbintrunc' signed_take_bit_int_eq_self)

lemma Seconds_minutes:
  assumes "0 \<le> m" and "m * ns_Minute \<le> MaxInt64"
  shows "Seconds (word_of_int (m * ns_Minute)) = Fin (of_int (60 * m))"
proof -
  have s: "sint (word_of_int (m * ns_Minute) :: duration) = (60 * m) * ns_Second"
    using sint_word_of_int64 [of "m * ns_Minute"] assms by (simp only: mult.assoc)
  have z: "rnd 0 = Fin 0" using rnd_of_int [of 0] by simp
  have r: "rnd (of_int (60 * m)) = Fin (of_int (60 * m))" using assms by (intro rnd_of_int) simp
  have t: "trunc_div ((60 * m) * ns_Second) ns_Second = 60 * m" by (rule trunc_div_mult_cancel) simp
  show ?thesis unfolding Seconds_def Let_def s t using r z by simp
qed

text \<open>C34. A range query reaches Prometheus intact: reading back the query string of the URL the client
  builds gives exactly its four parameters, the query text unchanged whatever bytes it holds, the
  window as the whole seconds of its bounds and the step as its seconds.\<close>

theorem range_query_roundtrip:
  assumes "MinInt64 \<le> Unix start" and "Unix start \<le> MaxInt64" and "MinInt64 \<le> Unix end'" and "Unix end' \<le> MaxInt64"
    and "0 \<le> m" and "m * ns_Minute \<le> MaxInt64"
  shows "\<exists>q ps s e d. range_url pf c query start end' (word_of_int (m * ns_Minute)) = cl_baseURL c @ ''/api/v1/query_range?'' @ q \<and>
     parse_query q = Some ps \<and> length ps = 4 \<and> map_of ps ''query'' = Some query \<and>
     map_of ps ''start'' = Some s \<and> ParseInt 64 s = Inr (Unix start) \<and>
     map_of ps ''end'' = Some e \<and> ParseInt 64 e = Inr (Unix end') \<and>
     map_of ps ''step'' = Some d \<and> ParseInt 64 d = Inr (60 * m)"
proof -
  let ?ps = "range_params pf query start end' (word_of_int (m * ns_Minute))"
  have "parse_query (Encode ?ps) = Some ?ps"
    by (rule parse_query_Encode) (simp add: range_params_def)
  moreover have "i64_of_float pf (Seconds (word_of_int (m * ns_Minute))) = 60 * m"
    using assms(5,6) unfolding Seconds_minutes [OF assms(5,6)]
    by (simp add: i64_of_float_def trunc_rat_def flip: of_int_mult)
  moreover have "ParseInt 64 (itoa i) = Inr i" if "MinInt64 \<le> i" "i \<le> MaxInt64" for i
    using that by (intro ParseInt_itoa) simp_all
  ultimately show ?thesis
    using assms
    by (intro exI [of _ "Encode ?ps"] exI [of _ ?ps] exI [of _ "itoa (Unix start)"] exI [of _ "itoa (Unix end')"] exI [of _ "itoa (60 * m)"])
       (simp add: range_url_def range_params_def)
qed

theorem range_query_roundtrip_witness:
  "\<exists>q ps. range_url amd64 (New ''http://prom'' 0) ''sum(rate(x[1m]))'' 0 3600000000000 (word_of_int (1 * ns_Minute)) =
     ''http://prom'' @ ''/api/v1/query_range?'' @ q \<and> parse_query q = Some ps \<and> map_of ps ''query'' = Some ''sum(rate(x[1m]))''"
  using range_query_roundtrip [of 0 "3600000000000" 1 amd64 "New ''http://prom'' 0" "''sum(rate(x[1m]))''"]
  by (auto simp: Unix_def New_def)

end
