(* ===== verification/Explainer.thy ===== *)
theory Explainer
  imports Adapters
begin

text \<open>
  \<^verbatim>\<open>internal/explainer/prompt.go\<close> and \<^verbatim>\<open>internal/explainer/worker.go\<close>: the explanation worker. One
  request is handled by a function of the worker's configuration and of the answers of its calls
  (\<open>explain_env\<close>), returning what it logged and the effects in order. Strings are UTF-8 byte lists,
  so lengths are Go's \<^verbatim>\<open>len\<close>.

  Lemmas: trimming respects the length budget and keeps a prefix; a request yields at most one
  Event, only after Ollama answered, whose body starts with the token and keeps as much of the
  answer as fits; the cut may fall inside a UTF-8 sequence.
\<close>

section \<open>Prompt\<close>

definition SystemMessage :: string where
  "SystemMessage = ''You are observing a Kubernetes autoscaler. ''
     @ ''Explain scaling decisions in 2-3 plain English sentences. ''
     @ ''Be concise, specific, and ground your explanation in the data provided.''"

definition MaxEventLength :: int where "MaxEventLength = 500"

abbreviation NL :: string where "NL \<equiv> [CHR 0x0A]"

text \<open>The rightwards arrow, U+2192.\<close>

abbreviation arrow :: string where "arrow \<equiv> [CHR 0xE2, CHR 0x86, CHR 0x92]"

definition step_cap_line :: "explain_request \<Rightarrow> string" where
  "step_cap_line req =
     (if er_Reason req = StepCappedUp \<or> er_Reason req = StepCappedDown then
        ''This scale was limited by maxStep: the controller computed '' @ itoa32 (er_RecommendedReplicas req)
        @ '' replicas from the forecast but moved only to '' @ itoa32 (er_TargetReplicas req)
        @ '' this reconcile (cap: '' @ itoa32 (er_EffectiveMaxStep req) @ '' replicas per reconcile).'' @ NL
      else '''')"

definition binding_lines :: "explain_request \<Rightarrow> string" where
  "binding_lines req =
     (if er_Reason req = MaxReplicasBinding then
        ''This scale was limited by maxReplicas: the forecast asked for '' @ itoa32 (er_UnboundedRecommended req)
        @ '' replicas but the CRD bound capped it at maxReplicas='' @ itoa32 (er_MaxReplicas req)
        @ ''. Raise spec.maxReplicas to let the autoscaler scale further.'' @ NL
      else '''')
     @ (if er_Reason req = MinReplicasBinding then
          ''This scale was limited by minReplicas: the forecast asked for only '' @ itoa32 (er_UnboundedRecommended req)
          @ '' replicas but the CRD bound floored it at minReplicas='' @ itoa32 (er_MinReplicas req) @ ''.'' @ NL
        else '''')"

definition BuildPrompt :: "explain_request \<Rightarrow> string \<times> string" where
  "BuildPrompt req = (SystemMessage,
     (if er_Pattern req \<noteq> '''' \<and> er_Pattern req \<noteq> ''default'' then
        ''Traffic pattern: '' @ er_Pattern req @ '' (confidence: '' @ er_Confidence req @ '')'' @ NL
      else '''')
     @ (if er_Pattern req \<noteq> '''' then
          ''Long-term context: baseline '' @ itoa32 (er_BaselineRPS req) @ '' rps, p95 ''
          @ itoa32 (er_PeakP95RPS req) @ '' rps'' @ NL
        else '''')
     @ ''Current RPS: '' @ fmt_1f (er_CurrentRPS req) @ '', Predicted RPS ('' @ itoa (er_HorizonMinutes req)
     @ '' min ahead): '' @ fmt_1f (er_PredictedRPS req) @ NL
     @ ''Scaling: '' @ itoa32 (er_CurrentReplicas req) @ '' '' @ arrow @ '' '' @ itoa32 (er_TargetReplicas req)
     @ '' replicas ('' @ er_Reason req @ '')'' @ NL
     @ step_cap_line req
     @ binding_lines req
     @ ''Forecasting model: '' @ er_ModelUsed req @ NL
     @ ''Active parameters: scaleUpCooldown='' @ itoa32 (er_EffectiveCooldownUp req)
     @ ''s, scaleDownCooldown='' @ itoa32 (er_EffectiveCooldownDown req)
     @ ''s, maxStep='' @ itoa32 (er_EffectiveMaxStep req) @ NL
     @ NL @ ''Explain why this decision was made and what the traffic data suggests ''
     @ ''relative to the workload'' @ [CHR 0x27] @ ''s long-term baseline.'')"

text \<open>Slicing with a negative bound panics, hence \<open>None\<close>.\<close>

definition TrimContent :: "string \<Rightarrow> int \<Rightarrow> string option" where
  "TrimContent s maxLen =
     (if int (length s) \<le> maxLen then Some s
      else if maxLen \<le> 3 then (if maxLen < 0 then None else Some (take (nat maxLen) s))
      else Some (take (nat (maxLen - 3)) s @ ''...''))"

section \<open>Worker\<close>

record explain_config =
  xc_Model :: string
  xc_MaxTokens :: int
  xc_Timeout :: duration

record explain_env =
  xe_Chat :: "chat_request \<Rightarrow> ollama_error + string"
  xe_EventRecorder :: bool \<comment> \<open>not nil\<close>
  xe_Client :: bool \<comment> \<open>not nil\<close>
  xe_Get :: "namespaced_name \<Rightarrow> api_error + aas"

datatype log_entry = LogInfo string | LogError ollama_error | LogPanicked

definition explain_PanicBackoff :: duration where
  "explain_PanicBackoff = 60 * word_of_int ns_Second"

definition chat_request_of :: "explain_config \<Rightarrow> explain_request \<Rightarrow> chat_request" where
  "chat_request_of cfg req =
     (let (sys, user) = BuildPrompt req in
      \<lparr>cr_Model = xc_Model cfg,
       cr_Messages = [\<lparr>cm_Role = ''system'', cm_Content = sys\<rparr>, \<lparr>cm_Role = ''user'', cm_Content = user\<rparr>],
       cr_MaxTokens = xc_MaxTokens cfg, cr_Stream = False\<rparr>)"

definition logOllamaErr :: "ollama_error \<Rightarrow> log_entry" where
  "logOllamaErr err =
     (case err of
        ErrModelNotFound \<Rightarrow> LogInfo ''ollama model not found; run `ollama pull <model>`''
      | ErrEmptyResponse \<Rightarrow> LogInfo ''ollama returned empty response; skipping event''
      | OlRequest (ConnRefused _) \<Rightarrow> LogInfo (''ollama unreachable (connection refused); explanations disabled. ''
          @ ''Set OLLAMA_URL to a reachable endpoint to enable.'')
      | _ \<Rightarrow> LogError err)"

definition explain_emitEvent :: "explain_env \<Rightarrow> explain_request \<Rightarrow> string \<Rightarrow> effect list option" where
  "explain_emitEvent env req message =
     (if \<not> xe_EventRecorder env \<or> \<not> xe_Client env then Some []
      else case xe_Get env \<lparr>nn_Namespace = er_Namespace req, nn_Name = er_Name req\<rparr> of
        Inl _ \<Rightarrow> Some []
      | Inr a \<Rightarrow>
          map_option (\<lambda>body. [EffEvent (aas_key a) Normal (PascalReason ScaleExplained) body])
            (TrimContent ((ScaleExplained @ '' '') @ message) MaxEventLength))"

text \<open>The body of a request; \<open>None\<close> is a panic.\<close>

definition handleRequest ::
    "explain_config \<Rightarrow> explain_env \<Rightarrow> explain_request \<Rightarrow> (log_entry list \<times> effect list) option" where
  "handleRequest cfg env req =
     (case xe_Chat env (chat_request_of cfg req) of
        Inl err \<Rightarrow> Some ([logOllamaErr err], [])
      | Inr content \<Rightarrow>
          (case TrimContent content MaxEventLength of
             None \<Rightarrow> None
           | Some trimmed \<Rightarrow>
               if trimmed = '''' then Some ([LogInfo ''ollama returned empty content; skipping event''], [])
               else map_option (Pair []) (explain_emitEvent env req trimmed)))"

text \<open>One turn of the loop: nothing while the channel is empty; otherwise the oldest request is taken and
  handled. A panic is recovered into a log line and a pause.\<close>

definition explain_turn ::
    "explain_config \<Rightarrow> explain_env \<Rightarrow> explain_request channel
      \<Rightarrow> (explain_request \<times> explain_request channel \<times> log_entry list \<times> effect list \<times> duration) option" where
  "explain_turn cfg env ch =
     (case try_recv ch of
        (None, _) \<Rightarrow> None
      | (Some req, ch') \<Rightarrow>
          (case handleRequest cfg env req of
             None \<Rightarrow> Some (req, ch', [LogPanicked], [], explain_PanicBackoff)
           | Some (logs, effs) \<Rightarrow> Some (req, ch', logs, effs, 0)))"

section \<open>Trimming\<close>

lemma TrimContent_short: "int (length s) \<le> n \<Longrightarrow> TrimContent s n = Some s"
  by (simp add: TrimContent_def)

lemma TrimContent_long:
  "n < int (length s) \<Longrightarrow> 3 < n \<Longrightarrow> TrimContent s n = Some (take (nat (n - 3)) s @ ''...'')"
  by (simp add: TrimContent_def)

text \<open>Trimming keeps the length budget: for every budget that is not negative it returns a text of
  at most that many bytes, the text itself when it fits, and otherwise one of exactly that length
  which keeps a prefix and, with room for it, ends in an ellipsis.\<close>

theorem TrimContent_budget:
  assumes "0 \<le> n"
  shows "\<exists>t. TrimContent s n = Some t \<and> int (length t) = min n (int (length s)) \<and>
     (int (length s) \<le> n \<longrightarrow> t = s) \<and> take (nat (n - 3)) t = take (nat (n - 3)) s \<and>
     (n < int (length s) \<and> 3 < n \<longrightarrow> (\<exists>u. t = u @ ''...''))"
  using assms by (auto simp: TrimContent_def min_def)

theorem TrimContent_budget_witness:
  "\<exists>t. TrimContent ''scaled up because of load'' 10 = Some t \<and> int (length t) = 10"
  using TrimContent_budget [of 10 "''scaled up because of load''"] by auto

text \<open>Trimming counts bytes, not characters: what is left of an answer of more than 500 bytes is valid
  UTF-8 iff its 497-byte prefix is, so a valid answer with a character across that position is
  turned into an invalid one.\<close>

theorem TrimContent_splits_rune:
  assumes "500 < length s"
  shows "\<exists>t. TrimContent s MaxEventLength = Some t \<and> (ValidString t \<longleftrightarrow> ValidString (take 497 s))"
  using assms ValidString_append_ascii [of "''...''" "take 497 s"]
  by (simp add: TrimContent_def MaxEventLength_def)

theorem TrimContent_splits_rune_witness:
  "ValidString (replicate 496 (CHR ''a'') @ arrow @ ''aa'') \<and>
   (\<exists>t. TrimContent (replicate 496 (CHR ''a'') @ arrow @ ''aa'') MaxEventLength = Some t \<and> \<not> ValidString t)"
proof -
  let ?s = "replicate 496 (CHR ''a'') @ arrow @ ''aa''"
  have a: "\<forall>c \<in> set (replicate 496 (CHR ''a'')). byte c < 0x80" by simp
  have "ValidString (arrow @ ''aa'')" "\<not> ValidString [CHR 0xE2]" by code_simp+
  then have "ValidString ?s" "\<not> ValidString (take 497 ?s)"
    by (simp_all only: ValidString_ascii [OF a] take_append) (simp add: ValidString_ascii [OF a])
  then show ?thesis using TrimContent_splits_rune [of ?s] by simp
qed

section \<open>Handling a request\<close>

lemma prefix_length: "length (ScaleExplained @ '' '') = 16"
  by (simp add: ScaleExplained_def)

lemma trim_twice:
  assumes "TrimContent content MaxEventLength = Some trimmed"
  shows "TrimContent ((ScaleExplained @ '' '') @ trimmed) MaxEventLength =
     Some ((ScaleExplained @ '' '') @ (if length content \<le> 484 then content else take 481 content @ ''...''))"
proof -
  have p: "length ScaleExplained = 15" by (simp add: ScaleExplained_def)
  consider "length content \<le> 484" | "484 < length content" "length content \<le> 500" | "500 < length content"
    by linarith
  then show ?thesis
    using assms p by cases (auto simp: TrimContent_def MaxEventLength_def min_def)
qed

text \<open>The outcome of one request, as a table.\<close>

lemma handleRequest_cases:
  "handleRequest cfg env req =
     (case xe_Chat env (chat_request_of cfg req) of
        Inl err \<Rightarrow> Some ([logOllamaErr err], [])
      | Inr content \<Rightarrow>
          if content = '''' then Some ([LogInfo ''ollama returned empty content; skipping event''], [])
          else Some ([],
            if xe_EventRecorder env \<and> xe_Client env then
              (case xe_Get env \<lparr>nn_Namespace = er_Namespace req, nn_Name = er_Name req\<rparr> of
                 Inl _ \<Rightarrow> []
               | Inr a \<Rightarrow> [EffEvent (aas_key a) Normal ''ScaleExplained''
                   ((ScaleExplained @ '' '') @ (if length content \<le> 484 then content else take 481 content @ ''...''))])
            else []))"
proof (cases "xe_Chat env (chat_request_of cfg req)")
  case (Inr content)
  obtain trimmed where t: "TrimContent content MaxEventLength = Some trimmed" "trimmed = '''' \<longleftrightarrow> content = ''''"
    by (rule that [of "if length content \<le> 500 then content else take 497 content @ ''...''"])
       (auto simp: TrimContent_def MaxEventLength_def)
  have "PascalReason ScaleExplained = ''ScaleExplained''" by code_simp
  then show ?thesis
    using Inr t trim_twice [OF t(1)]
    by (auto simp: handleRequest_def explain_emitEvent_def split: sum.splits)
qed (simp add: handleRequest_def)

text \<open>C36. One explanation request never panics and emits at most one Event, and none unless Ollama
  returned text; that Event is a normal \<^verbatim>\<open>ScaleExplained\<close> of at most 500 bytes on the object named in
  the request as just read, its body the token, a space and the answer, cut to 481 bytes and an
  ellipsis only when it has more than 484.\<close>

theorem explanation_event:
  "\<exists>logs effs. handleRequest cfg env req = Some (logs, effs) \<and>
     (effs = [] \<or> (\<exists>content a body. xe_Chat env (chat_request_of cfg req) = Inr content \<and> content \<noteq> '''' \<and>
        xe_Get env \<lparr>nn_Namespace = er_Namespace req, nn_Name = er_Name req\<rparr> = Inr a \<and>
        effs = [EffEvent (aas_key a) Normal ''ScaleExplained'' body] \<and> length body \<le> 500 \<and>
        body = ScaleExplained @ '' '' @ (if length content \<le> 484 then content else take 481 content @ ''...'')))"
  using prefix_length unfolding handleRequest_cases
  by (auto split: sum.splits if_splits)

definition demo_explain :: explain_request where
  "demo_explain = \<lparr>er_Namespace = ''ns'', er_Name = ''web'', er_Reason = ScaleUp, er_CurrentReplicas = 3,
     er_RecommendedReplicas = 5, er_TargetReplicas = 5, er_CurrentRPS = Fin 300, er_PredictedRPS = Fin 500,
     er_HorizonMinutes = 15, er_ModelUsed = ''prophet'', er_Pattern = '''', er_Confidence = '''',
     er_EffectiveCooldownUp = 60, er_EffectiveCooldownDown = 300, er_EffectiveMaxStep = 4,
     er_UnboundedRecommended = 5, er_MaxReplicas = 10, er_MinReplicas = 2, er_BaselineRPS = 0,
     er_PeakP95RPS = 0, er_HourlyProfileValid = False\<rparr>"

definition demo_explain_env :: "(ollama_error + string) \<Rightarrow> aas \<Rightarrow> explain_env" where
  "demo_explain_env r a = \<lparr>xe_Chat = \<lambda>_. r, xe_EventRecorder = True, xe_Client = True, xe_Get = \<lambda>_. Inr a\<rparr>"

theorem explanation_event_witness:
  "\<exists>logs. handleRequest \<lparr>xc_Model = ''llama3.2'', xc_MaxTokens = 150, xc_Timeout = 0\<rparr>
     (demo_explain_env (Inr ''Load is rising.'') demo_cr) demo_explain =
     Some (logs, [EffEvent (aas_key demo_cr) Normal ''ScaleExplained'' ''scale_explained Load is rising.''])"
proof -
  let ?cfg = "\<lparr>xc_Model = ''llama3.2'', xc_MaxTokens = 150, xc_Timeout = 0\<rparr>"
  let ?env = "demo_explain_env (Inr ''Load is rising.'') demo_cr"
  have e: "xe_Chat ?env q = Inr ''Load is rising.''" "xe_Get ?env k = Inr demo_cr" for q k
    by (simp_all add: demo_explain_env_def)
  obtain logs effs where h: "handleRequest ?cfg ?env demo_explain = Some (logs, effs)"
    "effs = [] \<or> effs = [EffEvent (aas_key demo_cr) Normal ''ScaleExplained'' ''scale_explained Load is rising.'']"
    using explanation_event [of ?cfg ?env demo_explain] e by (fastforce simp: ScaleExplained_def)
  moreover have "effs \<noteq> []"
    using h(1) unfolding handleRequest_cases by (auto simp: demo_explain_env_def split: if_splits)
  ultimately show ?thesis by blast
qed

text \<open>Ollama being absent is not an alert: a missing model, an empty answer and a refused connection
  are logged as information, every other failure as an error, and none of them emits an Event.\<close>

theorem ollama_failure_quiet:
  assumes "xe_Chat env (chat_request_of cfg req) = Inl err"
  shows "\<exists>entry. handleRequest cfg env req = Some ([entry], []) \<and>
     (entry = LogError err \<longleftrightarrow> err \<notin> {ErrModelNotFound, ErrEmptyResponse} \<and> (\<forall>m. err \<noteq> OlRequest (ConnRefused m)))"
  using assms
  by (auto simp: handleRequest_def logOllamaErr_def split: ollama_error.splits net_error.splits)

theorem ollama_failure_quiet_witness:
  "\<exists>entry. handleRequest \<lparr>xc_Model = ''llama3.2'', xc_MaxTokens = 150, xc_Timeout = 0\<rparr>
     (demo_explain_env (Inl (OlRequest (ConnRefused ''dial tcp''))) demo_cr) demo_explain = Some ([entry], []) \<and>
     entry \<noteq> LogError (OlRequest (ConnRefused ''dial tcp''))"
  using ollama_failure_quiet [of "demo_explain_env (Inl (OlRequest (ConnRefused ''dial tcp''))) demo_cr"
      "\<lparr>xc_Model = ''llama3.2'', xc_MaxTokens = 150, xc_Timeout = 0\<rparr>" demo_explain "OlRequest (ConnRefused ''dial tcp'')"]
  by (simp add: demo_explain_env_def)

end
