(* ===== verification/Webhook.thy ===== *)
theory Webhook
  imports Api
begin

text \<open>
  \<^verbatim>\<open>internal/webhook/v1alpha1\<close>: the validating admission webhook. \<open>ValidateSpec\<close> collects one
  problem per violated rule and returns them in one message; the three handlers of the custom
  validator take an arbitrary runtime object. The problems are a datatype, one constructor per
  message of the code, printed by \<open>problem_text\<close>.

  Lemmas: a spec is admitted exactly when it meets the bounds read over the integers
  (\<open>valid_spec\<close>; the 32-bit subtraction \<^verbatim>\<open>max - min\<close> does wrap, but never on a spec that passes
  the other rules), and no violated rule goes unreported.
\<close>

datatype problem =
    MinReplicasBelow1 int32
  | MaxNotAboveMin int32 int32
  | RpsMinBelow1 int32
  | RpsMinNotBelowMax int32 int32
  | StepBelow1 int32
  | StepAboveRange int32 int32
  | UpCooldownBelow0 int32
  | DownCooldownBelow0 int32
  | UnknownForecaster string

fun problem_text :: "problem \<Rightarrow> string" where
  "problem_text (MinReplicasBelow1 v) = ''minReplicas='' @ itoa32 v @ '' must be >= 1''"
| "problem_text (MaxNotAboveMin mx mn) =
     ''maxReplicas='' @ itoa32 mx @ '' must be > minReplicas='' @ itoa32 mn"
| "problem_text (RpsMinBelow1 v) = ''rpsPerPodMin='' @ itoa32 v @ '' must be >= 1''"
| "problem_text (RpsMinNotBelowMax mn mx) =
     ''rpsPerPodMin='' @ itoa32 mn @ '' must be < rpsPerPodMax='' @ itoa32 mx"
| "problem_text (StepBelow1 v) = ''maxStepSize='' @ itoa32 v @ '' must be >= 1''"
| "problem_text (StepAboveRange v r) =
     ''maxStepSize='' @ itoa32 v @ '' must be <= maxReplicas - minReplicas (='' @ itoa32 r @ '')''"
| "problem_text (UpCooldownBelow0 v) = ''scaleUpCooldownSeconds='' @ itoa32 v @ '' must be >= 0''"
| "problem_text (DownCooldownBelow0 v) = ''scaleDownCooldownSeconds='' @ itoa32 v @ '' must be >= 0''"
| "problem_text (UnknownForecaster f) =
     ''preferredForecaster='' @ quote f @ '' must be one of prophet, linear_extrap, gbdt_quantile, auto''"

text \<open>A check on an optional field: \<^verbatim>\<open>nil\<close> is never a problem.\<close>

definition when_set :: "'a option \<Rightarrow> ('a \<Rightarrow> problem list) \<Rightarrow> problem list" where
  "when_set x f = (case x of None \<Rightarrow> [] | Some v \<Rightarrow> f v)"

definition accepted_forecasters :: "string list" where
  "accepted_forecasters = [''prophet'', ''linear_extrap'', ''gbdt_quantile'', ''auto'']"

definition spec_problems :: "aas_spec \<Rightarrow> problem list" where
  "spec_problems spec =
     when_set (spec_MinReplicas spec) (\<lambda>mn. if mn <s 1 then [MinReplicasBelow1 mn] else [])
     @ when_set (spec_MinReplicas spec) (\<lambda>mn. when_set (spec_MaxReplicas spec) (\<lambda>mx.
         if mx \<le>s mn then [MaxNotAboveMin mx mn] else []))
     @ when_set (spec_RpsPerPodMin spec) (\<lambda>v. if v <s 1 then [RpsMinBelow1 v] else [])
     @ when_set (spec_RpsPerPodMin spec) (\<lambda>mn. when_set (spec_RpsPerPodMax spec) (\<lambda>mx.
         if mx \<le>s mn then [RpsMinNotBelowMax mn mx] else []))
     @ when_set (spec_MaxStepSize spec) (\<lambda>v.
         (if v <s 1 then [StepBelow1 v] else [])
         @ when_set (spec_MinReplicas spec) (\<lambda>mn. when_set (spec_MaxReplicas spec) (\<lambda>mx.
             let rangeSize = mx - mn in
             if rangeSize <s v then [StepAboveRange v rangeSize] else [])))
     @ when_set (spec_ScaleUpCooldownSeconds spec) (\<lambda>v. if v <s 0 then [UpCooldownBelow0 v] else [])
     @ when_set (spec_ScaleDownCooldownSeconds spec) (\<lambda>v. if v <s 0 then [DownCooldownBelow0 v] else [])
     @ when_set (spec_PreferredForecaster spec) (\<lambda>f.
         if f \<in> set accepted_forecasters then [] else [UnknownForecaster f])"

definition ValidateSpec :: "aas_spec \<Rightarrow> string option" where
  "ValidateSpec spec =
     (let problems = map problem_text (spec_problems spec) in
      if length problems = 0 then None
      else Some (''agenticautoscaler validation failed: '' @ join ''; '' problems))"

section \<open>The admission handlers\<close>

text \<open>An object handed to the webhook: the custom resource, or something else with the name of
  its Go type. A handler returns its warnings and its error.\<close>

datatype runtime_object = AasObject aas | OtherObject string

definition ValidateCreate :: "runtime_object \<Rightarrow> string list \<times> string option" where
  "ValidateCreate obj = (case obj of
     OtherObject t \<Rightarrow> ([], Some (''expected a AgenticAutoscaler object but got '' @ t))
   | AasObject a \<Rightarrow> ([], ValidateSpec (aas_Spec a)))"

definition ValidateUpdate :: "runtime_object \<Rightarrow> runtime_object \<Rightarrow> string list \<times> string option" where
  "ValidateUpdate oldObj newObj = (case newObj of
     OtherObject t \<Rightarrow> ([], Some (''expected a AgenticAutoscaler object for the newObj but got '' @ t))
   | AasObject a \<Rightarrow> ([], ValidateSpec (aas_Spec a)))"

definition ValidateDelete :: "runtime_object \<Rightarrow> string list \<times> string option" where
  "ValidateDelete obj = ([], None)"

section \<open>What admission guarantees\<close>

definition on_set :: "'a option \<Rightarrow> ('a \<Rightarrow> bool) \<Rightarrow> bool" where
  "on_set x P \<longleftrightarrow> (case x of None \<Rightarrow> True | Some v \<Rightarrow> P v)"

lemma on_set_simps [simp]: "on_set None P" "on_set (Some v) P = P v"
  by (simp_all add: on_set_def)

lemma when_set_simps [simp]: "when_set None f = []" "when_set (Some v) f = f v"
  by (simp_all add: when_set_def)

lemma when_set_Nil: "when_set x f = [] \<longleftrightarrow> on_set x (\<lambda>v. f v = [])"
  by (cases x) simp_all

text \<open>The rules of the design over the integers, without any machine arithmetic.\<close>

definition valid_spec :: "aas_spec \<Rightarrow> bool" where
  "valid_spec spec \<longleftrightarrow>
     on_set (spec_MinReplicas spec) (\<lambda>mn. 1 \<le> sint mn) \<and>
     on_set (spec_MinReplicas spec) (\<lambda>mn. on_set (spec_MaxReplicas spec) (\<lambda>mx. sint mn < sint mx)) \<and>
     on_set (spec_RpsPerPodMin spec) (\<lambda>v. 1 \<le> sint v) \<and>
     on_set (spec_RpsPerPodMin spec) (\<lambda>mn. on_set (spec_RpsPerPodMax spec) (\<lambda>mx. sint mn < sint mx)) \<and>
     on_set (spec_MaxStepSize spec) (\<lambda>v. 1 \<le> sint v \<and>
       on_set (spec_MinReplicas spec) (\<lambda>mn. on_set (spec_MaxReplicas spec) (\<lambda>mx.
         sint v \<le> sint mx - sint mn))) \<and>
     on_set (spec_ScaleUpCooldownSeconds spec) (\<lambda>v. 0 \<le> sint v) \<and>
     on_set (spec_ScaleDownCooldownSeconds spec) (\<lambda>v. 0 \<le> sint v) \<and>
     on_set (spec_PreferredForecaster spec) (\<lambda>f. f \<in> {''prophet'', ''linear_extrap'', ''gbdt_quantile'', ''auto''})"

lemma step_rule:
  assumes "on_set mn (\<lambda>mn. 1 \<le> sint mn)" "on_set mn (\<lambda>mn. on_set mx (\<lambda>mx. sint mn < sint mx))"
  shows "on_set mn (\<lambda>mn. on_set mx (\<lambda>mx. \<not> sint (mx - mn :: int32) < sint (v :: int32))) \<longleftrightarrow>
         on_set mn (\<lambda>mn. on_set mx (\<lambda>mx. sint v \<le> sint mx - sint mn))"
  using assms by (cases mn; cases mx) (auto simp: range_exact)

lemma spec_problems_Nil: "spec_problems spec = [] \<longleftrightarrow> valid_spec spec"
proof (cases "on_set (spec_MinReplicas spec) (\<lambda>mn. 1 \<le> sint mn) \<and>
    on_set (spec_MinReplicas spec) (\<lambda>mn. on_set (spec_MaxReplicas spec) (\<lambda>mx. sint mn < sint mx))")
  case True
  then show ?thesis
    using step_rule [of "spec_MinReplicas spec" "spec_MaxReplicas spec"]
    by (cases "spec_MaxStepSize spec")
       (simp_all add: spec_problems_def valid_spec_def when_set_Nil signed_less signed_le Let_def
         accepted_forecasters_def not_less not_le)
next
  case False
  then show ?thesis
    by (auto simp: spec_problems_def valid_spec_def when_set_Nil signed_less signed_le not_less not_le)
qed

lemma ValidateSpec_None: "ValidateSpec spec = None \<longleftrightarrow> valid_spec spec"
  by (simp add: ValidateSpec_def Let_def spec_problems_Nil)

text \<open>C22. Admission is exact: a created or updated resource is accepted iff its spec satisfies the
  documented bounds over the integers, and an object of another type is always rejected; the
  wrap-around of the 32-bit difference \<^verbatim>\<open>maxReplicas - minReplicas\<close> never lets a bad step size
  through nor rejects a good one.\<close>

theorem admission_exact:
  "(snd (ValidateCreate obj) = None \<longleftrightarrow> (\<exists>a. obj = AasObject a \<and> valid_spec (aas_Spec a))) \<and>
   (snd (ValidateUpdate old obj) = None \<longleftrightarrow> (\<exists>a. obj = AasObject a \<and> valid_spec (aas_Spec a)))"
  by (cases obj) (simp_all add: ValidateCreate_def ValidateUpdate_def ValidateSpec_None)

text \<open>Every violated rule appears in the one message: whenever a field breaks its own rule the
  rejection names it, whatever the other fields are.\<close>

theorem ValidateSpec_reports_each:
  assumes "p \<in> set (spec_problems spec)"
  shows "\<exists>pre post. ValidateSpec spec =
     Some (''agenticautoscaler validation failed: '' @ pre @ problem_text p @ post)"
proof -
  obtain xs ys where xy: "spec_problems spec = xs @ p # ys"
    using assms by (meson split_list)
  have "\<exists>pre post. join ''; '' (map problem_text (xs @ p # ys)) = pre @ problem_text p @ post" for xs ys
  proof (induction xs)
    case Nil
    then show ?case by (cases ys) (auto intro: exI [of _ "[]"])
  next
    case (Cons x xs)
    then obtain pre post where
      "join ''; '' (map problem_text (xs @ p # ys)) = pre @ problem_text p @ post" by blast
    then show ?case
      by (cases "xs @ p # ys")
         (auto intro: exI [of _ "problem_text x @ ''; '' @ pre"])
  qed
  then show ?thesis using xy by (fastforce simp: ValidateSpec_def Let_def)
qed

definition bad_spec :: aas_spec where
  "bad_spec = \<lparr>spec_TargetRef = \<lparr>ref_APIVersion = ''apps/v1'', ref_Kind = ''Deployment'', ref_Name = ''web''\<rparr>,
     spec_MinReplicas = Some 3, spec_MaxReplicas = Some 3, spec_RpsPerPodMin = Some 10,
     spec_RpsPerPodMax = Some 20, spec_MaxStepSize = None, spec_ScaleUpCooldownSeconds = Some (- 1),
     spec_ScaleDownCooldownSeconds = None, spec_PreferredForecaster = None\<rparr>"

theorem ValidateSpec_reports_each_witness:
  "\<exists>pre post. ValidateSpec bad_spec =
     Some (''agenticautoscaler validation failed: '' @ pre @ problem_text (UpCooldownBelow0 (- 1)) @ post)"
  by (rule ValidateSpec_reports_each) (simp add: spec_problems_def bad_spec_def signed_less signed_le)

end
