(* ===== verification/Wiring.thy ===== *)
theory Wiring
  imports ControllerProps ClassifierWorker Explainer Webhook
begin

text \<open>
  How \<^verbatim>\<open>cmd/controller/main.go\<close> puts the components together: which part of the configuration each
  gets, the state they start from, and the adapters behind the interfaces the reconciler and the
  explainer call. The text of an adapter's error, which ends up in Events, is a parameter.

  Theorems that need two components at once: a history that cannot be encoded stops the hot path,
  every forecast the decision sees is usable, and the classifier as wired runs the one-minute
  pipeline and never publishes a context.
\<close>

section \<open>Wiring\<close>

definition prom_client :: "config \<Rightarrow> http_client" where
  "prom_client cfg = New (cfg_PrometheusURL cfg) (cfg_ForecastTimeout cfg)"

definition forecast_client :: "config \<Rightarrow> http_client" where
  "forecast_client cfg = forecast_New (cfg_ForecastServiceURL cfg) (cfg_ForecastTimeout cfg)"

definition ollama_client :: "config \<Rightarrow> http_client" where
  "ollama_client cfg = ollama_New (cfg_OllamaURL cfg) (cfg_OllamaTimeout cfg)"

text \<open>The fields of \<^verbatim>\<open>classifier.WorkerConfig\<close> that \<^verbatim>\<open>main\<close> does not set keep Go's zero value.\<close>

definition classifier_config :: "config \<Rightarrow> worker_config" where
  "classifier_config cfg =
     \<lparr>wc_Interval = cfg_ClassifierInterval cfg, wc_HistoryHours = cfg_ClassifierHistory cfg,
      wc_MinPoints = sint (cfg_ClassifierMinPoints cfg),
      wc_HighConfPoints = sint (cfg_ClassifierHighConfidencePoints cfg),
      wc_DedupSeconds = trunc_div (sint (cfg_ClassifierDedup cfg)) ns_Second,
      wc_ResolutionMin = 0, wc_HourlyProfileMinHours = 0, wc_CVGuardMeanRPS = Fin 0\<rparr>"

definition explainer_config :: "config \<Rightarrow> explain_config" where
  "explainer_config cfg =
     \<lparr>xc_Model = cfg_OllamaModel cfg, xc_MaxTokens = sint (cfg_OllamaMaxTokens cfg), xc_Timeout = cfg_OllamaTimeout cfg\<rparr>"

definition initial_controller :: "config \<Rightarrow> controller" where
  "initial_controller cfg =
     \<lparr>ct_StateStore = NewStateStore, ct_Classifier = Some (NewManager (classifier_config cfg)),
      ct_explainCh = make_chan 1, ct_metrics = no_metrics, ct_trace = []\<rparr>"

text \<open>Start-up: configuration errors are printed and end the process with status 1.\<close>

definition start_main :: "(string \<Rightarrow> string) \<Rightarrow> config_error list + config \<times> controller" where
  "start_main env =
     (case LoadFromEnv env of
        Inl errs \<Rightarrow> Inl errs
      | Inr cfg \<Rightarrow> Inr (cfg, initial_controller cfg))"

definition wire_reconciler ::
    "go_platform \<Rightarrow> net \<Rightarrow> (prom_error \<Rightarrow> string) \<Rightarrow> (forecast_error \<Rightarrow> string) \<Rightarrow> config \<Rightarrow> reconcile_env \<Rightarrow> reconcile_env" where
  "wire_reconciler pf net ptext ftext cfg env = env\<lparr>
     re_InstantQuery := \<lambda>q. map_sum ptext id (InstantQuery net (prom_client cfg) q),
     re_RangeQuery := \<lambda>q s e d. map_sum ptext id (RangeQuery pf net (prom_client cfg) q s e d),
     re_Recommend := \<lambda>req. map_sum ftext id (Recommend net (forecast_client cfg) req)\<rparr>"

definition wire_explainer :: "net \<Rightarrow> config \<Rightarrow> explain_env \<Rightarrow> explain_env" where
  "wire_explainer net cfg env = env\<lparr>xe_Chat := Chat net (ollama_client cfg), xe_EventRecorder := True, xe_Client := True\<rparr>"

lemma wire_reconciler_simps [simp]:
  "re_Get (wire_reconciler pf net pt ft cfg env) = re_Get env"
  "re_ListHPA (wire_reconciler pf net pt ft cfg env) = re_ListHPA env"
  "re_RangeQuery (wire_reconciler pf net pt ft cfg env) q s e d = map_sum pt id (RangeQuery pf net (prom_client cfg) q s e d)"
  "re_Recommend (wire_reconciler pf net pt ft cfg env) req = map_sum ft id (Recommend net (forecast_client cfg) req)"
  "not_paused (wire_reconciler pf net pt ft cfg env) a = not_paused env a"
  by (simp_all add: wire_reconciler_def not_paused_def findConflictingHPA_def)

lemma map_sum_Inr: "map_sum f id x = Inr y \<longleftrightarrow> x = Inr y"
  by (cases x) simp_all

section \<open>Metrics that are not finite\<close>

text \<open>C33. One sample of the history window that is not a finite number stops the autoscaler for as long as
  the window holds it: the request cannot be encoded, so every reconcile gives up before the
  forecast, requeues, and neither scales nor writes a status nor touches the decision state.\<close>

theorem nonfinite_history_stops_scaling:
  assumes "re_Get env key = Inr a" and "not_paused env a"
    and "\<forall>q s e d samples. RangeQuery pf net (prom_client cfg) q s e d = Inr samples \<longrightarrow> \<not> list_all finite64 (map smp_Value samples)"
  shows "fst (Reconcile pf cfg (wire_reconciler pf net pt ft cfg env) key c) = requeue cfg \<and>
     quiet_ext c (snd (Reconcile pf cfg (wire_reconciler pf net pt ft cfg env) key c))"
proof (rule outage_quiet)
  let ?env = "wire_reconciler pf net pt ft cfg env"
  have "\<exists>err. re_Recommend ?env (recommend_request_of cfg ?env key a samples) = Inl err"
    if "re_RangeQuery ?env q s e d = Inr samples" for q s e d samples
  proof -
    have "\<not> list_all finite64 (map smp_Value samples)"
      using that assms(3) by (simp add: map_sum_Inr)
    then have "\<not> list_all finite64 (rq_RpsHistory (recommend_request_of cfg ?env key a samples))"
      by (simp add: recommend_request_of_def Let_def)
    then show ?thesis
      using Recommend_nonfinite [of "recommend_request_of cfg ?env key a samples" net "forecast_client cfg"] by auto
  qed
  then show "outage cfg ?env key a" unfolding outage_def by blast
qed (use assms in simp_all)

definition nan_net :: net where
  "nan_net = demo_net \<lparr>hp_StatusCode = 200, hp_Body = Inr (JObj [(''status'', JStr ''success''),
     (''data'', JObj [(''result'', JArr [JObj [(''values'', JArr [JArr [JNum ''1'', JStr ''NaN'']])]])])])\<rparr>"

lemma nan_RangeQuery: "RangeQuery amd64 nan_net c q s e d = Inr [\<lparr>smp_Timestamp = ns_Second, smp_Value = NaN\<rparr>]"
proof -
  have "ParseFloat64 ''1'' = Inr (Fin 1)" "ParseFloat64 ''NaN'' = Inr NaN" "foldName ''values'' = ''VALUES''" by code_simp+
  then show ?thesis
    by (simp add: RangeQuery_def prom_get_def nan_net_def demo_net_def Decode_def dec_rangeResponse_def dec_response_def
        dec_rangeSeries_def dec_defs zero_response_def success_def trunc_div_def parse_sample_def i64_of_float_def trunc_rat_def)
qed

theorem nonfinite_history_stops_scaling_witness:
  "fst (Reconcile amd64 default_config (wire_reconciler amd64 nan_net (\<lambda>_. ''prometheus'') (\<lambda>_. ''forecast'') default_config demo_renv)
     demo_key demo_controller) = requeue default_config"
  using nonfinite_history_stops_scaling [OF demo_Get demo_not_paused, of amd64 nan_net default_config] nan_RangeQuery
  by (simp add: finite64_def)

text \<open>What the hot path decides from: in a wired controller the forecast of every decision is usable.\<close>

lemma wired_forecast_ok:
  "re_Recommend (wire_reconciler pf net pt ft cfg env) req = Inr resp \<Longrightarrow> forecast_ok resp"
  by (simp add: map_sum_Inr Recommend_ok)

section \<open>The classifier as wired\<close>

lemma one_minute_context:
  assumes "wc_ResolutionMin (wk_Config w) \<le> 0" and "runClassification pf env w = (ok, w', effs)"
    and "EffStatusUpdate b err \<in> set effs"
  shows "\<exists>cp. st_ClassifiedParams (aas_Status b) = Some cp \<and> cp_Context cp = None"
  using assms
  by (auto simp: runClassification_def Let_def patchStatus_def update_status_def set_params_def new_params_def worker_emitEvent_def
      split: sum.splits prod.splits if_splits)

text \<open>The classifier that \<^verbatim>\<open>main\<close> starts never publishes a context: whatever the configured resolution,
  its workers query at one-minute steps, and every status they write has no context block.\<close>

theorem production_writes_no_context:
  assumes "wk_Config w = classifier_config cfg" and "runClassification pf env w = (ok, w', effs)"
  shows "(\<forall>q s e d. EffRangeQuery q s e d \<in> set effs \<longrightarrow> d = Minute) \<and>
     (\<forall>b err. EffStatusUpdate b err \<in> set effs \<longrightarrow>
        (\<exists>cp. st_ClassifiedParams (aas_Status b) = Some cp \<and> cp_Context cp = None))"
proof -
  have z: "wc_ResolutionMin (wk_Config w) = 0" using assms(1) by (simp add: classifier_config_def)
  have "d = Minute" if "EffRangeQuery q s e d \<in> set effs" for q s e d
    using that assms(2) z
    by (auto simp: runClassification_def Let_def patchStatus_def update_status_def worker_emitEvent_def
        split: sum.splits prod.splits if_splits)
  then show ?thesis using one_minute_context [OF _ assms(2)] z by auto
qed

lemma classification_queries:
  "\<exists>q s e d rest. snd (snd (runClassification pf env w)) = EffRangeQuery q s e d # rest"
  by (simp add: runClassification_def Let_def split: sum.split prod.split)

theorem production_writes_no_context_witness:
  "\<exists>q s e. EffRangeQuery q s e Minute \<in> set (snd (snd (runClassification amd64 demo_env
     (demo_worker\<lparr>wk_Config := classifier_config default_config\<rparr>))))"
proof -
  let ?w = "demo_worker\<lparr>wk_Config := classifier_config default_config\<rparr>"
  obtain ok w' effs where r: "runClassification amd64 demo_env ?w = (ok, w', effs)" by (rule prod_cases3)
  obtain q s e d rest where h: "effs = EffRangeQuery q s e d # rest"
    using classification_queries [of amd64 demo_env ?w] r by auto
  then have "d = Minute"
    using production_writes_no_context [OF _ r, of default_config] by simp
  then show ?thesis using r h by auto
qed

end
