(* ===== verification/ApiServer.thy ===== *)
theory ApiServer
  imports Wiring
begin

text \<open>
  What the operator sees of the Kubernetes API server: resources are defaulted and validated when a
  user writes them; every read may come from a cache and return any version the server has held; a
  write of a read object succeeds only if the object has not changed since that version
  (\<^verbatim>\<open>resourceVersion\<close>), and a status write touches nothing but the status.

  The locale \<open>status_writer\<close> is the contract of a component that updates the status of resources it
  reads: it changes only the fields it owns. What follows for the stored objects is proved there
  once; the reconciler and the classifier worker are its two instances.
\<close>

section \<open>Objects\<close>

type_synonym objects = "namespaced_name \<rightharpoonup> aas"
type_synonym versions = "(namespaced_name \<times> aas) set"

text \<open>The defaults of the CRD schema (the \<^verbatim>\<open>kubebuilder:default\<close> markers of the spec).\<close>

definition api_defaults :: "aas_spec \<Rightarrow> aas_spec" where
  "api_defaults sp = sp\<lparr>
     spec_MinReplicas := Some (derefOr (spec_MinReplicas sp) 2), spec_MaxReplicas := Some (derefOr (spec_MaxReplicas sp) 10),
     spec_RpsPerPodMin := Some (derefOr (spec_RpsPerPodMin sp) 50), spec_RpsPerPodMax := Some (derefOr (spec_RpsPerPodMax sp) 500)\<rparr>"

text \<open>A user's write of a resource: defaulted, validated by the webhook, and stored without touching
  the status, which is a subresource. The minima of the CRD schema are not used: what follows holds
  for every resource the webhook lets through.\<close>

definition apply_object :: "objects \<Rightarrow> aas \<Rightarrow> objects option" where
  "apply_object objs a =
     (let a = a\<lparr>aas_Spec := api_defaults (aas_Spec a),
                aas_Status := (case objs (aas_key a) of None \<Rightarrow> zero_status | Some old \<Rightarrow> aas_Status old)\<rparr>;
          verdict = (case objs (aas_key a) of
                       None \<Rightarrow> ValidateCreate (AasObject a) | Some old \<Rightarrow> ValidateUpdate (AasObject old) (AasObject a))
      in if snd verdict = None then Some (objs(aas_key a \<mapsto> a)) else None)"

lemma admitted_valid: "snd (ValidateCreate (AasObject a)) = None \<longleftrightarrow> valid_spec (aas_Spec a)"
  "snd (ValidateUpdate old (AasObject a)) = None \<longleftrightarrow> valid_spec (aas_Spec a)"
  by (simp_all add: ValidateCreate_def ValidateUpdate_def ValidateSpec_None)

section \<open>Reads and writes\<close>

lemma in_graph: "(k, a) \<in> Map.graph objs \<longleftrightarrow> objs k = Some a"
  by (auto simp: Map.graph_def)

text \<open>Every object a read returns is a version the server has held under that name.\<close>

definition reads_from :: "versions \<Rightarrow> (namespaced_name \<Rightarrow> api_error + aas) \<Rightarrow> bool" where
  "reads_from seen get \<longleftrightarrow> (\<forall>k a. get k = Inr a \<longrightarrow> (k, a) \<in> seen)"

definition keyed :: "versions \<Rightarrow> bool" where
  "keyed seen \<longleftrightarrow> (\<forall>k a. (k, a) \<in> seen \<longrightarrow> aas_key a = k)"

lemma reads_keyed: "reads_from seen get \<Longrightarrow> keyed seen \<Longrightarrow> get k = Inr a \<Longrightarrow> aas_key a = k"
  by (auto simp: reads_from_def keyed_def)

text \<open>The object a write is based on: the status writes that succeeded were made on the stored version.\<close>

definition fresh :: "objects \<Rightarrow> (namespaced_name \<Rightarrow> api_error + aas) \<Rightarrow> effect list \<Rightarrow> bool" where
  "fresh objs get effs \<longleftrightarrow>
     (\<forall>b a. (EffStatusUpdate b None \<in> set effs \<or> EffUpdate b None \<in> set effs) \<and> get (aas_key b) = Inr a
        \<longrightarrow> objs (aas_key b) = Some a)"

definition write_status :: "objects \<Rightarrow> effect \<Rightarrow> objects" where
  "write_status objs e =
     (case e of
        EffStatusUpdate b None \<Rightarrow>
          (case objs (aas_key b) of None \<Rightarrow> objs | Some a \<Rightarrow> objs(aas_key b \<mapsto> a\<lparr>aas_Status := aas_Status b\<rparr>))
      | _ \<Rightarrow> objs)"

text \<open>A write of the object itself leaves the stored status alone.\<close>

definition write_object :: "objects \<Rightarrow> effect \<Rightarrow> objects" where
  "write_object objs e =
     (case e of
        EffUpdate b None \<Rightarrow>
          (case objs (aas_key b) of None \<Rightarrow> objs | Some a \<Rightarrow> objs(aas_key b \<mapsto> b\<lparr>aas_Status := aas_Status a\<rparr>))
      | _ \<Rightarrow> objs)"

lemma classified_self: "st = st\<lparr>st_ClassifiedParams := st_ClassifiedParams st\<rparr>"
  by (cases st) simp

section \<open>Writers of the status\<close>

text \<open>The same objects, but for status fields related by \<open>owns\<close>.\<close>

definition up_to :: "(aas_status \<Rightarrow> aas_status \<Rightarrow> bool) \<Rightarrow> objects \<Rightarrow> objects \<Rightarrow> bool" where
  "up_to owns objs cur \<longleftrightarrow> dom cur = dom objs \<and>
     (\<forall>k a. objs k = Some a \<longrightarrow> (\<exists>st. cur k = Some (a\<lparr>aas_Status := st\<rparr>) \<and> owns (aas_Status a) st))"

lemma up_to_refl: "(\<And>st. owns st st) \<Longrightarrow> up_to owns objs objs"
  unfolding up_to_def
proof (intro conjI refl allI impI)
  fix k a assume "\<And>st. owns st st" and "objs k = Some a"
  then show "\<exists>st. objs k = Some (a\<lparr>aas_Status := st\<rparr>) \<and> owns (aas_Status a) st"
    by (intro exI [of _ "aas_Status a"]) simp
qed

lemma up_to_lookup:
  assumes "up_to owns objs cur" and "cur k = Some b"
  obtains a st where "objs k = Some a" "b = a\<lparr>aas_Status := st\<rparr>" "owns (aas_Status a) st"
proof -
  have "k \<in> dom objs" using assms by (metis domI up_to_def)
  then obtain a where a: "objs k = Some a" by blast
  then have "\<exists>st. cur k = Some (a\<lparr>aas_Status := st\<rparr>) \<and> owns (aas_Status a) st" using assms(1) unfolding up_to_def by simp
  then show ?thesis using that a assms(2) by auto
qed

lemma up_to_write:
  assumes "up_to owns objs cur" and "objs (aas_key b) = Some a" and "b = a\<lparr>aas_Status := st\<rparr>" and "owns (aas_Status a) st"
  shows "up_to owns objs (write_status cur (EffStatusUpdate b None))"
proof -
  have "\<exists>st'. cur (aas_key b) = Some (a\<lparr>aas_Status := st'\<rparr>) \<and> owns (aas_Status a) st'"
    using assms(1,2) unfolding up_to_def by simp
  then obtain st' where "cur (aas_key b) = Some (a\<lparr>aas_Status := st'\<rparr>)" by blast
  then have "write_status cur (EffStatusUpdate b None) = cur(aas_key b \<mapsto> a\<lparr>aas_Status := st\<rparr>)"
    using assms(3) by (simp add: write_status_def)
  moreover have "aas_key b \<in> dom objs" using assms(2) by blast
  ultimately show ?thesis using assms by (auto simp: up_to_def intro!: exI [of _ st])
qed

locale status_writer =
  fixes writes :: "'r \<Rightarrow> effect list"
    and reads :: "'r \<Rightarrow> namespaced_name \<Rightarrow> api_error + aas"
    and owns :: "aas_status \<Rightarrow> aas_status \<Rightarrow> bool"
  assumes owns_refl: "owns st st"
    and owned: "EffStatusUpdate b err \<in> set (writes r) \<Longrightarrow>
      \<exists>k a st. reads r k = Inr a \<and> b = a\<lparr>aas_Status := st\<rparr> \<and> owns (aas_Status a) st"
begin

lemma write_based:
  assumes "EffStatusUpdate b None \<in> set (writes r)"
    and "reads_from seen (reads r)" and "keyed seen" and "fresh objs (reads r) (writes r)"
  shows "\<exists>a st. objs (aas_key b) = Some a \<and> b = a\<lparr>aas_Status := st\<rparr> \<and> owns (aas_Status a) st"
proof -
  obtain k a st where o: "reads r k = Inr a" "b = a\<lparr>aas_Status := st\<rparr>" "owns (aas_Status a) st"
    using owned [OF assms(1)] by blast
  then have "aas_key b = k" using reads_keyed [OF assms(2,3)] by (auto simp: aas_key_def)
  then show ?thesis using assms(1,4) o by (auto simp: fresh_def)
qed

text \<open>After its writes every stored object is the one it was, up to the owned fields.\<close>

lemma writes_frame:
  assumes "reads_from seen (reads r)" and "keyed seen" and "fresh objs (reads r) (writes r)"
    and "set effs \<subseteq> set (writes r)" and "up_to owns objs cur"
  shows "up_to owns objs (foldl write_status cur effs)"
  using assms(4,5)
proof (induction effs arbitrary: cur)
  case (Cons e effs)
  have "up_to owns objs (write_status cur e)"
  proof (cases "\<exists>b. e = EffStatusUpdate b None")
    case True
    then obtain b where b: "e = EffStatusUpdate b None" by blast
    then have "EffStatusUpdate b None \<in> set (writes r)" using Cons.prems(1) by simp
    from write_based [OF this assms(1-3)] show ?thesis using up_to_write [OF Cons.prems(2)] b by blast
  next
    case False
    then have "write_status cur e = cur" by (auto simp: write_status_def split: effect.splits option.splits)
    then show ?thesis using Cons.prems(2) by simp
  qed
  then show ?case using Cons.IH [of "write_status cur e"] Cons.prems(1) by simp
qed simp

lemma frame:
  assumes "reads_from seen (reads r)" and "keyed seen" and "fresh objs (reads r) (writes r)"
  shows "up_to owns objs (foldl write_status objs (writes r))"
  by (rule writes_frame [OF assms subset_refl up_to_refl]) (rule owns_refl)

end

section \<open>The two writers\<close>

text \<open>What one reconcile and one classification do, as effects.\<close>

definition reconcile_effects ::
    "go_platform \<Rightarrow> config \<Rightarrow> reconcile_env \<Rightarrow> namespaced_name \<Rightarrow> controller \<Rightarrow> effect list" where
  "reconcile_effects pf cfg env key c = drop (length (ct_trace c)) (ct_trace (snd (Reconcile pf cfg env key c)))"

definition classification_effects :: "go_platform \<Rightarrow> class_env \<Rightarrow> worker \<Rightarrow> effect list" where
  "classification_effects pf env w = snd (snd (runClassification pf env w))"

lemma Reconcile_effects:
  "ct_trace (snd (Reconcile pf cfg env key c)) = ct_trace c @ reconcile_effects pf cfg env key c"
proof (cases "re_Get env key")
  case (Inl e)
  then show ?thesis by (simp add: reconcile_effects_def Reconcile_def)
next
  case (Inr a)
  then show ?thesis using reconcile_keeps [OF Inr, of pf cfg c] by (auto simp: reconcile_effects_def)
qed

lemma reconcile_effects_eq:
  "ct_trace (snd (Reconcile pf cfg env key c)) = ct_trace c @ effs \<longleftrightarrow> effs = reconcile_effects pf cfg env key c"
  by (simp add: Reconcile_effects) auto

definition hot_owns :: "aas_status \<Rightarrow> aas_status \<Rightarrow> bool" where
  "hot_owns st st' \<longleftrightarrow> st_ClassifiedParams st' = st_ClassifiedParams st"

definition cold_owns :: "aas_status \<Rightarrow> aas_status \<Rightarrow> bool" where
  "cold_owns st st' \<longleftrightarrow> (\<exists>cp. st' = st\<lparr>st_ClassifiedParams := cp\<rparr>)"

lemma reconcile_owned:
  assumes "EffStatusUpdate b err \<in> set (reconcile_effects pf cfg env key c)"
  shows "\<exists>a st. re_Get env key = Inr a \<and> b = a\<lparr>aas_Status := st\<rparr> \<and> hot_owns (aas_Status a) st"
proof (cases "re_Get env key")
  case (Inl e)
  then show ?thesis using assms by (simp add: reconcile_effects_def Reconcile_def)
next
  case (Inr a)
  have "list_all (keeps_classification a) (reconcile_effects pf cfg env key c)"
    using reconcile_keeps [OF Inr, of pf cfg c] by (auto simp: reconcile_effects_eq)
  then show ?thesis using assms Inr by (fastforce simp: list_all_iff keeps_classification_def hot_owns_def)
qed

lemma classification_owned:
  assumes "EffStatusUpdate b err \<in> set (classification_effects pf env w)"
  shows "\<exists>a st. ce_Get_patch env (wk_Key w) = Inr a \<and> b = a\<lparr>aas_Status := st\<rparr> \<and> cold_owns (aas_Status a) st"
proof -
  have n: "wrote_nothing effs \<Longrightarrow> EffStatusUpdate b err \<notin> set effs" for effs
    by (auto simp: wrote_nothing_def list_all_iff)
  show ?thesis
    using runClassification_outcome [where pf = pf and env = env and w = w] assms n
    by (fastforce simp: classification_effects_def classification_outcome_def set_params_def cold_owns_def split: prod.splits)
qed

text \<open>The arguments of a run of each writer, as one value.\<close>

type_synonym hot_run = "go_platform \<times> config \<times> reconcile_env \<times> namespaced_name \<times> controller"
type_synonym cold_run = "go_platform \<times> class_env \<times> worker"

fun hot_writes :: "hot_run \<Rightarrow> effect list" where
  "hot_writes (pf, cfg, env, key, c) = reconcile_effects pf cfg env key c"

fun hot_reads :: "hot_run \<Rightarrow> namespaced_name \<Rightarrow> api_error + aas" where
  "hot_reads (pf, cfg, env, key, c) = re_Get env"

fun cold_writes :: "cold_run \<Rightarrow> effect list" where
  "cold_writes (pf, env, w) = classification_effects pf env w"

fun cold_reads :: "cold_run \<Rightarrow> namespaced_name \<Rightarrow> api_error + aas" where
  "cold_reads (pf, env, w) = ce_Get_patch env"

interpretation hot: status_writer hot_writes hot_reads hot_owns
proof unfold_locales
  fix b err and r :: hot_run
  assume "EffStatusUpdate b err \<in> set (hot_writes r)"
  then show "\<exists>k a st. hot_reads r k = Inr a \<and> b = a\<lparr>aas_Status := st\<rparr> \<and> hot_owns (aas_Status a) st"
    using reconcile_owned by (cases r) fastforce
qed (simp add: hot_owns_def)

interpretation cold: status_writer cold_writes cold_reads cold_owns
proof unfold_locales
  fix b err and r :: cold_run
  assume "EffStatusUpdate b err \<in> set (cold_writes r)"
  then show "\<exists>k a st. cold_reads r k = Inr a \<and> b = a\<lparr>aas_Status := st\<rparr> \<and> cold_owns (aas_Status a) st"
    using classification_owned by (cases r) fastforce
qed (unfold cold_owns_def, rule exI, rule classified_self)

lemmas hot_frame = hot.frame [where r = "(pf, cfg, env, key, c)" for pf cfg env key c, simplified]
  and cold_frame = cold.frame [where r = "(pf, env, w)" for pf env w, simplified]

end
