(* ===== verification/Cluster.thy ===== *)
theory Cluster
  imports ApiServer
begin

text \<open>
  The operator at work: the stored resources, the controller with its classifier workers, and the
  explainer, as one transition system (\<open>cstep\<close>), each step labelled with who takes it. Users write
  resources through API-server defaulting and the admission webhook; reconciles and classifications
  read, possibly stale, versions of the resources and write status; workers remove the reclassify
  annotation; the explainer takes requests from the channel; the process restarts.

  A reconcile, and a classification, is one step, at the moment of its status write if that write
  succeeds: what it read may be older than the stored object, unless it writes, in which case the
  API server has checked that it is not. Everything else a call may answer is left open by the
  environments of the steps, including errors of every call.

  The invariant \<open>cluster_ok\<close> holds in every reachable state (\<open>creach\<close>); the theorems at the end read
  off what the operator as a whole promises.
\<close>

section \<open>The system\<close>

record cluster =
  cl_objects :: objects
  cl_seen :: versions \<comment> \<open>every version the server has held\<close>
  cl_ctl :: controller
  cl_handled :: "explain_request list"
  cl_explained :: "effect list"

definition put_objects :: "cluster \<Rightarrow> objects \<Rightarrow> cluster" where
  "put_objects s objs = s\<lparr>cl_objects := objs, cl_seen := cl_seen s \<union> Map.graph objs\<rparr>"

definition start_cluster :: "controller \<Rightarrow> cluster" where
  "start_cluster c = \<lparr>cl_objects = Map.empty, cl_seen = {}, cl_ctl = c, cl_handled = [], cl_explained = []\<rparr>"

text \<open>Replica bounds of the sizes a cluster can have; the CRD has no upper limit, and beyond
  \<open>2\<^sup>3\<^sup>0\<close> the step cap may overflow.\<close>

definition small_spec :: "aas_spec \<Rightarrow> bool" where
  "small_spec sp \<longleftrightarrow> sint (derefOr (spec_MaxReplicas sp) 10) \<le> 2 ^ 30"

datatype actor = User | HotPath | ColdPath | Explaining | Process

inductive cstep :: "go_platform \<Rightarrow> config \<Rightarrow> actor \<Rightarrow> cluster \<Rightarrow> cluster \<Rightarrow> bool" for pf cfg where
  user_apply: "apply_object (cl_objects s) a = Some objs \<Longrightarrow> small_spec (aas_Spec a) \<Longrightarrow>
    cstep pf cfg User s (put_objects s objs)"
| user_remove: "cstep pf cfg User s (put_objects s ((cl_objects s)(key := None)))"
| reconcile: "reads_from (cl_seen s) (re_Get env) \<Longrightarrow> effs = reconcile_effects pf cfg env key (cl_ctl s) \<Longrightarrow>
    fresh (cl_objects s) (re_Get env) effs \<Longrightarrow>
    cstep pf cfg HotPath s (put_objects (s\<lparr>cl_ctl := snd (Reconcile pf cfg env key (cl_ctl s))\<rparr>)
      (foldl write_status (cl_objects s) effs))"
| classify: "ct_Classifier (cl_ctl s) = Some m \<Longrightarrow> i < length (mg_spawned m) \<Longrightarrow>
    reads_from (cl_seen s) (ce_Get_patch env) \<Longrightarrow> runClassification pf env (mg_spawned m ! i) = (ok, w, effs) \<Longrightarrow>
    fresh (cl_objects s) (ce_Get_patch env) effs \<Longrightarrow>
    cstep pf cfg ColdPath s (put_objects
      (s\<lparr>cl_ctl := (cl_ctl s)\<lparr>ct_Classifier := Some (m\<lparr>mg_spawned := (mg_spawned m)[i := w]\<rparr>)\<rparr>\<rparr>)
      (foldl write_status (cl_objects s) effs))"
| strip: "reads_from (cl_seen s) (ce_Get_annotation env) \<Longrightarrow> effs = removeReclassifyAnnotation env w \<Longrightarrow>
    fresh (cl_objects s) (ce_Get_annotation env) effs \<Longrightarrow>
    cstep pf cfg ColdPath s (put_objects s (foldl write_object (cl_objects s) effs))"
| explain: "explain_turn (explainer_config cfg) xenv (ct_explainCh (cl_ctl s)) = Some (q, ch, logs, effs, pause) \<Longrightarrow>
    cstep pf cfg Explaining s (s\<lparr>cl_ctl := (cl_ctl s)\<lparr>ct_explainCh := ch\<rparr>,
      cl_handled := cl_handled s @ [q], cl_explained := cl_explained s @ effs\<rparr>)"
| restart: "cstep pf cfg Process s (s\<lparr>cl_ctl := (initial_controller cfg)\<lparr>ct_trace := ct_trace (cl_ctl s)\<rparr>\<rparr>)"

inductive_cases cstepE: "cstep pf cfg act s s'"

inductive creach :: "go_platform \<Rightarrow> (string \<Rightarrow> string) \<Rightarrow> config \<Rightarrow> cluster \<Rightarrow> bool" for pf env0 cfg where
  start: "start_main env0 = Inr (cfg, c) \<Longrightarrow> creach pf env0 cfg (start_cluster c)"
| step: "creach pf env0 cfg s \<Longrightarrow> cstep pf cfg act s s' \<Longrightarrow> creach pf env0 cfg s'"

lemma put_objects_simps [simp]:
  "cl_objects (put_objects s objs) = objs" "cl_seen (put_objects s objs) = cl_seen s \<union> Map.graph objs"
  "cl_ctl (put_objects s objs) = cl_ctl s" "cl_handled (put_objects s objs) = cl_handled s"
  by (simp_all add: put_objects_def)

lemma start_cluster_simps [simp]:
  "cl_objects (start_cluster c) = Map.empty" "cl_seen (start_cluster c) = {}"
  "cl_ctl (start_cluster c) = c" "cl_handled (start_cluster c) = []"
  by (simp_all add: start_cluster_def)

section \<open>Invariant\<close>

definition spec_good :: "aas_spec \<Rightarrow> bool" where
  "spec_good sp \<longleftrightarrow> valid_spec sp \<and>
     (\<exists>mn mx. spec_MinReplicas sp = Some mn \<and> spec_MaxReplicas sp = Some mx \<and> sint mx \<le> 2 ^ 30)"

definition params_good :: "classified_params \<Rightarrow> bool" where
  "params_good cp \<longleftrightarrow> 1 \<le> sint (cp_MaxStepSize cp) \<and> sint (cp_MaxStepSize cp) < 2 ^ 30 \<and> cp_Context cp = None \<and>
     30 \<le> sint (cp_ScaleUpCooldownSeconds cp) \<and> sint (cp_ScaleUpCooldownSeconds cp) \<le> 180 \<and>
     60 \<le> sint (cp_ScaleDownCooldownSeconds cp) \<and> sint (cp_ScaleDownCooldownSeconds cp) \<le> 600 \<and>
     cp_PreferredForecaster cp \<in> {''linear_extrap'', ''prophet'', ''gbdt_quantile''}"

definition status_good :: "aas_status \<Rightarrow> bool" where
  "status_good st \<longleftrightarrow> (\<forall>cp. st_ClassifiedParams st = Some cp \<longrightarrow> params_good cp)"

definition object_ok :: "namespaced_name \<Rightarrow> aas \<Rightarrow> bool" where
  "object_ok k a \<longleftrightarrow> aas_key a = k \<and> spec_good (aas_Spec a) \<and> status_good (aas_Status a)"

text \<open>Every version ever held is good, and the stored objects are among them.\<close>

definition objects_ok :: "versions \<Rightarrow> objects \<Rightarrow> bool" where
  "objects_ok seen objs \<longleftrightarrow> (\<forall>k a. (k, a) \<in> seen \<longrightarrow> object_ok k a) \<and> Map.graph objs \<subseteq> seen"

definition worker_good :: "config \<Rightarrow> worker \<Rightarrow> bool" where
  "worker_good cfg w \<longleftrightarrow> wk_Config w = classifier_config cfg \<and> 1 \<le> sint (wk_MinReplicas w) \<and>
     sint (wk_MinReplicas w) < sint (wk_MaxReplicas w) \<and> sint (wk_MaxReplicas w) \<le> 2 ^ 30"

definition manager_ok :: "config \<Rightarrow> manager \<Rightarrow> bool" where
  "manager_ok cfg m \<longleftrightarrow> mg_config m = classifier_config cfg \<and> (\<forall>w \<in> set (mg_spawned m). worker_good cfg w)"

definition backed :: "effect list \<Rightarrow> explain_request \<Rightarrow> bool" where
  "backed tr q \<longleftrightarrow> (\<exists>k. EffScale k (er_TargetReplicas q) None \<in> set tr) \<and>
     er_CurrentReplicas q \<noteq> er_TargetReplicas q \<and> er_Reason q \<in> {ScaleUp, StepCappedUp, ScaleDown, StepCappedDown} \<and>
     er_BaselineRPS q = 0 \<and> er_PeakP95RPS q = 0"

definition requests_ok :: "cluster \<Rightarrow> bool" where
  "requests_ok s \<longleftrightarrow> slot (ct_explainCh (cl_ctl s)) \<and>
     (\<forall>q \<in> set (ch_buf (ct_explainCh (cl_ctl s))) \<union> set (cl_handled s). backed (ct_trace (cl_ctl s)) q)"

definition cluster_ok :: "config \<Rightarrow> cluster \<Rightarrow> bool" where
  "cluster_ok cfg s \<longleftrightarrow> objects_ok (cl_seen s) (cl_objects s) \<and> store_wf (ct_StateStore (cl_ctl s)) \<and>
     (\<exists>m. ct_Classifier (cl_ctl s) = Some m \<and> manager_ok cfg m) \<and> requests_ok s"

subsection \<open>Stored objects\<close>

lemma spec_good_bounds:
  assumes "spec_good sp"
  obtains mn mx where "spec_MinReplicas sp = Some mn" "spec_MaxReplicas sp = Some mx"
    "1 \<le> sint mn" "sint mn < sint mx" "sint mx \<le> 2 ^ 30"
  using assms by (auto simp: spec_good_def valid_spec_def)

lemma objects_ok_keyed: "objects_ok seen objs \<Longrightarrow> keyed seen"
  by (auto simp: objects_ok_def keyed_def object_ok_def)

lemma objects_ok_lookup: "objects_ok seen objs \<Longrightarrow> objs k = Some a \<Longrightarrow> object_ok k a"
  by (auto simp: objects_ok_def in_graph subset_iff)

lemma objects_ok_read: "objects_ok seen objs \<Longrightarrow> reads_from seen get \<Longrightarrow> get k = Inr a \<Longrightarrow> object_ok k a"
  by (auto simp: objects_ok_def reads_from_def)

lemma objects_ok_put:
  assumes "objects_ok seen objs" and "\<And>k a. objs' k = Some a \<Longrightarrow> object_ok k a"
  shows "objects_ok (seen \<union> Map.graph objs') objs'"
  using assms by (auto simp: objects_ok_def in_graph)

lemma objects_ok_apply:
  assumes "objects_ok seen objs" and "apply_object objs a = Some objs'" and "small_spec (aas_Spec a)"
  shows "objects_ok (seen \<union> Map.graph objs') objs'"
proof (rule objects_ok_put [OF assms(1)])
  fix k b assume b: "objs' k = Some b"
  let ?st = "case objs (aas_key a) of None \<Rightarrow> zero_status | Some old \<Rightarrow> aas_Status old"
  have "status_good ?st"
    using objects_ok_lookup [OF assms(1)] by (auto simp: object_ok_def status_good_def zero_status_def split: option.split)
  then show "object_ok k b"
    using b assms(2,3) objects_ok_lookup [OF assms(1), of k b]
    by (auto simp: apply_object_def Let_def admitted_valid object_ok_def spec_good_def api_defaults_def aas_key_def
        small_spec_def split: if_splits option.splits)
qed

text \<open>A writer of the status that writes good ones keeps the objects good.\<close>

lemma objects_ok_up_to:
  assumes "objects_ok seen objs" and "up_to owns objs objs'"
    and "\<And>k a st. objs k = Some a \<Longrightarrow> objs' k = Some (a\<lparr>aas_Status := st\<rparr>) \<Longrightarrow> status_good st"
  shows "objects_ok (seen \<union> Map.graph objs') objs'"
proof (rule objects_ok_put [OF assms(1)])
  fix k b assume b: "objs' k = Some b"
  then obtain a st where a: "objs k = Some a" "b = a\<lparr>aas_Status := st\<rparr>" using up_to_lookup [OF assms(2)] by metis
  then show "object_ok k b"
    using objects_ok_lookup [OF assms(1) a(1)] assms(3) [OF a(1)] b by (simp add: object_ok_def aas_key_def)
qed

lemma foldl_write_status:
  "foldl write_status objs effs k = objs k \<or>
     (\<exists>b a. EffStatusUpdate b None \<in> set effs \<and> foldl write_status objs effs k = Some a \<and> aas_Status a = aas_Status b)"
proof (induction effs arbitrary: objs)
  case (Cons e effs)
  have "write_status objs e k = objs k \<or>
      (\<exists>b a. e = EffStatusUpdate b None \<and> write_status objs e k = Some a \<and> aas_Status a = aas_Status b)"
    by (auto simp: write_status_def split: effect.splits option.splits)
  then show ?case using Cons.IH [of "write_status objs e"] by auto
qed simp

lemma objects_ok_writes:
  assumes "objects_ok seen objs" and "up_to owns objs (foldl write_status objs effs)"
    and "\<And>b. EffStatusUpdate b None \<in> set effs \<Longrightarrow> status_good (aas_Status b)"
  shows "objects_ok (seen \<union> Map.graph (foldl write_status objs effs)) (foldl write_status objs effs)"
proof (rule objects_ok_up_to [OF assms(1,2)])
  fix k a st assume a: "objs k = Some a" and st: "foldl write_status objs effs k = Some (a\<lparr>aas_Status := st\<rparr>)"
  from foldl_write_status [of objs effs k] show "status_good st"
  proof (elim disjE exE conjE)
    assume "foldl write_status objs effs k = objs k"
    then have "a\<lparr>aas_Status := st\<rparr> = a" using a st by simp
    then have "st = aas_Status a" by (metis aas.select_convs(6) aas.surjective aas.update_convs(6))
    then show ?thesis using objects_ok_lookup [OF assms(1) a] by (simp add: object_ok_def)
  next
    fix b a' assume "EffStatusUpdate b None \<in> set effs" "foldl write_status objs effs k = Some a'" "aas_Status a' = aas_Status b"
    then show ?thesis using assms(3) st by auto
  qed
qed

text \<open>Removing the annotation changes nothing else.\<close>

definition stripped :: "aas \<Rightarrow> aas" where
  "stripped a = a\<lparr>aas_Annotations := (aas_Annotations a)(AnnotationReclassify := None)\<rparr>"

lemma remove_cases:
  "removeReclassifyAnnotation env w = [] \<or>
     (\<exists>a err. ce_Get_annotation env (wk_Key w) = Inr a \<and> removeReclassifyAnnotation env w = [EffUpdate (stripped a) err])"
  by (auto simp: removeReclassifyAnnotation_def stripped_def Let_def split: sum.split option.split)

lemma strip_objects:
  assumes "reads_from seen (ce_Get_annotation env)" and "keyed seen"
    and "fresh objs (ce_Get_annotation env) (removeReclassifyAnnotation env w)"
  shows "foldl write_object objs (removeReclassifyAnnotation env w) = objs \<or>
     (\<exists>k a. objs k = Some a \<and> foldl write_object objs (removeReclassifyAnnotation env w) = objs(k \<mapsto> stripped a))"
proof -
  consider "removeReclassifyAnnotation env w = []"
    | a err where "ce_Get_annotation env (wk_Key w) = Inr a" "removeReclassifyAnnotation env w = [EffUpdate (stripped a) err]"
    using remove_cases [of env w] by blast
  then show ?thesis
  proof cases
    case 2
    have k: "aas_key (stripped a) = wk_Key w"
      using reads_keyed [OF assms(1,2) 2(1)] by (simp add: stripped_def aas_key_def)
    show ?thesis
    proof (cases err)
      case None
      then have "objs (wk_Key w) = Some a" using assms(3) 2 k by (auto simp: fresh_def)
      moreover have "(stripped a)\<lparr>aas_Status := aas_Status a\<rparr> = stripped a" by (simp add: stripped_def)
      ultimately show ?thesis using 2(2) None k by (auto simp: write_object_def)
    qed (use 2 in \<open>simp add: write_object_def\<close>)
  qed simp
qed

lemma objects_ok_strip:
  assumes "objects_ok seen objs" and "reads_from seen (ce_Get_annotation env)"
    and "fresh objs (ce_Get_annotation env) (removeReclassifyAnnotation env w)"
  defines "objs' \<equiv> foldl write_object objs (removeReclassifyAnnotation env w)"
  shows "objects_ok (seen \<union> Map.graph objs') objs'"
proof (rule objects_ok_put [OF assms(1)])
  fix k b assume b: "objs' k = Some b"
  have "object_ok k' a \<Longrightarrow> object_ok k' (stripped a)" for k' a by (simp add: object_ok_def stripped_def aas_key_def)
  then show "object_ok k b"
    using strip_objects [OF assms(2) objects_ok_keyed [OF assms(1)] assms(3)] b objects_ok_lookup [OF assms(1)]
    by (auto simp: objs'_def split: if_splits)
qed

subsection \<open>Workers\<close>

definition classifier_ok :: "config \<Rightarrow> controller \<Rightarrow> bool" where
  "classifier_ok k c \<longleftrightarrow> (\<exists>m. ct_Classifier c = Some m \<and> manager_ok k m)"

lemma classifier_ok_upd [simp]:
  "classifier_ok k (c\<lparr>ct_StateStore := x\<rparr>) = classifier_ok k c" "classifier_ok k (c\<lparr>ct_explainCh := y\<rparr>) = classifier_ok k c"
  "classifier_ok k (c\<lparr>ct_metrics := z\<rparr>) = classifier_ok k c" "classifier_ok k (emit e c) = classifier_ok k c"
  by (simp_all add: classifier_ok_def)

lemma manager_ok_ops:
  assumes "manager_ok k m"
  shows "manager_ok k (Stop m key)" "manager_ok k (SignalReclassify m key)"
    "manager_ok k (snd (ObserveDeploymentRevision m key r))" "spec_good (aas_Spec a) \<Longrightarrow> manager_ok k (Ensure m a)"
proof -
  show "manager_ok k (Ensure m a)" if g: "spec_good (aas_Spec a)"
  proof -
    obtain mn mx where "spec_MinReplicas (aas_Spec a) = Some mn" "spec_MaxReplicas (aas_Spec a) = Some mx"
      "1 \<le> sint mn" "sint mn < sint mx" "sint mx \<le> 2 ^ 30"
      using spec_good_bounds [OF g] .
    then show ?thesis
      using assms by (simp add: manager_ok_def Ensure_def Let_def worker_good_def split: option.splits)
  qed
qed (use assms in \<open>auto simp: manager_ok_def Stop_def SignalReclassify_def ObserveDeploymentRevision_def split: option.splits\<close>)

lemma classifier_ok_finish: "classifier_ok k c \<Longrightarrow> classifier_ok k (snd (reconcile_finish pf cfg env d c))"
  by (simp add: reconcile_finish_def Let_def)

lemma classifier_ok_apply: "classifier_ok k c \<Longrightarrow> classifier_ok k (snd (reconcile_apply pf cfg env d c))"
  by (simp add: reconcile_apply_def Let_def classifier_ok_finish)

lemma classifier_ok_calibrate: "classifier_ok k c \<Longrightarrow> classifier_ok k (snd (reconcile_calibrate pf cfg env ob c))"
  by (simp add: reconcile_calibrate_def Let_def case_prod_beta classifier_ok_apply split: option.splits)

lemma classifier_ok_target:
  assumes "classifier_ok k c"
  shows "classifier_ok k (snd (reconcile_target pf cfg env key a rps resp c))"
proof -
  have "classifier_ok k (c\<lparr>ct_Classifier := map_option (\<lambda>m. snd (ObserveDeploymentRevision m key r)) (ct_Classifier c)\<rparr>)" for r
    using assms manager_ok_ops(3) by (auto simp: classifier_ok_def)
  then show ?thesis using assms by (simp add: reconcile_target_def Let_def classifier_ok_calibrate split: sum.splits)
qed

lemma classifier_ok_observe: "classifier_ok k c \<Longrightarrow> classifier_ok k (snd (reconcile_observe pf cfg env key a c))"
  by (simp add: reconcile_observe_def Let_def metrics_unavailable_def classifier_ok_target split: sum.splits)

lemma classifier_ok_paused:
  "classifier_ok k c \<Longrightarrow> classifier_ok k (snd (handleKillSwitch cfg env a c))"
  "classifier_ok k c \<Longrightarrow> classifier_ok k (snd (handleConflict cfg env a n c))"
  by (simp_all add: handleKillSwitch_def handleConflict_def Let_def)

lemma classifier_ok_Reconcile:
  assumes "classifier_ok k c" and "\<And>a. re_Get env key = Inr a \<Longrightarrow> spec_good (aas_Spec a)"
  shows "classifier_ok k (snd (Reconcile pf cfg env key c))"
proof (cases "re_Get env key")
  case (Inl e)
  then show ?thesis using assms(1) manager_ok_ops(1) by (auto simp: Reconcile_def classifier_ok_def)
next
  case (Inr a)
  let ?c = "c\<lparr>ct_Classifier := map_option (\<lambda>m. let m = Ensure m a in
      if annotation (aas_Annotations a) AnnotationReclassify = ''true'' then SignalReclassify m key else m) (ct_Classifier c)\<rparr>"
  obtain m where m: "ct_Classifier c = Some m" "manager_ok k m" using assms(1) by (auto simp: classifier_ok_def)
  then have "manager_ok k (Ensure m a)" using manager_ok_ops(4) assms(2) [OF Inr] by blast
  then have "classifier_ok k ?c" using m(1) manager_ok_ops(2) by (simp add: classifier_ok_def Let_def)
  then show ?thesis
    using Inr
    by (simp add: Reconcile_def Let_def [of ?c] classifier_ok_paused classifier_ok_observe split: sum.splits option.splits)
qed

lemma classifier_ok_classify:
  assumes "manager_ok k m" and "i < length (mg_spawned m)" and "runClassification pf env (mg_spawned m ! i) = (ok, w, effs)"
  shows "manager_ok k (m\<lparr>mg_spawned := (mg_spawned m)[i := w]\<rparr>)"
proof -
  have "worker_good k (mg_spawned m ! i)" using assms(1,2) by (simp add: manager_ok_def)
  moreover have "w = mg_spawned m ! i \<or> w = (mg_spawned m ! i)\<lparr>wk_lastClassifyAt := ce_now_done env\<rparr>"
    using runClassification_outcome [where pf = pf and env = env and w = "mg_spawned m ! i"] assms(3)
    by (auto simp: classification_outcome_def)
  ultimately have "worker_good k w" by (auto simp: worker_good_def)
  then show ?thesis using assms(1) by (auto simp: manager_ok_def dest!: set_update_subset_insert [THEN subsetD])
qed

text \<open>What a worker writes is good: a positive step below the worker's range, and no context.\<close>

lemma wrote_nothing_status: "wrote_nothing effs \<Longrightarrow> EffStatusUpdate b err \<notin> set effs"
  by (auto simp: wrote_nothing_def list_all_iff)

lemma classify_writes_good:
  assumes "worker_good k w" and "runClassification pf env w = (ok, w', effs)" and "EffStatusUpdate b err \<in> set effs"
  shows "status_good (aas_Status b)"
proof -
  have z: "wc_ResolutionMin (wk_Config w) \<le> 0" using assms(1) by (simp add: worker_good_def classifier_config_def)
  obtain cp where cp: "st_ClassifiedParams (aas_Status b) = Some cp" "cp_Context cp = None"
    using one_minute_context [OF z assms(2,3)] by blast
  have "params_admissible (wk_MinReplicas w) (wk_MaxReplicas w) cp"
    using runClassification_outcome [where pf = pf and env = env and w = w] assms(2,3) cp(1)
    by (auto simp: classification_outcome_def wrote_nothing_status set_params_def)
  moreover have "sint (wk_MaxReplicas w - wk_MinReplicas w) = sint (wk_MaxReplicas w) - sint (wk_MinReplicas w)"
    using assms(1) by (intro range_exact) (simp_all add: worker_good_def)
  ultimately show ?thesis
    using cp assms(1) by (auto simp: status_good_def params_good_def params_admissible_def worker_good_def)
qed

subsection \<open>Explanation requests\<close>

lemma finish_channel:
  "ct_explainCh (snd (reconcile_finish pf cfg env d c)) =
     (if co_ShouldPatch (de_cap d) then Notify (ct_explainCh c) (explain_of d) else ct_explainCh c)"
  by (simp add: reconcile_finish_def Let_def)

lemma apply_channel:
  "ct_explainCh (snd (reconcile_apply pf cfg env d c)) = ct_explainCh c \<or>
     EffNotify (explain_of d) \<in> set (apply_effects pf env d) \<and>
     ct_explainCh (snd (reconcile_apply pf cfg env d c)) = Notify (ct_explainCh c) (explain_of d)"
  by (simp add: reconcile_apply_def Let_def finish_channel apply_effects_def finish_effects_def)

lemma Reconcile_channel:
  assumes "store_wf (ct_StateStore c)" and "ct_trace (snd (Reconcile pf cfg env key c)) = ct_trace c @ effs"
  shows "ct_explainCh (snd (Reconcile pf cfg env key c)) = ct_explainCh c \<or>
     (\<exists>q. EffNotify q \<in> set effs \<and> ct_explainCh (snd (Reconcile pf cfg env key c)) = Notify (ct_explainCh c) q)"
  using Reconcile_shape [of key c pf cfg env]
proof (elim disjE exE conjE)
  assume "stays_out key c (Reconcile pf cfg env key c)"
  then show ?thesis by (simp add: stays_out_def)
next
  fix a assume "hot_call pf cfg env key a c (Reconcile pf cfg env key c)"
  then obtain ob st c2 where o: "quiet_ext (c\<lparr>ct_StateStore := (ct_StateStore c)(key \<mapsto> st)\<rparr>) c2"
    "Reconcile pf cfg env key c = reconcile_apply pf cfg env (reconcile_decide pf cfg env ob st) c2"
    using hot_call_apply [OF _ assms(1)] by metis
  obtain pre where "ct_trace c2 = ct_trace c @ pre" and ch: "ct_explainCh c2 = ct_explainCh c"
    using o(1) by (auto simp: quiet_ext_def)
  then have "effs = pre @ apply_effects pf env (reconcile_decide pf cfg env ob st)"
    using assms(2) o(2) by (simp add: reconcile_apply_trace)
  then show ?thesis
    using apply_channel [of pf cfg env "reconcile_decide pf cfg env ob st" c2] ch o(2) by auto
qed

lemma backed_mono: "backed tr q \<Longrightarrow> backed (tr @ effs) q"
  by (auto simp: backed_def)

lemma status_good_context: "status_good (aas_Status a) \<Longrightarrow> classifiedContext a = None"
  by (cases "st_ClassifiedParams (aas_Status a)") (auto simp: classifiedContext_def status_good_def params_good_def)

text \<open>What a request says of the long-term load comes from the classification of the resource as read.\<close>

lemma notify_context:
  assumes "store_wf (ct_StateStore c)" and "ct_trace (snd (Reconcile pf cfg env key c)) = ct_trace c @ effs"
    and "EffNotify q \<in> set effs"
  obtains a where "re_Get env key = Inr a" "er_BaselineRPS q = classifiedBaselineRPS a" "er_PeakP95RPS q = classifiedPeakP95RPS a"
proof -
  obtain a ob st pre where o: "re_Get env key = Inr a" "observation cfg env key a ob"
    "effs = pre @ apply_effects pf env (reconcile_decide pf cfg env ob st)" "list_all (\<lambda>e. quiet e \<and> \<not> is_status e) pre"
    using scale_origin [OF assms] by (metis quiet.simps)
  let ?d = "reconcile_decide pf cfg env ob st"
  have "q = explain_of ?d"
    using assms(3) o(3,4) by (auto simp: list_all_iff apply_effects_def finish_effects_def scale_effect_def Let_def split: if_splits)
  moreover have "ob_aas ?d = a" using o(2) by (simp add: observation_def reconcile_decide_def Let_def observed.defs case_prod_beta)
  ultimately show thesis using that [OF o(1)] by (simp add: explain_of_def Let_def)
qed

lemma requests_ok_reconcile:
  assumes "requests_ok s" and "store_wf (ct_StateStore (cl_ctl s))"
    and "ct_trace (snd (Reconcile pf cfg env key (cl_ctl s))) = ct_trace (cl_ctl s) @ effs"
    and "\<And>a. re_Get env key = Inr a \<Longrightarrow> classifiedContext a = None"
  shows "requests_ok (s\<lparr>cl_ctl := snd (Reconcile pf cfg env key (cl_ctl s))\<rparr>)"
proof -
  have b: "backed (ct_trace (cl_ctl s) @ effs) q" if q: "EffNotify q \<in> set effs" for q
  proof -
    obtain a where a: "re_Get env key = Inr a" "er_BaselineRPS q = classifiedBaselineRPS a" "er_PeakP95RPS q = classifiedPeakP95RPS a"
      using notify_context [OF assms(2,3) q] .
    then have "er_BaselineRPS q = 0 \<and> er_PeakP95RPS q = 0"
      using assms(4) [OF a(1)] by (simp add: classifiedBaselineRPS_def classifiedPeakP95RPS_def)
    then show ?thesis using explanation_facts [OF assms(2,3), of q] q by (auto simp: backed_def)
  qed
  show ?thesis
    using Reconcile_channel [OF assms(2,3)] assms(1,3) b
    by (auto simp: requests_ok_def Notify_slot backed_mono)
qed

lemma requests_ok_explain:
  assumes "requests_ok s" and "explain_turn k xenv (ct_explainCh (cl_ctl s)) = Some (q, ch, logs, effs, pause)"
  shows "requests_ok (s\<lparr>cl_ctl := (cl_ctl s)\<lparr>ct_explainCh := ch\<rparr>, cl_handled := cl_handled s @ [q], cl_explained := x\<rparr>)"
  using assms try_recv_slot [of "ct_explainCh (cl_ctl s)"]
  by (auto simp: requests_ok_def explain_turn_def try_recv_def split: option.splits list.splits)

subsection \<open>Every step keeps the invariant\<close>

lemma reconcile_writes_good:
  assumes "objects_ok seen objs" and "reads_from seen (re_Get env)"
    and "EffStatusUpdate b err \<in> set (reconcile_effects pf cfg env key c)"
  shows "status_good (aas_Status b)"
proof -
  obtain a st where a: "re_Get env key = Inr a" "b = a\<lparr>aas_Status := st\<rparr>" "hot_owns (aas_Status a) st"
    using reconcile_owned [OF assms(3)] by blast
  have "object_ok key a" by (rule objects_ok_read [OF assms(1,2) a(1)])
  then show ?thesis using a(2,3) by (simp add: object_ok_def status_good_def hot_owns_def)
qed

lemma requests_ok_put [simp]: "requests_ok (put_objects s objs) = requests_ok s"
  by (simp add: requests_ok_def)

lemma requests_ok_upd [simp]: "requests_ok (s\<lparr>cl_ctl := (cl_ctl s)\<lparr>ct_Classifier := x\<rparr>\<rparr>) = requests_ok s"
  by (simp add: requests_ok_def)

lemma cluster_ok_restart:
  assumes "cluster_ok cfg s"
  shows "cluster_ok cfg (s\<lparr>cl_ctl := (initial_controller cfg)\<lparr>ct_trace := ct_trace (cl_ctl s)\<rparr>\<rparr>)"
  using assms by (auto simp: cluster_ok_def initial_controller_def store_wf_def NewStateStore_def manager_ok_def NewManager_def
      requests_ok_def make_chan_def slot_def)

lemma cluster_ok_reconcile:
  assumes "cluster_ok cfg s" and "reads_from (cl_seen s) (re_Get env)"
    and "fresh (cl_objects s) (re_Get env) (reconcile_effects pf cfg env key (cl_ctl s))"
  shows "cluster_ok cfg (put_objects (s\<lparr>cl_ctl := snd (Reconcile pf cfg env key (cl_ctl s))\<rparr>)
      (foldl write_status (cl_objects s) (reconcile_effects pf cfg env key (cl_ctl s))))"
proof -
  let ?effs = "reconcile_effects pf cfg env key (cl_ctl s)"
  have o: "objects_ok (cl_seen s) (cl_objects s)" and st: "store_wf (ct_StateStore (cl_ctl s))"
    and cl: "classifier_ok cfg (cl_ctl s)" and r: "requests_ok s"
    using assms(1) by (simp_all add: cluster_ok_def classifier_ok_def)
  have "objects_ok (cl_seen s \<union> Map.graph (foldl write_status (cl_objects s) ?effs)) (foldl write_status (cl_objects s) ?effs)"
    using o hot_frame [OF assms(2) objects_ok_keyed [OF o]] reconcile_writes_good [OF o assms(2)] assms(3)
    by (intro objects_ok_writes) auto
  moreover have "classifier_ok cfg (snd (Reconcile pf cfg env key (cl_ctl s)))"
    using cl objects_ok_read [OF o assms(2)] by (intro classifier_ok_Reconcile) (auto simp: object_ok_def)
  moreover have "requests_ok (s\<lparr>cl_ctl := snd (Reconcile pf cfg env key (cl_ctl s))\<rparr>)"
    by (rule requests_ok_reconcile [OF r st Reconcile_effects])
       (use objects_ok_read [OF o assms(2)] in \<open>auto simp: object_ok_def intro: status_good_context\<close>)
  ultimately show ?thesis
    using Reconcile_store_wf [OF st] by (simp add: cluster_ok_def classifier_ok_def)
qed

lemma cluster_ok_classify:
  assumes "cluster_ok cfg s" and "ct_Classifier (cl_ctl s) = Some m" and "i < length (mg_spawned m)"
    and "reads_from (cl_seen s) (ce_Get_patch env)" and run: "runClassification pf env (mg_spawned m ! i) = (ok, w, effs)"
    and "fresh (cl_objects s) (ce_Get_patch env) effs"
  shows "cluster_ok cfg (put_objects
      (s\<lparr>cl_ctl := (cl_ctl s)\<lparr>ct_Classifier := Some (m\<lparr>mg_spawned := (mg_spawned m)[i := w]\<rparr>)\<rparr>\<rparr>)
      (foldl write_status (cl_objects s) effs))"
proof -
  have o: "objects_ok (cl_seen s) (cl_objects s)" and m: "manager_ok cfg m"
    using assms(1,2) by (simp_all add: cluster_ok_def)
  then have "worker_good cfg (mg_spawned m ! i)" using assms(3) by (simp add: manager_ok_def)
  moreover have "effs = classification_effects pf env (mg_spawned m ! i)"
    using run by (simp add: classification_effects_def)
  ultimately have "objects_ok (cl_seen s \<union> Map.graph (foldl write_status (cl_objects s) effs)) (foldl write_status (cl_objects s) effs)"
    using o cold_frame [OF assms(4) objects_ok_keyed [OF o]] classify_writes_good [OF _ run] assms(6)
    by (intro objects_ok_writes) auto
  then show ?thesis
    using assms(1) classifier_ok_classify [OF m assms(3) run] by (simp add: cluster_ok_def)
qed

lemma cluster_ok_step:
  assumes "cstep pf cfg act s s'" and "cluster_ok cfg s"
  shows "cluster_ok cfg s'"
proof -
  have o: "objects_ok (cl_seen s) (cl_objects s)" using assms(2) by (simp add: cluster_ok_def)
  from assms(1) show ?thesis
  proof cases
    case (user_apply a objs)
    then show ?thesis using assms(2) objects_ok_apply [OF o] by (simp add: cluster_ok_def)
  next
    case (user_remove key)
    have "objects_ok (cl_seen s \<union> Map.graph ((cl_objects s)(key := None))) ((cl_objects s)(key := None))"
      by (rule objects_ok_put [OF o]) (auto dest: objects_ok_lookup [OF o] split: if_splits)
    then show ?thesis using assms(2) user_remove by (simp add: cluster_ok_def)
  next
    case (reconcile env effs key)
    then show ?thesis using cluster_ok_reconcile [OF assms(2)] by simp
  next
    case (classify m i env ok w effs)
    then show ?thesis using cluster_ok_classify [OF assms(2)] by simp
  next
    case (strip env effs w)
    then show ?thesis using assms(2) objects_ok_strip [OF o strip(3)] by (simp add: cluster_ok_def)
  next
    case (explain xenv q ch logs effs pause)
    then show ?thesis using assms(2) requests_ok_explain [OF _ explain(3)] by (simp add: cluster_ok_def)
  next
    case restart
    then show ?thesis using cluster_ok_restart [OF assms(2)] by simp
  qed
qed

lemma creach_ok: "creach pf env0 cfg s \<Longrightarrow> cluster_ok cfg s"
proof (induction rule: creach.induct)
  case (start c)
  then have "c = initial_controller cfg" by (auto simp: start_main_def split: sum.splits)
  then show ?case
    by (simp add: cluster_ok_def objects_ok_def initial_controller_def store_wf_def NewStateStore_def manager_ok_def NewManager_def
        requests_ok_def make_chan_def slot_def)
qed (rule cluster_ok_step)

lemma creach_objects: "creach pf env0 cfg s \<Longrightarrow> objects_ok (cl_seen s) (cl_objects s)"
  using creach_ok by (simp add: cluster_ok_def)

lemma creach_config: "creach pf env0 cfg s \<Longrightarrow> LoadFromEnv env0 = Inr cfg"
  by (induction rule: creach.induct) (auto simp: start_main_def split: sum.splits)

section \<open>What the operator promises\<close>

lemma admitted_sane:
  assumes "config_ok cfg" and "sint (cfg_DefaultMaxStepSize cfg) < 2 ^ 30"
    and "spec_good (aas_Spec a)" and "status_good (aas_Status a)" and "0 \<le> sint current" and "sint current \<le> 2 ^ 30"
  shows "scale_sane cfg a current"
proof -
  obtain mn mx where b: "spec_MinReplicas (aas_Spec a) = Some mn" "spec_MaxReplicas (aas_Spec a) = Some mx"
    "1 \<le> sint mn" "sint mn < sint mx" "sint mx \<le> 2 ^ 30"
    using spec_good_bounds [OF assms(3)] .
  have "on_set (spec_MaxStepSize (aas_Spec a)) (\<lambda>v. 1 \<le> sint v \<and> sint v < 2 ^ 30)"
    using assms(3) b unfolding spec_good_def valid_spec_def by (cases "spec_MaxStepSize (aas_Spec a)") auto
  then show ?thesis
    using assms b
    by (auto simp: scale_sane_def ResolveEffectiveParams_def buildParamSources_def coalesce32_def classifiedField32_def
        derefOr_def config_ok_def status_good_def params_good_def split: option.splits)
qed

text \<open>C1. The operator as a whole scales safely. Started from a configuration that loads, with resources
  that enter only through defaulting and admission, and whatever interleaving of user writes,
  reconciles, classifications, explanations and restarts came before: a reconcile, of any version of
  the resource a cache may return, that patches a deployment of at most \<open>2\<^sup>3\<^sup>0\<close> replicas finds a resource
  with a proper replica range, is not paused, and moves the count by at least one and at most the
  effective step, to a count that is not negative and lies between the range and the current count.\<close>

theorem operator_scales_safely:
  assumes "creach pf env0 cfg s" and "sint (cfg_DefaultMaxStepSize cfg) < 2 ^ 30"
    and "reads_from (cl_seen s) (re_Get env)" and "re_Get env key = Inr a"
    and "observed_replicas env a = Some current" and "0 \<le> sint current" and "sint current \<le> 2 ^ 30"
    and "ct_trace (snd (Reconcile pf cfg env key (cl_ctl s))) = ct_trace (cl_ctl s) @ effs"
    and "EffScale k t err \<in> set effs"
  shows "\<exists>mn mx. spec_MinReplicas (aas_Spec a) = Some mn \<and> spec_MaxReplicas (aas_Spec a) = Some mx \<and>
     1 \<le> sint mn \<and> sint mn < sint mx \<and> not_paused env a \<and> t \<noteq> current \<and> 0 \<le> sint t \<and>
     \<bar>sint t - sint current\<bar> \<le> sint (ep_MaxStep (ResolveEffectiveParams (buildParamSources cfg a))) \<and>
     min (sint current) (sint mn) \<le> sint t \<and> sint t \<le> max (sint current) (sint mx)"
proof -
  have ok: "cluster_ok cfg s" by (rule creach_ok [OF assms(1)])
  have cfg: "config_ok cfg" using creach_config [OF assms(1)] by (simp add: LoadFromEnv_Inr cfg_validate_Nil)
  have a: "spec_good (aas_Spec a)" "status_good (aas_Status a)"
    using objects_ok_read [OF creach_objects [OF assms(1)] assms(3,4)] by (simp_all add: object_ok_def)
  obtain mn mx where b: "spec_MinReplicas (aas_Spec a) = Some mn" "spec_MaxReplicas (aas_Spec a) = Some mx"
    "1 \<le> sint mn" "sint mn < sint mx" "sint mx \<le> 2 ^ 30"
    using spec_good_bounds [OF a(1)] .
  have "scale_sane cfg a current" by (rule admitted_sane [OF cfg assms(2) a assms(6,7)])
  then have "not_paused env a \<and> length (filter is_scale effs) = 1 \<and> t \<noteq> current \<and>
     \<bar>sint t - sint current\<bar> \<le> sint (ep_MaxStep (ResolveEffectiveParams (buildParamSources cfg a))) \<and>
     min (sint current) (sint (derefOr (spec_MinReplicas (aas_Spec a)) 2)) \<le> sint t \<and>
     sint t \<le> max (sint current) (sint (derefOr (spec_MaxReplicas (aas_Spec a)) 10))"
    using ok assms(4,5,8,9) by (intro scale_bounds) (simp_all add: cluster_ok_def)
  then show ?thesis using b assms(6) by (intro exI [of _ mn] exI [of _ mx]) (auto simp: derefOr_def min_def split: if_splits)
qed

subsection \<open>The effective parameters\<close>

text \<open>The first value that is present.\<close>

fun first_set :: "'a option list \<Rightarrow> 'a \<Rightarrow> 'a" where
  "first_set [] d = d"
| "first_set (Some v # vs) d = v"
| "first_set (None # vs) d = first_set vs d"

lemma first_set_two: "first_set [x, y] d = (case x of Some v \<Rightarrow> v | None \<Rightarrow> (case y of Some v \<Rightarrow> v | None \<Rightarrow> d))"
  by (cases x; cases y) simp_all

lemma first_set_prop:
  "on_set x P \<Longrightarrow> on_set y P \<Longrightarrow> P d \<Longrightarrow> P (first_set [x, y] d)"
  by (cases x; cases y) simp_all

lemma on_set_map: "on_set x P \<Longrightarrow> (\<And>v. P v \<Longrightarrow> Q (f v)) \<Longrightarrow> on_set (map_option f x) Q"
  by (cases x) simp_all

lemma coalesce32_first: "coalesce32 x (classifiedField32 c f) d = first_set [x, map_option f c] d"
  by (simp add: coalesce32_def classifiedField32_def first_set_two split: option.split)

lemma coalesceStr_first:
  assumes "on_set x (\<lambda>v. v \<noteq> '''')" and "on_set (map_option f c) (\<lambda>v. v \<noteq> '''')"
  shows "coalesceStr x (classifiedFieldStr c f) d = first_set [x, map_option f c] d"
  using assms by (cases x; cases c) (simp_all add: coalesceStr_def classifiedFieldStr_def Let_def)

lemma durationSeconds_nonneg:
  assumes "0 \<le> sint d"
  shows "0 \<le> sint (durationSecondsAsInt32 d)"
proof -
  have "0 \<le> trunc_div (sint d) ns_Second"
    using assms by (simp add: trunc_div_def Let_def pos_imp_zdiv_nonneg_iff)
  then show ?thesis by (simp add: durationSecondsAsInt32_def Let_def sint_i32 in_i32_def)
qed

text \<open>C17. The effective parameters follow the design, field by field, for every version of every resource
  that a running operator can read: the operator's value if it is set, else the classifier's if there
  is a classification, else the default of the configuration (\<^verbatim>\<open>auto\<close> for the forecaster), the two
  cooldowns and the step independently of each other. Neither admission nor the classifier lets an
  empty forecaster name through, so that the code's special case for it never matters; a pinned
  \<^verbatim>\<open>auto\<close>, too, hides the classifier's choice. Whatever the source, no cooldown is negative, the step
  is at least one, and the forecaster is one of the four names.\<close>

theorem effective_params_follow_design:
  assumes "creach pf env0 cfg s" and "(k, a) \<in> cl_seen s"
    and "e = ResolveEffectiveParams (buildParamSources cfg a)"
    and "sp = aas_Spec a" and "cls = st_ClassifiedParams (aas_Status a)"
  shows "ep_CooldownUp e = first_set [spec_ScaleUpCooldownSeconds sp, map_option cp_ScaleUpCooldownSeconds cls]
        (durationSecondsAsInt32 (cfg_DefaultScaleUpCooldown cfg)) \<and>
     ep_CooldownDown e = first_set [spec_ScaleDownCooldownSeconds sp, map_option cp_ScaleDownCooldownSeconds cls]
        (durationSecondsAsInt32 (cfg_DefaultScaleDownCooldown cfg)) \<and>
     ep_MaxStep e = first_set [spec_MaxStepSize sp, map_option cp_MaxStepSize cls] (cfg_DefaultMaxStepSize cfg) \<and>
     ep_Forecaster e = first_set [spec_PreferredForecaster sp, map_option cp_PreferredForecaster cls] ''auto'' \<and>
     0 \<le> sint (ep_CooldownUp e) \<and> 0 \<le> sint (ep_CooldownDown e) \<and> 1 \<le> sint (ep_MaxStep e) \<and>
     ep_Forecaster e \<in> {''prophet'', ''linear_extrap'', ''gbdt_quantile'', ''auto''}"
proof -
  let ?forecasters = "{''prophet'', ''linear_extrap'', ''gbdt_quantile'', ''auto''}"
  have cfg: "config_ok cfg" using creach_config [OF assms(1)] by (simp add: LoadFromEnv_Inr cfg_validate_Nil)
  have "object_ok k a" using creach_objects [OF assms(1)] assms(2) by (simp add: objects_ok_def)
  then have v: "valid_spec sp" and g: "status_good (aas_Status a)"
    using assms(4) by (simp_all add: object_ok_def spec_good_def)
  have sp: "on_set (spec_ScaleUpCooldownSeconds sp) (\<lambda>v. 0 \<le> sint v)" "on_set (spec_ScaleDownCooldownSeconds sp) (\<lambda>v. 0 \<le> sint v)"
    "on_set (spec_MaxStepSize sp) (\<lambda>v. 1 \<le> sint v)" "on_set (spec_PreferredForecaster sp) (\<lambda>f. f \<in> ?forecasters)"
    using v by (cases "spec_MaxStepSize sp"; simp add: valid_spec_def)+
  have pg: "on_set cls params_good" using g by (simp add: assms(5) on_set_def status_good_def split: option.split)
  have cl: "on_set (map_option cp_ScaleUpCooldownSeconds cls) (\<lambda>v. 0 \<le> sint v)"
    "on_set (map_option cp_ScaleDownCooldownSeconds cls) (\<lambda>v. 0 \<le> sint v)"
    "on_set (map_option cp_MaxStepSize cls) (\<lambda>v. 1 \<le> sint v)"
    "on_set (map_option cp_PreferredForecaster cls) (\<lambda>f. f \<in> ?forecasters)"
    by (rule on_set_map [OF pg]; force simp: params_good_def)+
  have ne: "on_set (spec_PreferredForecaster sp) (\<lambda>f. f \<noteq> '''')" "on_set (map_option cp_PreferredForecaster cls) (\<lambda>f. f \<noteq> '''')"
    using on_set_map [OF sp(4), of "\<lambda>f. f \<noteq> ''''" id] on_set_map [OF cl(4), of "\<lambda>f. f \<noteq> ''''" id]
    by (auto simp: option.map_id)
  have e: "ep_CooldownUp e = first_set [spec_ScaleUpCooldownSeconds sp, map_option cp_ScaleUpCooldownSeconds cls]
        (durationSecondsAsInt32 (cfg_DefaultScaleUpCooldown cfg))"
    "ep_CooldownDown e = first_set [spec_ScaleDownCooldownSeconds sp, map_option cp_ScaleDownCooldownSeconds cls]
        (durationSecondsAsInt32 (cfg_DefaultScaleDownCooldown cfg))"
    "ep_MaxStep e = first_set [spec_MaxStepSize sp, map_option cp_MaxStepSize cls] (cfg_DefaultMaxStepSize cfg)"
    using assms(3-5)
    by (simp_all add: ResolveEffectiveParams_def buildParamSources_def coalesce32_first option.map_comp comp_def)
  moreover have f: "ep_Forecaster e = first_set [spec_PreferredForecaster sp, map_option cp_PreferredForecaster cls] ''auto''"
    using assms(3-5) ne
    by (simp add: ResolveEffectiveParams_def buildParamSources_def coalesceStr_first option.map_comp comp_def)
  moreover have "0 \<le> sint (ep_CooldownUp e)" "0 \<le> sint (ep_CooldownDown e)" "1 \<le> sint (ep_MaxStep e)"
    unfolding e using cfg
    by (intro first_set_prop [where P = "\<lambda>v. 0 \<le> sint v"] first_set_prop [where P = "\<lambda>v. 1 \<le> sint v"] sp cl durationSeconds_nonneg;
        simp add: config_ok_def)+
  moreover have "ep_Forecaster e \<in> ?forecasters"
    unfolding f by (intro first_set_prop [where P = "\<lambda>f. f \<in> ?forecasters"] sp cl) simp
  ultimately show ?thesis by simp
qed

text \<open>C5. Every explanation explains a real scaling: each request the explainer has handled, in any run of
  the operator, is for a patch of the scale subresource that succeeded, to the count it names, with
  one of the four scaling reasons; so the prompt never carries the lines about binding replica
  bounds. But of the long-term load of a classified resource it always says that baseline and peak are
  0, since no classification carries a context.\<close>

theorem explanations_are_real:
  assumes "creach pf env0 cfg s" and "q \<in> set (cl_handled s)"
  shows "(\<exists>k. EffScale k (er_TargetReplicas q) None \<in> set (ct_trace (cl_ctl s))) \<and>
     er_CurrentReplicas q \<noteq> er_TargetReplicas q \<and> binding_lines q = '''' \<and>
     (er_Pattern q \<noteq> '''' \<longrightarrow>
        (\<exists>pre post. snd (BuildPrompt q) = pre @ ''Long-term context: baseline 0 rps, p95 0 rps'' @ NL @ post))"
proof -
  have b: "backed (ct_trace (cl_ctl s)) q"
    using creach_ok [OF assms(1)] assms(2) by (simp add: cluster_ok_def requests_ok_def)
  have "\<exists>pre post. snd (BuildPrompt q) = pre @ ''Long-term context: baseline 0 rps, p95 0 rps'' @ NL @ post"
    if p: "er_Pattern q \<noteq> ''''"
  proof -
    have z: "itoa 0 = ''0''" by code_simp
    obtain pre post where "snd (BuildPrompt q) = pre @ (''Long-term context: baseline '' @ itoa32 (er_BaselineRPS q) @ '' rps, p95 ''
          @ itoa32 (er_PeakP95RPS q) @ '' rps'' @ NL) @ post"
      unfolding BuildPrompt_def snd_conv if_P [OF p] by blast
    moreover have "er_BaselineRPS q = 0" "er_PeakP95RPS q = 0" using b by (simp_all add: backed_def)
    ultimately have "snd (BuildPrompt q) = pre @ ''Long-term context: baseline 0 rps, p95 0 rps'' @ NL @ post"
      by (simp only: z signed_0 append_Cons append_Nil append_assoc)
    then show ?thesis by blast
  qed
  then show ?thesis using b by (auto simp: backed_def binding_lines_def token_defs)
qed

subsection \<open>Who may change what\<close>

text \<open>One step of an actor on one stored object.\<close>

definition keeps_out :: "actor \<Rightarrow> aas \<Rightarrow> aas \<Rightarrow> bool" where
  "keeps_out act a a' \<longleftrightarrow>
     (act = User \<or> aas_Spec a' = aas_Spec a \<and> (\<forall>n. n \<noteq> AnnotationReclassify \<longrightarrow> aas_Annotations a' n = aas_Annotations a n)) \<and>
     (act = ColdPath \<or> st_ClassifiedParams (aas_Status a') = st_ClassifiedParams (aas_Status a)) \<and>
     (act = HotPath \<or> cold_owns (aas_Status a) (aas_Status a')) \<and>
     (act \<in> {User, ColdPath} \<or> aas_Annotations a' = aas_Annotations a) \<and>
     (act \<in> {Explaining, Process} \<longrightarrow> a' = a)"

lemma cold_owns_refl: "cold_owns st st"
  unfolding cold_owns_def by (rule exI, rule classified_self)

lemma keeps_out_refl [simp]: "keeps_out act a a"
  by (simp add: keeps_out_def cold_owns_refl)

lemma keeps_out_apply:
  assumes "apply_object objs b = Some objs'" and "objs k = Some a" and "objs' k = Some a'"
  shows "keeps_out User a a'"
  using assms by (auto simp: keeps_out_def apply_object_def Let_def aas_key_def cold_owns_refl split: if_splits)

lemma up_to_hot:
  assumes "up_to hot_owns objs objs'" and "objs k = Some a" and "objs' k = Some a'"
  shows "keeps_out HotPath a a'"
  by (rule up_to_lookup [OF assms(1,3)]) (use assms(2) in \<open>auto simp: keeps_out_def hot_owns_def\<close>)

lemma up_to_cold:
  assumes "up_to cold_owns objs objs'" and "objs k = Some a" and "objs' k = Some a'"
  shows "keeps_out ColdPath a a'"
  by (rule up_to_lookup [OF assms(1,3)]) (use assms(2) in \<open>auto simp: keeps_out_def\<close>)

lemma stripped_keeps_out: "keeps_out ColdPath a (stripped a)"
  by (simp add: keeps_out_def stripped_def cold_owns_refl)

text \<open>C2. The three writers of a resource never destroy each other's work, although they read stale copies
  and write concurrently: in every run, a step of the hot path leaves the spec, the annotations and
  the classification of every stored resource as they are; a step of the cold path changes nothing of
  the status but the classification, and of the rest only the reclassify annotation; a user's write
  leaves the status alone; explanations and restarts change nothing.\<close>

theorem writers_keep_out:
  assumes "creach pf env0 cfg s" and "cstep pf cfg act s s'" and "cl_objects s k = Some a" and "cl_objects s' k = Some a'"
  shows "keeps_out act a a'"
proof -
  note o = creach_objects [OF assms(1)]
  note key' = objects_ok_keyed [OF o]
  from assms(2) show ?thesis
  proof cases
    case (user_apply b objs)
    then show ?thesis using keeps_out_apply assms(3,4) by simp
  next
    case (user_remove key)
    then show ?thesis using assms(3,4) by (auto split: if_splits)
  next
    case (reconcile env effs key)
    have "up_to hot_owns (cl_objects s) (cl_objects s')"
      using hot_frame [OF reconcile(3) key'] reconcile by simp
    then show ?thesis using up_to_hot assms(3,4) reconcile(1) by metis
  next
    case (classify m i env ok w effs)
    have "up_to cold_owns (cl_objects s) (cl_objects s')"
      using cold_frame [OF classify(5) key', of "cl_objects s" pf "mg_spawned m ! i"] classify
      by (simp add: classification_effects_def)
    then show ?thesis using up_to_cold assms(3,4) classify(1) by metis
  next
    case (strip env effs w)
    have "fresh (cl_objects s) (ce_Get_annotation env) (removeReclassifyAnnotation env w)" using strip by simp
    from strip_objects [OF strip(3) key' this] show ?thesis
      using strip stripped_keeps_out assms(3,4) by (auto split: if_splits)
  next
    case (explain xenv q ch logs effs pause)
    then show ?thesis using assms(3,4) by simp
  next
    case restart
    then show ?thesis using assms(3,4) by simp
  qed
qed

subsection \<open>The forecast context\<close>

definition asks :: "config \<Rightarrow> reconcile_env \<Rightarrow> namespaced_name \<Rightarrow> aas \<Rightarrow> effect list \<Rightarrow> bool" where
  "asks cfg env key a effs \<longleftrightarrow>
     (\<forall>req. EffRecommend req \<in> set effs \<longrightarrow> (\<exists>samples. req = recommend_request_of cfg env key a samples))"

lemma calibrate_asks_nothing:
  "\<exists>effs. ct_trace (snd (reconcile_calibrate pf cfg env ob c)) = ct_trace c @ effs \<and> (\<forall>req. EffRecommend req \<notin> set effs)"
  by (auto simp: reconcile_calibrate_eq Let_def reconcile_apply_trace apply_effects_def finish_effects_def scale_effect_def
      split: option.splits)

lemma target_asks_nothing:
  "\<exists>effs. ct_trace (snd (reconcile_target pf cfg env key a rps resp c)) = ct_trace c @ effs \<and> (\<forall>req. EffRecommend req \<notin> set effs)"
proof (cases "re_GetDeployment env \<lparr>nn_Namespace = aas_Namespace a, nn_Name = ref_Name (spec_TargetRef (aas_Spec a))\<rparr>")
  case (Inr d)
  have "\<exists>effs. ct_trace (snd (reconcile_calibrate pf cfg env ob (c\<lparr>ct_Classifier := m\<rparr>))) = ct_trace c @ effs \<and>
      (\<forall>req. EffRecommend req \<notin> set effs)" for ob m
    using calibrate_asks_nothing [of pf cfg env ob "c\<lparr>ct_Classifier := m\<rparr>"] by simp
  then show ?thesis unfolding reconcile_target_def Inr sum.case Let_def .
qed (simp add: reconcile_target_def)

text \<open>The trace of the second controller extends that of the first, asking only for forecasts of \<open>a\<close>.\<close>

definition asks_ext :: "config \<Rightarrow> reconcile_env \<Rightarrow> namespaced_name \<Rightarrow> aas \<Rightarrow> controller \<Rightarrow> controller \<Rightarrow> bool" where
  "asks_ext cfg env key a c c1 \<longleftrightarrow> (\<exists>effs. ct_trace c1 = ct_trace c @ effs \<and> asks cfg env key a effs)"

lemma asks_ext_refl [simp]: "asks_ext cfg env key a c c"
  by (simp add: asks_ext_def asks_def)

lemma asks_ext_emit [simp]:
  "asks_ext cfg env key a c c1 \<Longrightarrow> \<not> is_recommend e \<Longrightarrow> asks_ext cfg env key a c (emit e c1)"
  "asks_ext cfg env key a c c1 \<Longrightarrow> asks_ext cfg env key a c (emit (EffRecommend (recommend_request_of cfg env key a samples)) c1)"
  "asks_ext cfg env key a c (c1\<lparr>ct_metrics := x\<rparr>) = asks_ext cfg env key a c c1"
  by (auto simp: asks_ext_def asks_def)

lemma asks_ext_target:
  "asks_ext cfg env key a c c1 \<Longrightarrow> asks_ext cfg env key a c (snd (reconcile_target pf cfg env key a rps resp c1))"
  using target_asks_nothing [of pf cfg env key a rps resp c1] by (auto simp: asks_ext_def asks_def)

lemma observe_asks: "asks_ext cfg env key a c (snd (reconcile_observe pf cfg env key a c))"
  by (simp add: reconcile_observe_def Let_def metrics_unavailable_def asks_ext_target split: sum.split)

lemma Reconcile_asks:
  assumes "re_Get env key = Inr a" and "ct_trace (snd (Reconcile pf cfg env key c)) = ct_trace c @ effs"
  shows "asks cfg env key a effs"
proof -
  obtain c0 where c0: "ct_trace c0 = ct_trace c" and r: "Reconcile pf cfg env key c =
      (if annotation (aas_Annotations a) AnnotationKillSwitch = ''true'' then handleKillSwitch cfg env a c0
       else if being_deleted a then (Return 0 None, c0)
       else case findConflictingHPA env a of
              Inl e \<Rightarrow> (Return 0 (Some e), c0)
            | Inr (Some hpaName) \<Rightarrow> handleConflict cfg env a hpaName c0
            | Inr None \<Rightarrow> reconcile_observe pf cfg env key a c0)"
    using Reconcile_Get [OF assms(1)] by metis
  show ?thesis
    using assms(2) observe_asks [of cfg env key a c0 pf] unfolding r asks_ext_def
    by (auto simp: c0 asks_def handleKillSwitch_def handleConflict_def Let_def split: if_splits sum.splits option.splits)
qed

text \<open>C6. The forecast context never leaves the operator: in every run, no forecast request of a reconcile
  carries the context block, because the classifier as wired never publishes one.\<close>

theorem context_never_sent:
  assumes "creach pf env0 cfg s" and "reads_from (cl_seen s) (re_Get env)" and "re_Get env key = Inr a"
    and "ct_trace (snd (Reconcile pf cfg env key (cl_ctl s))) = ct_trace (cl_ctl s) @ effs"
    and "EffRecommend req \<in> set effs"
  shows "rq_Context req = None"
proof -
  have "status_good (aas_Status a)"
    using objects_ok_read [OF creach_objects [OF assms(1)] assms(2,3)] by (simp add: object_ok_def)
  then have "classifiedContext a = None" by (rule status_good_context)
  moreover obtain samples where "req = recommend_request_of cfg env key a samples"
    using Reconcile_asks [OF assms(3,4)] assms(5) by (auto simp: asks_def)
  ultimately show ?thesis by (simp add: recommend_request_of_def Let_def buildForecastContext_def)
qed

section \<open>A run\<close>

text \<open>The example resource is created and reconciled, and its scaling is explained.\<close>

definition demo_cluster :: cluster where
  "demo_cluster = put_objects (start_cluster (initial_controller default_config)) [demo_key \<mapsto> demo_cr]"

lemma demo_cluster_simps [simp]:
  "cl_objects demo_cluster = [demo_key \<mapsto> demo_cr]" "cl_seen demo_cluster = {(demo_key, demo_cr)}"
  "cl_ctl demo_cluster = initial_controller default_config"
  "cl_handled demo_cluster = []" "ct_trace (initial_controller cfg) = []" "ct_StateStore (initial_controller cfg) = NewStateStore"
  "ct_explainCh (initial_controller cfg) = make_chan 1"
  by (simp_all add: demo_cluster_def initial_controller_def)

lemma demo_creach: "creach amd64 default_env default_config demo_cluster"
proof -
  let ?s = "start_cluster (initial_controller default_config)"
  have "apply_object Map.empty demo_cr = Some [demo_key \<mapsto> demo_cr]"
    by (simp add: apply_object_def Let_def admitted_valid demo_key_def aas_key_def)
       (simp add: demo_cr_def demo_spec_def api_defaults_def derefOr_def valid_spec_def zero_status_def)
  then have "cstep amd64 default_config User ?s demo_cluster"
    using cstep.user_apply [of ?s demo_cr "[demo_key \<mapsto> demo_cr]" amd64 default_config]
    by (simp add: demo_cluster_def small_spec_def demo_cr_def demo_spec_def derefOr_def)
  moreover have "creach amd64 default_env default_config ?s"
    by (rule creach.start) (simp add: start_main_def LoadFromEnv_defaults)
  ultimately show ?thesis by (rule creach.step [rotated])
qed

lemma demo_reads: "reads_from (cl_seen demo_cluster) (re_Get demo_renv)"
  by (simp add: reads_from_def demo_renv_def)

abbreviation demo_decision :: decided where
  "demo_decision \<equiv> reconcile_decide amd64 default_config demo_renv demo_ob demo_state"

lemma healthy_apply:
  assumes "healthy cfg env key a ob" and "calibrate cfg env ob (start_state ob (ct_StateStore c)) = Some st"
  obtains c2 samples where "Reconcile pf cfg env key c = reconcile_apply pf cfg env (reconcile_decide pf cfg env ob st) c2"
    "ct_explainCh c2 = ct_explainCh c" "EffRecommend (recommend_request_of cfg env key a samples) \<in> set (ct_trace c2)"
proof -
  obtain c1 samples where c1: "quiet_ext c c1" "Reconcile pf cfg env key c = reconcile_calibrate pf cfg env ob c1"
    "EffRecommend (recommend_request_of cfg env key a samples) \<in> set (ct_trace c1)"
    using healthy_calibrates [OF assms(1)] .
  then show ?thesis
    using assms(2) that [of "c1\<lparr>ct_StateStore := (ct_StateStore c)(ob_key ob \<mapsto> st)\<rparr>" samples]
    by (simp add: reconcile_calibrate_eq Let_def quiet_ext_def)
qed

lemma demo_reconcile:
  obtains c2 samples where
    "Reconcile amd64 default_config demo_renv demo_key (initial_controller default_config) =
       reconcile_apply amd64 default_config demo_renv demo_decision c2"
    "ct_explainCh c2 = make_chan 1" "EffRecommend (recommend_request_of default_config demo_renv demo_key demo_cr samples) \<in> set (ct_trace c2)"
  using healthy_apply [OF demo_healthy, of "initial_controller default_config" demo_state amd64] demo_calibrate by auto

lemma demo_effects:
  "EffScale \<lparr>nn_Namespace = ''prod'', nn_Name = ''web''\<rparr> 7 None \<in> set (apply_effects amd64 demo_renv demo_decision)"
  using demo_decided by (auto simp: apply_effects_def scale_effect_def) (auto simp: demo_renv_def demo_ob_def demo_deploy_def)

lemma demo_channel:
  "ct_explainCh (snd (Reconcile amd64 default_config demo_renv demo_key (initial_controller default_config))) =
     Notify (make_chan 1) (explain_of demo_decision)"
proof -
  obtain c2 samples where c2: "Reconcile amd64 default_config demo_renv demo_key (initial_controller default_config) =
      reconcile_apply amd64 default_config demo_renv demo_decision c2" "ct_explainCh c2 = make_chan 1"
    using demo_reconcile by metis
  have "re_ScaleUpdate demo_renv x y = None" for x y by (simp add: demo_renv_def)
  then show ?thesis
    using demo_decided c2(2) unfolding c2(1) by (simp add: reconcile_apply_def Let_def finish_channel)
qed

lemma demo_scales:
  "EffScale \<lparr>nn_Namespace = ''prod'', nn_Name = ''web''\<rparr> 7 None \<in>
     set (ct_trace (snd (Reconcile amd64 default_config demo_renv demo_key (cl_ctl demo_cluster))))"
proof -
  obtain c2 samples where "Reconcile amd64 default_config demo_renv demo_key (initial_controller default_config) =
      reconcile_apply amd64 default_config demo_renv demo_decision c2"
    using demo_reconcile by metis
  then show ?thesis using demo_effects by (simp add: reconcile_apply_trace)
qed

theorem operator_scales_safely_witness:
  "\<exists>mn mx. spec_MinReplicas (aas_Spec demo_cr) = Some mn \<and> spec_MaxReplicas (aas_Spec demo_cr) = Some mx \<and>
     not_paused demo_renv demo_cr \<and> sint (7 :: int32) \<le> max 3 (sint mx)"
proof -
  let ?tr = "ct_trace (snd (Reconcile amd64 default_config demo_renv demo_key (cl_ctl demo_cluster)))"
  have "EffScale \<lparr>nn_Namespace = ''prod'', nn_Name = ''web''\<rparr> 7 None \<in> set ?tr" by (rule demo_scales)
  moreover have "sint (cfg_DefaultMaxStepSize default_config) < 2 ^ 30" by (simp add: default_config_def)
  moreover have "sint (3 :: int32) = 3" by simp
  ultimately show ?thesis
    using operator_scales_safely [OF demo_creach _ demo_reads demo_Get demo_sane(2), of ?tr] by fastforce
qed


text \<open>A waiting request can always be taken, whatever the calls of the explainer answer.\<close>

lemma explainer_takes:
  assumes "creach pf env0 cfg s" and "ch_buf (ct_explainCh (cl_ctl s)) = q # rest"
  obtains s' where "creach pf env0 cfg s'" "cl_handled s' = cl_handled s @ [q]"
proof -
  let ?xenv = "demo_explain_env (Inl ErrModelNotFound) demo_cr"
  have "explain_turn (explainer_config cfg) ?xenv (ct_explainCh (cl_ctl s)) =
      Some (q, snd (try_recv (ct_explainCh (cl_ctl s))), [logOllamaErr ErrModelNotFound], [], 0)"
    using assms(2) by (simp add: explain_turn_def try_recv_def handleRequest_cases demo_explain_env_def)
  from cstep.explain [OF this] show ?thesis by (rule that [OF creach.step [OF assms(1)]]) simp
qed

definition demo_next :: cluster where
  "demo_next = put_objects (demo_cluster\<lparr>cl_ctl := snd (Reconcile amd64 default_config demo_renv demo_key (cl_ctl demo_cluster))\<rparr>)
     (foldl write_status (cl_objects demo_cluster) (reconcile_effects amd64 default_config demo_renv demo_key (cl_ctl demo_cluster)))"

lemma demo_fresh:
  "fresh (cl_objects demo_cluster) (re_Get demo_renv) (reconcile_effects amd64 default_config demo_renv demo_key (cl_ctl demo_cluster))"
  by (auto simp: fresh_def demo_renv_def)

lemma demo_cstep: "cstep amd64 default_config HotPath demo_cluster demo_next"
  unfolding demo_next_def by (rule cstep.reconcile [OF demo_reads refl demo_fresh])

lemma demo_explained:
  obtains s where "creach amd64 default_env default_config s" "cl_handled s = [explain_of demo_decision]"
proof -
  have "ch_buf (ct_explainCh (cl_ctl demo_next)) = [explain_of demo_decision]"
    using demo_channel by (simp add: demo_next_def Notify_slot make_chan_def slot_def)
  from explainer_takes [OF creach.step [OF demo_creach demo_cstep] this] that show ?thesis
    by (auto simp: demo_next_def)
qed

theorem effective_params_follow_design_witness:
  "(demo_key, demo_cr) \<in> cl_seen demo_cluster \<and>
   ep_CooldownDown (ResolveEffectiveParams (buildParamSources default_config demo_cr)) =
     durationSecondsAsInt32 (cfg_DefaultScaleDownCooldown default_config) \<and>
   ep_Forecaster (ResolveEffectiveParams (buildParamSources default_config demo_cr)) = ''auto''"
proof -
  have seen: "(demo_key, demo_cr) \<in> cl_seen demo_cluster" using demo_reads demo_Get by (auto simp: reads_from_def)
  have "spec_ScaleDownCooldownSeconds (aas_Spec demo_cr) = None" "spec_PreferredForecaster (aas_Spec demo_cr) = None"
    "st_ClassifiedParams (aas_Status demo_cr) = None"
    by (simp_all add: demo_cr_def demo_spec_def zero_status_def)
  then show ?thesis
    using effective_params_follow_design [OF demo_creach seen refl refl refl] seen by simp
qed

theorem writers_keep_out_witness:
  "\<exists>a. cl_objects demo_next demo_key = Some a \<and> keeps_out HotPath demo_cr a \<and> aas_Spec a = demo_spec"
proof -
  have "keyed (cl_seen demo_cluster)" by (rule objects_ok_keyed [OF creach_objects [OF demo_creach]])
  then have "up_to hot_owns (cl_objects demo_cluster) (cl_objects demo_next)"
    using hot_frame [OF demo_reads _ demo_fresh] by (simp add: demo_next_def)
  then obtain a where a: "cl_objects demo_next demo_key = Some a"
    by (force simp: up_to_def)
  have "keeps_out HotPath demo_cr a"
    using writers_keep_out [OF demo_creach demo_cstep _ a] by simp
  then show ?thesis using a by (simp add: keeps_out_def demo_cr_def)
qed

theorem explanations_are_real_witness:
  "\<exists>s. creach amd64 default_env default_config s \<and> cl_handled s = [explain_of demo_decision] \<and>
     (\<exists>k. EffScale k 7 None \<in> set (ct_trace (cl_ctl s)))"
proof -
  obtain s where s: "creach amd64 default_env default_config s" "cl_handled s = [explain_of demo_decision]"
    by (rule demo_explained)
  have "er_TargetReplicas (explain_of demo_decision) = 7" using demo_decided by (simp add: explain_of_def Let_def)
  then show ?thesis using explanations_are_real [OF s(1), of "explain_of demo_decision"] s by auto
qed

theorem context_never_sent_witness:
  "\<exists>req. EffRecommend req \<in> set (ct_trace (snd (Reconcile amd64 default_config demo_renv demo_key (cl_ctl demo_cluster)))) \<and>
     rq_Context req = None"
proof -
  obtain c2 samples where c2: "Reconcile amd64 default_config demo_renv demo_key (initial_controller default_config) =
      reconcile_apply amd64 default_config demo_renv demo_decision c2"
    "EffRecommend (recommend_request_of default_config demo_renv demo_key demo_cr samples) \<in> set (ct_trace c2)"
    using demo_reconcile by metis
  then have "EffRecommend (recommend_request_of default_config demo_renv demo_key demo_cr samples) \<in>
      set (ct_trace (snd (Reconcile amd64 default_config demo_renv demo_key (cl_ctl demo_cluster))))"
    by (simp add: reconcile_apply_trace)
  then show ?thesis
    using context_never_sent [OF demo_creach demo_reads demo_Get, where effs = "ct_trace (snd (Reconcile amd64 default_config demo_renv demo_key (cl_ctl demo_cluster)))"]
    by auto
qed

end
