(* ===== verification/HotPath.thy ===== *)
theory HotPath
  imports ControllerProps
begin

text \<open>
  What a reconcile computes, end to end, as a specification over the integers and rationals:
  \<open>hot_path_spec\<close> is the autoscaling rule of the design document in one line. The refinement theorem
  says that a reconcile whose calls succeed patches exactly what the rule says, through the float
  arithmetic, the fixed-width integers, the step cap and the cooldown clocks of the code. The last
  section is about sequences of reconciles (\<open>rounds\<close>): under a constant demand they converge.
\<close>

section \<open>The rule\<close>

text \<open>The capacity of a pod is kept in its bounds.\<close>

definition capacity_spec :: "int \<Rightarrow> int \<Rightarrow> rat \<Rightarrow> rat" where
  "capacity_spec lo hi r = max (of_int lo) (min (of_int hi) r)"

text \<open>As many pods as the forecast load needs, within the replica bounds, approached by at most one
  step and only when the direction is not cooling down. \<open>rnd_rat\<close> is the one rounding of the
  division.\<close>

definition hot_path_spec :: "rat \<Rightarrow> rat \<Rightarrow> int \<Rightarrow> int \<Rightarrow> int \<Rightarrow> int \<Rightarrow> bool \<Rightarrow> bool \<Rightarrow> int" where
  "hot_path_spec forecast capacity mn mx current step up down =
     decide_spec (max mn (min mx \<lceil>rnd_rat (forecast / capacity)\<rceil>)) current step up down"

text \<open>The scale effects of a reconcile that wants \<open>target\<close> replicas.\<close>

definition patch_spec :: "reconcile_env \<Rightarrow> deployment \<Rightarrow> int \<Rightarrow> int \<Rightarrow> effect list" where
  "patch_spec env d current target =
     (if target = current then []
      else [EffScale \<lparr>nn_Namespace = dp_Namespace d, nn_Name = dp_Name d\<rparr> (i32 target) (re_ScaleUpdate env d (i32 target))])"

section \<open>Refinement\<close>

lemma ClampRpsPerPod_spec:
  assumes "sint lo \<le> sint hi"
  shows "ClampRpsPerPod (Fin r) lo hi = Fin (capacity_spec (sint lo) (sint hi) r)"
proof -
  have "(of_int (sint lo) :: rat) \<le> of_int (sint hi)" using assms by simp
  then show ?thesis by (auto simp: ClampRpsPerPod_def capacity_spec_def float_of_i32_def max_def min_def)
qed

lemma ClampRecommended_spec:
  "sint mn \<le> sint mx \<Longrightarrow> sint (fst (ClampRecommended u mn mx)) = max (sint mn) (min (sint mx) (sint u))"
  by (auto simp: ClampRecommended_def signed_less)

lemma capacity_spec_ge: "lo \<le> hi \<Longrightarrow> of_int lo \<le> capacity_spec lo hi r"
  by (simp add: capacity_spec_def)

text \<open>The fields of the decision, over the integers.\<close>

abbreviation min_replicas :: "aas \<Rightarrow> int" where "min_replicas a \<equiv> sint (derefOr (spec_MinReplicas (aas_Spec a)) 2)"
abbreviation max_replicas :: "aas \<Rightarrow> int" where "max_replicas a \<equiv> sint (derefOr (spec_MaxReplicas (aas_Spec a)) 10)"
abbreviation capacity_lo :: "aas \<Rightarrow> int" where "capacity_lo a \<equiv> sint (derefOr (spec_RpsPerPodMin (aas_Spec a)) 50)"
abbreviation capacity_hi :: "aas \<Rightarrow> int" where "capacity_hi a \<equiv> sint (derefOr (spec_RpsPerPodMax (aas_Spec a)) 500)"

lemma recommended_spec:
  assumes "rs_PredictedRPS (ob_forecast ob) = Fin p" and "0 \<le> p" and "p \<le> 2147483647"
    and "ps_RpsPerPod st = Fin r" and "1 \<le> capacity_lo (ob_aas ob)" and "capacity_lo (ob_aas ob) \<le> capacity_hi (ob_aas ob)"
    and "min_replicas (ob_aas ob) \<le> max_replicas (ob_aas ob)"
  shows "sint (ci_Recommended (cap_input_of pf env ob st)) = max (min_replicas (ob_aas ob)) (min (max_replicas (ob_aas ob))
     \<lceil>rnd_rat (p / capacity_spec (capacity_lo (ob_aas ob)) (capacity_hi (ob_aas ob)) r)\<rceil>)"
proof -
  let ?r = "capacity_spec (capacity_lo (ob_aas ob)) (capacity_hi (ob_aas ob)) r"
  have "(1 :: rat) \<le> of_int (capacity_lo (ob_aas ob))" using assms(5) by simp
  then have "1 \<le> ?r" using capacity_spec_ge [OF assms(6), of r] by linarith
  then show ?thesis
    using assms ComputeUnbounded_in_range(1) [of p ?r pf]
    by (simp add: cap_input_of_def Let_def ClampRecommended_spec ClampRpsPerPod_spec)
qed

lemma healthy_effects:
  assumes "healthy cfg env key a ob" and "calibrate cfg env ob (start_state ob (ct_StateStore c)) = Some st"
    and "ct_trace (snd (Reconcile pf cfg env key c)) = ct_trace c @ effs"
  shows "filter is_scale effs = filter is_scale (apply_effects pf env (reconcile_decide pf cfg env ob st))"
proof -
  obtain c1 where c1: "quiet_ext c c1" "Reconcile pf cfg env key c = reconcile_calibrate pf cfg env ob c1"
    using healthy_calibrates [OF assms(1)] by metis
  obtain pre where pre: "ct_trace c1 = ct_trace c @ pre" "list_all (\<lambda>e. quiet e \<and> \<not> is_status e) pre"
    "ct_StateStore c1 = ct_StateStore c"
    using c1(1) by (auto simp: quiet_ext_def)
  then have "effs = pre @ apply_effects pf env (reconcile_decide pf cfg env ob st)"
    using assms(2,3) c1(2) by (simp add: reconcile_calibrate_eq Let_def reconcile_apply_trace)
  then show ?thesis using quiet_no_scale [OF pre(2)] by simp
qed

lemma filter_scale_apply:
  "filter is_scale (apply_effects pf env d) = (if co_ShouldPatch (de_cap d) then [scale_effect env d] else [])"
  by (simp add: apply_effects_def finish_effects_def scale_effect_def Let_def)

text \<open>C3. The hot path implements the scaling rule: a reconcile whose calls succeed, of a resource whose
  sizes do not overflow, with a finite forecast of at most \<open>2\<^sup>3\<^sup>1 - 1\<close> requests per second and a finite
  calibrated capacity, patches the deployment exactly once to the replica count of \<open>hot_path_spec\<close>
  when that differs from the current count, and not at all otherwise.\<close>

theorem reconcile_refines_spec:
  assumes "healthy cfg env key a ob" and "calibrate cfg env ob (start_state ob (ct_StateStore c)) = Some st"
    and "ct_trace (snd (Reconcile pf cfg env key c)) = ct_trace c @ effs"
    and "scale_sane cfg a (ob_currentReplicas ob)" and "1 \<le> capacity_lo a" and "capacity_lo a \<le> capacity_hi a"
    and "rs_PredictedRPS (ob_forecast ob) = Fin p" and "0 \<le> p" and "p \<le> 2147483647" and "ps_RpsPerPod st = Fin r"
  shows "filter is_scale effs = patch_spec env (ob_deploy ob) (sint (ob_currentReplicas ob))
     (hot_path_spec p (capacity_spec (capacity_lo a) (capacity_hi a) r) (min_replicas a) (max_replicas a)
        (sint (ob_currentReplicas ob)) (sint (ep_MaxStep (ob_effective ob)))
        (sint (ep_CooldownUp (ob_effective ob)) * ns_Second \<le> re_now env - ps_LastScaleUpTime st)
        (sint (ep_CooldownDown (ob_effective ob)) * ns_Second \<le> re_now env - ps_LastScaleDownTime st))"
proof -
  let ?i = "cap_input_of pf env ob st" let ?d = "reconcile_decide pf cfg env ob st"
  have a: "ob_aas ob = a" and obs: "observation cfg env key a ob"
    using assms(1) by (simp_all add: healthy_def observation_def)
  have s: "no_overflow ?i" by (rule scale_sane_no_overflow [OF assms(4) obs])
  have "sint (ci_Recommended ?i) = max (min_replicas a) (min (max_replicas a)
      \<lceil>rnd_rat (p / capacity_spec (capacity_lo a) (capacity_hi a) r)\<rceil>)"
    using recommended_spec [OF assms(7-10)] assms(4-6) a by (simp add: scale_sane_def)
  then have t: "sint (co_Target (ApplyCapAndCooldown ?i)) =
      hot_path_spec p (capacity_spec (capacity_lo a) (capacity_hi a) r) (min_replicas a) (max_replicas a)
        (sint (ob_currentReplicas ob)) (sint (ep_MaxStep (ob_effective ob))) (up_ready ?i) (down_ready ?i)" (is "_ = ?t")
    using ApplyCap_target [OF s] by (simp add: hot_path_spec_def)
  have p: "co_ShouldPatch (ApplyCapAndCooldown ?i) \<longleftrightarrow> ?t \<noteq> sint (ob_currentReplicas ob)"
    using ApplyCap_patch [of ?i] t by simp
  have "co_Target (ApplyCapAndCooldown ?i) = i32 ?t" by (metis t i32_sint)
  then have "filter is_scale effs = patch_spec env (ob_deploy ob) (sint (ob_currentReplicas ob)) ?t"
    using healthy_effects [OF assms(1-3)] p
    by (simp add: filter_scale_apply patch_spec_def scale_effect_def de_cap_eq)
  then show ?thesis by (simp add: up_ready_def down_ready_def)
qed

theorem reconcile_refines_spec_witness:
  "filter is_scale (ct_trace (snd (Reconcile amd64 default_config demo_renv demo_key demo_controller))) =
     patch_spec demo_renv demo_deploy 3 (hot_path_spec 2600 100 2 10 3 4 True True)"
proof -
  have "capacity_lo demo_cr = 50" "capacity_hi demo_cr = 500" "min_replicas demo_cr = 2" "max_replicas demo_cr = 10"
    by (simp_all add: demo_cr_def demo_spec_def derefOr_def)
  moreover have "capacity_spec 50 500 100 = 100" by (simp add: capacity_spec_def)
  moreover have "re_now demo_renv = 1700000000 * ns_Second" by (simp add: demo_renv_def)
  ultimately show ?thesis
    using reconcile_refines_spec [OF demo_healthy _ _ _ _ _ _ _ _ _, of demo_controller demo_state amd64 _ 2600 100] demo_calibrate demo_sane(1)
    by (simp add: demo_store demo_controller_def demo_ob_def demo_state_def zero_time_def)
qed

section \<open>Convergence\<close>

text \<open>The demand: the calibrated capacity and the forecast ask for \<open>goal\<close> replicas within the bounds.\<close>

definition demands :: "aas \<Rightarrow> observed \<Rightarrow> per_cr_state \<Rightarrow> int \<Rightarrow> bool" where
  "demands a ob st goal \<longleftrightarrow> 1 \<le> capacity_lo a \<and> capacity_lo a \<le> capacity_hi a \<and>
     (\<exists>p r. rs_PredictedRPS (ob_forecast ob) = Fin p \<and> 0 \<le> p \<and> p \<le> 2147483647 \<and> ps_RpsPerPod st = Fin r \<and>
        goal = max (min_replicas a) (min (max_replicas a) \<lceil>rnd_rat (p / capacity_spec (capacity_lo a) (capacity_hi a) r)\<rceil>))"

text \<open>A round: every call answers, the deployment has the \<open>n\<close> replicas the last round left, the demand is
  \<open>goal\<close>, the step is at least \<open>step\<close>, and the cooldown of the direction has passed since \<open>t\<close>, the time of
  the round before.\<close>

definition steady_round :: "config \<Rightarrow> namespaced_name \<Rightarrow> int \<Rightarrow> int \<Rightarrow> time \<Rightarrow> controller \<Rightarrow> int \<Rightarrow> reconcile_env \<Rightarrow> bool" where
  "steady_round cfg key goal step t c n env \<longleftrightarrow>
     (\<exists>a ob st. healthy cfg env key a ob \<and> calibrate cfg env ob (start_state ob (ct_StateStore c)) = Some st \<and>
        scale_sane cfg a (ob_currentReplicas ob) \<and> sint (ob_currentReplicas ob) = n \<and> demands a ob st goal \<and>
        step \<le> sint (ep_MaxStep (ob_effective ob)) \<and> t \<le> re_now env \<and>
        (n < goal \<longrightarrow> t + sint (ep_CooldownUp (ob_effective ob)) * ns_Second \<le> re_now env) \<and>
        (goal < n \<longrightarrow> t + sint (ep_CooldownDown (ob_effective ob)) * ns_Second \<le> re_now env) \<and>
        (\<forall>d k. re_ScaleUpdate env d k = None))"

text \<open>The replicas the deployment has after the effects of a reconcile.\<close>

fun replicas_after :: "int \<Rightarrow> effect list \<Rightarrow> int" where
  "replicas_after n [] = n"
| "replicas_after n (EffScale _ k None # effs) = replicas_after (sint k) effs"
| "replicas_after n (_ # effs) = replicas_after n effs"

inductive rounds :: "go_platform \<Rightarrow> config \<Rightarrow> namespaced_name \<Rightarrow> int \<Rightarrow> int \<Rightarrow> time \<Rightarrow> controller \<Rightarrow> int \<Rightarrow> nat \<Rightarrow> int \<Rightarrow> bool"
  for pf cfg key goal step where
  stop: "rounds pf cfg key goal step t c n 0 n"
| round: "steady_round cfg key goal step t c n env \<Longrightarrow>
    ct_trace (snd (Reconcile pf cfg env key c)) = ct_trace c @ effs \<Longrightarrow>
    rounds pf cfg key goal step (re_now env) (snd (Reconcile pf cfg env key c)) (replicas_after n effs) k n' \<Longrightarrow>
    rounds pf cfg key goal step t c n (Suc k) n'"

text \<open>The state of the resource exists, and its last scalings are not after \<open>t\<close>.\<close>

definition scaled_by :: "controller \<Rightarrow> namespaced_name \<Rightarrow> time \<Rightarrow> bool" where
  "scaled_by c key t \<longleftrightarrow>
     (\<exists>st. ct_StateStore c key = Some st \<and> ps_Initialized st \<and> ps_LastScaleUpTime st \<le> t \<and> ps_LastScaleDownTime st \<le> t)"

lemma replicas_after_filter: "replicas_after n effs = replicas_after n (filter is_scale effs)"
  by (induction n effs rule: replicas_after.induct) simp_all

lemma decide_closer:
  "\<bar>goal - n\<bar> \<le> m + step \<Longrightarrow> 0 \<le> m \<Longrightarrow> 1 \<le> step \<Longrightarrow> step \<le> mx \<Longrightarrow> (n < goal \<longrightarrow> up) \<Longrightarrow> (goal < n \<longrightarrow> down) \<Longrightarrow>
   \<bar>goal - decide_spec goal n mx up down\<bar> \<le> m"
  by (auto simp: decide_spec_def min_def max_def)

lemma round_closer:
  assumes "steady_round cfg key goal step t c n env" and "scaled_by c key t" and "1 \<le> step"
    and "ct_trace (snd (Reconcile pf cfg env key c)) = ct_trace c @ effs" and "\<bar>goal - n\<bar> \<le> m + step" and "0 \<le> m"
  shows "\<bar>goal - replicas_after n effs\<bar> \<le> m" and "scaled_by (snd (Reconcile pf cfg env key c)) key (re_now env)"
proof -
  obtain a ob st where h: "healthy cfg env key a ob" and cal: "calibrate cfg env ob (start_state ob (ct_StateStore c)) = Some st"
    and s: "scale_sane cfg a (ob_currentReplicas ob)" "sint (ob_currentReplicas ob) = n" and d: "demands a ob st goal"
    and mx: "step \<le> sint (ep_MaxStep (ob_effective ob))" and t: "t \<le> re_now env"
    and up: "n < goal \<longrightarrow> t + sint (ep_CooldownUp (ob_effective ob)) * ns_Second \<le> re_now env"
    and down: "goal < n \<longrightarrow> t + sint (ep_CooldownDown (ob_effective ob)) * ns_Second \<le> re_now env"
    and ok: "\<forall>d k. re_ScaleUpdate env d k = None"
    using assms(1) unfolding steady_round_def by blast
  have a: "ob_aas ob = a" "ob_key ob = key" and obs: "observation cfg env key a ob"
    using h by (simp_all add: healthy_def observation_def)
  let ?i = "cap_input_of pf env ob st" let ?d = "reconcile_decide pf cfg env ob st"
  obtain st0 where st0: "ct_StateStore c key = Some st0" "ps_Initialized st0" "ps_LastScaleUpTime st0 \<le> t" "ps_LastScaleDownTime st0 \<le> t"
    using assms(2) by (auto simp: scaled_by_def)
  have start: "start_state ob (ct_StateStore c) = st0" using st0(1,2) a(2) by (simp add: start_state_def)
  note keep = calibrate_keeps [OF cal, unfolded start]
  have r: "n < goal \<longrightarrow> up_ready ?i" "goal < n \<longrightarrow> down_ready ?i"
    using up down st0(3,4) keep(1,2) by (auto simp: up_ready_def down_ready_def)
  have g: "sint (ci_Recommended ?i) = goal"
    using d recommended_spec [of ob _ st _ pf env] s(1) a(1) unfolding demands_def scale_sane_def by auto
  have target: "sint (co_Target (ApplyCapAndCooldown ?i)) = decide_spec goal n (sint (ep_MaxStep (ob_effective ob))) (up_ready ?i) (down_ready ?i)"
    using ApplyCap_target [OF scale_sane_no_overflow [OF s(1) obs]] g s(2) by simp
  have "replicas_after n effs = replicas_after n (filter is_scale (apply_effects pf env ?d))"
    unfolding replicas_after_filter [of n effs] healthy_effects [OF h cal assms(4)] ..
  also have "\<dots> = sint (co_Target (ApplyCapAndCooldown ?i))"
    using ApplyCap_patch [of ?i] s(2) ok by (simp add: filter_scale_apply scale_effect_def de_cap_eq)
  finally show "\<bar>goal - replicas_after n effs\<bar> \<le> m"
    unfolding target using decide_closer [OF assms(5,6,3) mx r] by simp
  show "scaled_by (snd (Reconcile pf cfg env key c)) key (re_now env)"
    using healthy_run(2) [OF h cal, of pf] keep st0 t by (auto simp: scaled_by_def applied_state_def)
qed

text \<open>C4. The hot path reaches the demand and stays there. Take any sequence of reconciles of one resource
  in which every call answers, each finding the replicas the one before left, at least the cooldown of the
  direction apart, with a forecast and a calibrated capacity that ask for \<open>goal\<close> replicas: after \<open>k\<close> of
  them the deployment has \<open>goal\<close> replicas, if \<open>k\<close> steps of the smallest effective size cover the distance.\<close>

theorem reconciles_converge:
  assumes "rounds pf cfg key goal step t c n k n'" and "scaled_by c key t" and "1 \<le> step" and "\<bar>goal - n\<bar> \<le> int k * step"
  shows "n' = goal"
  using assms
proof (induction rule: rounds.induct)
  case (round t c n env effs k n')
  have "\<bar>goal - n\<bar> \<le> int k * step + step" using round.prems(3) by (simp add: algebra_simps)
  then have "\<bar>goal - replicas_after n effs\<bar> \<le> int k * step" "scaled_by (snd (Reconcile pf cfg env key c)) key (re_now env)"
    using round_closer [OF round.hyps(1) round.prems(1,2) round.hyps(2)] round.prems(2) by simp_all
  then show ?case using round.IH round.prems(2) by blast
qed simp

theorem reconciles_converge_witness:
  "\<exists>n'. rounds amd64 default_config demo_key 10 4 (1700000000 * ns_Second) demo_controller2 7 1 n' \<and> n' = 10"
proof -
  obtain effs where e: "ct_trace (snd (Reconcile amd64 default_config demo_renv2 demo_key demo_controller2)) = ct_trace demo_controller2 @ effs"
    using demo_patches2 [OF demo_store2] by blast
  have d: "demands demo_cr demo_ob2 demo_state2 10"
  proof -
    have c: "capacity_lo demo_cr = 50" "capacity_hi demo_cr = 500" "min_replicas demo_cr = 2" "max_replicas demo_cr = 10"
      by (simp_all add: demo_cr_def demo_spec_def derefOr_def)
    have "rnd_rat 26 = 26" using f64.rd_numeral [of "num.Bit0 (num.Bit1 (num.Bit0 (num.Bit1 num.One)))"] by simp
    then show ?thesis unfolding demands_def c
      by (simp add: demo_ob2_def demo_ob_def demo_state2_def demo_state_def capacity_spec_def)
  qed
  have s: "scale_sane default_config demo_cr 7" using demo_sane(1) by (simp add: scale_sane_def)
  have "steady_round default_config demo_key 10 4 (1700000000 * ns_Second) demo_controller2 7 demo_renv2"
    unfolding steady_round_def demo_store2
    using demo_healthy2 demo_calibrate2 d s demo_effective
    by (intro exI [of _ demo_cr] exI [of _ demo_ob2] exI [of _ demo_state2])
      (simp add: demo_ob2_def demo_ob_def demo_renv2_def demo_renv_def)
  then obtain n' where r: "rounds amd64 default_config demo_key 10 4 (1700000000 * ns_Second) demo_controller2 7 1 n'"
    using rounds.round [OF _ e rounds.stop] by fastforce
  moreover have "scaled_by demo_controller2 demo_key (1700000000 * ns_Second)"
    by (simp add: scaled_by_def demo_store2 demo_state2_def demo_state_def zero_time_def)
  ultimately have "n' = 10" by (rule reconciles_converge) simp_all
  with r show ?thesis by blast
qed

end
