(* ===== verification/Registration.thy ===== *)
theory Registration
  imports Wiring
begin

text \<open>
  What happens before \<^verbatim>\<open>main\<close> and how the parts are handed to the libraries: the package
  initialisers of \<^verbatim>\<open>api/v1alpha1\<close>, \<^verbatim>\<open>internal/controller\<close> and \<^verbatim>\<open>cmd/controller\<close>, which register the API
  types with the scheme and the metrics with the registry, and the two builder chains
  \<^verbatim>\<open>SetupWithManager\<close> and \<^verbatim>\<open>SetupAgenticAutoscalerWebhookWithManager\<close>.

  The scheme and the registry belong to libraries and are parameters; \<open>scheme_laws\<close> and
  \<open>registry_laws\<close> say what their documentation promises of them.

  Lemmas: initialisation succeeds when the registry has none of the metrics yet, and panics when it
  runs twice on one registry; afterwards the scheme knows the kinds of the operator's own API and
  every kind client-go put there, and every metric is registered under its own name.
\<close>

section \<open>The scheme\<close>

record group_version =
  gv_Group :: string
  gv_Version :: string

type_synonym gvk = "group_version \<times> string"

definition GroupVersion :: group_version where
  "GroupVersion = \<lparr>gv_Group = ''autoscaling.agentic.io'', gv_Version = ''v1alpha1''\<rparr>"

text \<open>The library: a builder collects Go types, named by their kinds, and adds them to a scheme under its
  group and version; \<^verbatim>\<open>clientgoscheme.AddToScheme\<close> adds the built-in kinds.\<close>

record ('s, 'b) scheme_lib =
  sl_NewScheme :: 's
  sl_Builder :: "group_version \<Rightarrow> 'b"
  sl_Register :: "'b \<Rightarrow> string list \<Rightarrow> 'b"
  sl_AddToScheme :: "'b \<Rightarrow> 's \<Rightarrow> string + 's"
  sl_clientgo :: "'s \<Rightarrow> string + 's"
  sl_Recognizes :: "'s \<Rightarrow> gvk \<Rightarrow> bool"

definition SchemeBuilder :: "('s, 'b) scheme_lib \<Rightarrow> 'b" where
  "SchemeBuilder sl = sl_Builder sl GroupVersion"

text \<open>\<^verbatim>\<open>init\<close> of the API package, which changes the package variable \<^verbatim>\<open>SchemeBuilder\<close> in place;
  \<^verbatim>\<open>AddToScheme\<close> is a method value of that builder, so it sees the registered types.\<close>

definition api_init :: "('s, 'b) scheme_lib \<Rightarrow> 'b" where
  "api_init sl = sl_Register sl (SchemeBuilder sl) [''AgenticAutoscaler'', ''AgenticAutoscalerList'']"

definition AddToScheme :: "('s, 'b) scheme_lib \<Rightarrow> 's \<Rightarrow> string + 's" where
  "AddToScheme sl = sl_AddToScheme sl (api_init sl)"

text \<open>\<^verbatim>\<open>init\<close> of \<^verbatim>\<open>cmd/controller\<close>; \<^verbatim>\<open>utilruntime.Must\<close> panics on an error.\<close>

definition main_init :: "('s, 'b) scheme_lib \<Rightarrow> string + 's" where
  "main_init sl =
     (case sl_clientgo sl (sl_NewScheme sl) of
        Inl e \<Rightarrow> Inl e
      | Inr scheme \<Rightarrow> AddToScheme sl scheme)"

text \<open>Adding to a scheme forgets nothing; a builder adds what was registered with it, and does not fail on
  kinds that are distinct and new to the scheme; client-go fills a new scheme, with kinds of other
  groups.\<close>

definition scheme_laws :: "('s, 'b) scheme_lib \<Rightarrow> bool" where
  "scheme_laws sl \<longleftrightarrow>
     (\<forall>gv ks s. distinct ks \<and> (\<forall>k \<in> set ks. \<not> sl_Recognizes sl s (gv, k)) \<longrightarrow>
        (\<exists>s'. sl_AddToScheme sl (sl_Register sl (sl_Builder sl gv) ks) s = Inr s' \<and>
           (\<forall>k. sl_Recognizes sl s k \<or> k \<in> Pair gv ` set ks \<longrightarrow> sl_Recognizes sl s' k))) \<and>
     (\<exists>s. sl_clientgo sl (sl_NewScheme sl) = Inr s \<and> (\<forall>k. \<not> sl_Recognizes sl s (GroupVersion, k)))"

section \<open>The metrics registry\<close>

datatype vec_kind = GaugeVec | CounterVec

record collector =
  co_kind :: vec_kind
  co_Name :: string
  co_labels :: "string list"

definition crLabels :: "string list" where
  "crLabels = [''namespace'', ''name'']"

definition collectors :: "collector list" where
  "collectors =
     [\<lparr>co_kind = GaugeVec, co_Name = ''agenticautoscaler_predicted_rps'', co_labels = crLabels\<rparr>,
      \<lparr>co_kind = GaugeVec, co_Name = ''agenticautoscaler_current_rps'', co_labels = crLabels\<rparr>,
      \<lparr>co_kind = GaugeVec, co_Name = ''agenticautoscaler_rps_per_pod'', co_labels = crLabels\<rparr>,
      \<lparr>co_kind = CounterVec, co_Name = ''agenticautoscaler_events_total'', co_labels = crLabels @ [''reason'']\<rparr>,
      \<lparr>co_kind = GaugeVec, co_Name = ''agenticautoscaler_classified_pattern'', co_labels = crLabels\<rparr>,
      \<lparr>co_kind = GaugeVec, co_Name = ''agenticautoscaler_classified_confidence'', co_labels = crLabels\<rparr>,
      \<lparr>co_kind = CounterVec, co_Name = ''agenticautoscaler_forecast_failures_total'', co_labels = crLabels\<rparr>,
      \<lparr>co_kind = CounterVec, co_Name = ''agenticautoscaler_metrics_unavailable_total'', co_labels = crLabels\<rparr>]"

record 'r registry_lib =
  rg_Register :: "'r \<Rightarrow> collector \<Rightarrow> string + 'r"
  rg_names :: "'r \<Rightarrow> string set" \<comment> \<open>the names of all metrics, of other packages too\<close>
  rg_has :: "'r \<Rightarrow> collector \<Rightarrow> bool"

text \<open>\<^verbatim>\<open>MustRegister\<close> registers in order and panics at the first error.\<close>

fun MustRegister :: "'r registry_lib \<Rightarrow> collector list \<Rightarrow> 'r \<Rightarrow> string + 'r" where
  "MustRegister rg [] r = Inr r"
| "MustRegister rg (c # cs) r =
     (case rg_Register rg r c of Inl e \<Rightarrow> Inl e | Inr r' \<Rightarrow> MustRegister rg cs r')"

definition metrics_init :: "'r registry_lib \<Rightarrow> 'r \<Rightarrow> string + 'r" where
  "metrics_init rg = MustRegister rg collectors"

text \<open>Names of lower-case letters and underscores are valid for metrics and labels.\<close>

definition name_char :: "char \<Rightarrow> bool" where
  "name_char c \<longleftrightarrow> c \<in> set ''abcdefghijklmnopqrstuvwxyz_''"

definition valid_collector :: "collector \<Rightarrow> bool" where
  "valid_collector c \<longleftrightarrow> list_all (\<lambda>n. n \<noteq> '''' \<and> list_all name_char n) (co_Name c # co_labels c) \<and> distinct (co_labels c)"

text \<open>A registry takes a valid collector whose name is new, keeps what it has, and refuses a collector it has.\<close>

definition registry_laws :: "'r registry_lib \<Rightarrow> bool" where
  "registry_laws rg \<longleftrightarrow>
     (\<forall>r c. valid_collector c \<and> co_Name c \<notin> rg_names rg r \<longrightarrow>
        (\<exists>r'. rg_Register rg r c = Inr r' \<and> rg_names rg r' = insert (co_Name c) (rg_names rg r) \<and> rg_has rg r' c)) \<and>
     (\<forall>r c r' d. rg_Register rg r c = Inr r' \<and> rg_has rg r d \<longrightarrow> rg_has rg r' d) \<and>
     (\<forall>r c. rg_has rg r c \<longrightarrow> (\<exists>e. rg_Register rg r c = Inl e))"

section \<open>Handing the parts to controller-runtime\<close>

record webhook_validator =
  wv_ValidateCreate :: "runtime_object \<Rightarrow> string list \<times> string option"
  wv_ValidateUpdate :: "runtime_object \<Rightarrow> runtime_object \<Rightarrow> string list \<times> string option"
  wv_ValidateDelete :: "runtime_object \<Rightarrow> string list \<times> string option"

definition AgenticAutoscalerCustomValidator :: webhook_validator where
  "AgenticAutoscalerCustomValidator =
     \<lparr>wv_ValidateCreate = ValidateCreate, wv_ValidateUpdate = ValidateUpdate, wv_ValidateDelete = ValidateDelete\<rparr>"

record webhook_builder =
  wb_For :: string
  wb_Validator :: webhook_validator

definition SetupAgenticAutoscalerWebhookWithManager :: "(webhook_builder \<Rightarrow> string option) \<Rightarrow> string option" where
  "SetupAgenticAutoscalerWebhookWithManager completed =
     completed \<lparr>wb_For = ''AgenticAutoscaler'', wb_Validator = AgenticAutoscalerCustomValidator\<rparr>"

record controller_builder =
  cb_For :: string
  cb_Named :: string
  cb_Config :: config
  cb_Reconciler :: controller

definition SetupWithManager :: "(controller_builder \<Rightarrow> string option) \<Rightarrow> config \<Rightarrow> controller \<Rightarrow> string option" where
  "SetupWithManager completed cfg c =
     completed \<lparr>cb_For = ''AgenticAutoscaler'', cb_Named = ''agenticautoscaler'', cb_Config = cfg, cb_Reconciler = c\<rparr>"

section \<open>Initialisation succeeds, once\<close>

definition package_init :: "('s, 'b) scheme_lib \<Rightarrow> 'r registry_lib \<Rightarrow> 'r \<Rightarrow> string + 's \<times> 'r" where
  "package_init sl rg registry =
     (case metrics_init rg registry of
        Inl e \<Rightarrow> Inl e
      | Inr registry' \<Rightarrow> map_sum id (\<lambda>scheme. (scheme, registry')) (main_init sl))"

lemma MustRegister_keeps:
  "registry_laws rg \<Longrightarrow> MustRegister rg cs r = Inr r' \<Longrightarrow> rg_has rg r d \<Longrightarrow> rg_has rg r' d"
proof (induction cs arbitrary: r)
  case (Cons c cs)
  then obtain r1 where "rg_Register rg r c = Inr r1" "MustRegister rg cs r1 = Inr r'" by (auto split: sum.splits)
  moreover from this have "rg_has rg r1 d" using Cons.prems unfolding registry_laws_def by blast
  ultimately show ?case using Cons by blast
qed simp

lemma MustRegister_ok:
  assumes "registry_laws rg" and "list_all valid_collector cs" and "distinct (map co_Name cs)" and "co_Name ` set cs \<inter> rg_names rg r = {}"
  shows "\<exists>r'. MustRegister rg cs r = Inr r' \<and> rg_names rg r' = co_Name ` set cs \<union> rg_names rg r \<and> (\<forall>c \<in> set cs. rg_has rg r' c)"
  using assms(2,3,4)
proof (induction cs arbitrary: r)
  case (Cons c cs)
  then have "valid_collector c \<and> co_Name c \<notin> rg_names rg r" by auto
  then obtain r1 where r1: "rg_Register rg r c = Inr r1" "rg_names rg r1 = insert (co_Name c) (rg_names rg r)" "rg_has rg r1 c"
    using assms(1) unfolding registry_laws_def by blast
  from Cons.prems have "\<exists>r'. MustRegister rg cs r1 = Inr r' \<and> rg_names rg r' = co_Name ` set cs \<union> rg_names rg r1 \<and> (\<forall>c \<in> set cs. rg_has rg r' c)"
    by (intro Cons.IH) (auto simp: r1)
  then show ?case using r1 MustRegister_keeps [OF assms(1) _ r1(3), of cs] by auto
qed simp

lemma collectors_ok: "list_all valid_collector collectors" "distinct (map co_Name collectors)"
  by code_simp+

text \<open>What client-go registered, and the two kinds of the operator's API.\<close>

definition scheme_complete :: "('s, 'b) scheme_lib \<Rightarrow> 's \<Rightarrow> bool" where
  "scheme_complete sl scheme \<longleftrightarrow>
     (\<exists>builtin. sl_clientgo sl (sl_NewScheme sl) = Inr builtin \<and> (\<forall>k. sl_Recognizes sl builtin k \<longrightarrow> sl_Recognizes sl scheme k)) \<and>
     sl_Recognizes sl scheme (GroupVersion, ''AgenticAutoscaler'') \<and>
     sl_Recognizes sl scheme (GroupVersion, ''AgenticAutoscalerList'')"

lemma main_init_ok:
  assumes "scheme_laws sl"
  shows "\<exists>scheme. main_init sl = Inr scheme \<and> scheme_complete sl scheme"
proof -
  obtain s where s: "sl_clientgo sl (sl_NewScheme sl) = Inr s" "\<forall>k. \<not> sl_Recognizes sl s (GroupVersion, k)"
    using assms unfolding scheme_laws_def by blast
  have "distinct [''AgenticAutoscaler'', ''AgenticAutoscalerList''] \<and>
      (\<forall>k \<in> set [''AgenticAutoscaler'', ''AgenticAutoscalerList'']. \<not> sl_Recognizes sl s (GroupVersion, k))"
    using s(2) by simp
  then obtain s' where "AddToScheme sl s = Inr s'"
      "\<forall>k. sl_Recognizes sl s k \<or> k \<in> Pair GroupVersion ` set [''AgenticAutoscaler'', ''AgenticAutoscalerList''] \<longrightarrow> sl_Recognizes sl s' k"
    using assms unfolding scheme_laws_def AddToScheme_def api_init_def SchemeBuilder_def by blast
  with s(1) show ?thesis by (auto simp: main_init_def scheme_complete_def)
qed

text \<open>On a registry that has none of the operator's metrics, initialisation succeeds, registers them all and
  leaves a complete scheme; on the registry it leaves, it would panic.\<close>

lemma package_init_once:
  assumes "scheme_laws sl" and "registry_laws rg" and "co_Name ` set collectors \<inter> rg_names rg registry = {}"
  shows "\<exists>scheme registry'. package_init sl rg registry = Inr (scheme, registry') \<and>
     scheme_complete sl scheme \<and>
     rg_names rg registry' = co_Name ` set collectors \<union> rg_names rg registry \<and>
     (\<exists>e. package_init sl rg registry' = Inl e)"
proof -
  obtain r' where r': "metrics_init rg registry = Inr r'" "rg_names rg r' = co_Name ` set collectors \<union> rg_names rg registry"
      "\<forall>c \<in> set collectors. rg_has rg r' c"
    using MustRegister_ok [OF assms(2) collectors_ok assms(3)] unfolding metrics_init_def by blast
  obtain c cs where cs: "collectors = c # cs" by (simp add: collectors_def)
  have "rg_has rg r' c" using r'(3) unfolding cs by (meson list.set_intros(1))
  then obtain e where "rg_Register rg r' c = Inl e" using assms(2) unfolding registry_laws_def by blast
  then have "metrics_init rg r' = Inl e" by (simp add: metrics_init_def cs)
  with r' main_init_ok [OF assms(1)] show ?thesis by (auto simp: package_init_def)
qed

end
