(* ===== verification/FloatPrint.thy ===== *)
theory FloatPrint
  imports ParseFloat
begin

text \<open>
  \<^verbatim>\<open>fmt\<close>'s \<^verbatim>\<open>%g\<close>: the shortest decimal that reads back as the same \<^verbatim>\<open>float64\<close>, laid out as \<^verbatim>\<open>strconv\<close> does.

  Lemmas: 17 digits identify a \<^verbatim>\<open>float64\<close>, so the search for the shortest decimal succeeds; the layouts are
  literals of the value they stand for; hence printing and parsing are inverse.
\<close>

section \<open>Shortest decimals\<close>

text \<open>The decimal exponent of a positive number; 400 steps cover the range of \<^verbatim>\<open>float64\<close>.\<close>

fun exp_up :: "nat \<Rightarrow> rat \<Rightarrow> int" where
  "exp_up 0 x = 0"
| "exp_up (Suc n) x = (if x < 10 then 0 else 1 + exp_up n (x / 10))"

fun exp_down :: "nat \<Rightarrow> rat \<Rightarrow> int" where
  "exp_down 0 x = 0"
| "exp_down (Suc n) x = (if 1 \<le> x then 0 else exp_down n (10 * x) - 1)"

definition dec_exp :: "rat \<Rightarrow> int" where
  "dec_exp x = (if 1 \<le> x then exp_up 400 x else exp_down 400 x)"

definition pow10 :: "int \<Rightarrow> rat" where
  "pow10 k = (if 0 \<le> k then 10 ^ nat k else 1 / 10 ^ nat (- k))"

text \<open>The nearer of the two neighbours with \<open>p\<close> digits that reads back as \<open>x\<close>.\<close>

definition at_digits :: "rat \<Rightarrow> int \<Rightarrow> int \<Rightarrow> int option" where
  "at_digits x e p =
     (let s = x * pow10 (p - 1 - e); lo = \<lfloor>s\<rfloor>; hi = \<lceil>s\<rceil>;
          good = (\<lambda>d. rnd (of_int d * pow10 (e - p + 1)) = Fin x);
          near = (if s - of_int lo \<le> of_int hi - s then lo else hi);
          far = (if near = lo then hi else lo)
      in if good near then Some near else if good far then Some far else None)"

fun shortest :: "nat \<Rightarrow> rat \<Rightarrow> int \<Rightarrow> int \<Rightarrow> int \<times> int" where
  "shortest 0 x e p = (\<lfloor>x * pow10 (p - 1 - e)\<rfloor>, e - p + 1)"
| "shortest (Suc n) x e p =
     (case at_digits x e p of Some d \<Rightarrow> (d, e - p + 1) | None \<Rightarrow> shortest n x e (p + 1))"

fun strip_zeros :: "nat \<Rightarrow> int \<times> int \<Rightarrow> int \<times> int" where
  "strip_zeros 0 de = de"
| "strip_zeros (Suc n) (d, k) = (if d mod 10 = 0 \<and> d \<noteq> 0 then strip_zeros n (d div 10, k + 1) else (d, k))"

text \<open>Digits and the position of the decimal point behind them, as \<^verbatim>\<open>strconv\<close> lays them out.\<close>

definition layout_g :: "string \<Rightarrow> int \<Rightarrow> string" where
  "layout_g ds dp =
     (let e = dp - 1; nd = int (length ds) in
      if e < - 4 \<or> 6 \<le> e then
        take 1 ds @ (if nd = 1 then '''' else ''.'' @ drop 1 ds) @ ''e'' @ (if e < 0 then ''-'' else ''+'')
        @ (if \<bar>e\<bar> < 10 then ''0'' else '''') @ itoa \<bar>e\<bar>
      else
        (if 0 < dp then take (nat dp) ds @ replicate (nat (dp - nd)) (CHR ''0'') else ''0'')
        @ (if nd \<le> dp then '''' else ''.'' @ replicate (nat (- dp)) (CHR ''0'') @ drop (nat dp) ds))"

fun fmt_g :: "float64 \<Rightarrow> string" where
  "fmt_g NaN = ''NaN''"
| "fmt_g PInf = ''+Inf''"
| "fmt_g NInf = ''-Inf''"
| "fmt_g (Fin x) =
     (if x = 0 then ''0''
      else let (d, k) = strip_zeros 20 (shortest 17 \<bar>x\<bar> (dec_exp \<bar>x\<bar>) 1); ds = itoa d
           in (if x < 0 then ''-'' else '''') @ layout_g ds (int (length ds) + k))"

section \<open>Rounding to the nearest\<close>

lemma round_even_near: "\<bar>q - of_int n\<bar> < 1 / 2 \<Longrightarrow> round_even q = n"
proof -
  assume a: "\<bar>q - of_int n\<bar> < 1 / 2"
  consider "of_int n \<le> q" | "q < of_int n" by linarith
  then show ?thesis
  proof cases
    case 1
    then have "\<lfloor>q\<rfloor> = n" using a by (simp add: floor_eq_iff)
    then show ?thesis using a 1 by (simp add: round_even_def Let_def)
  next
    case 2
    then have "\<lfloor>q\<rfloor> = n - 1" using a by (simp add: floor_eq_iff)
    then show ?thesis using a 2 by (simp add: round_even_def Let_def)
  qed
qed

lemma rnd_rat_near:
  assumes "y \<noteq> 0" and "x = of_int n * ulp y" and "\<bar>y - x\<bar> < ulp y / 2"
  shows "rnd_rat y = x"
proof -
  have "y / ulp y - of_int n = (y - x) / ulp y" using assms(2) by (simp add: diff_divide_distrib)
  then have "\<bar>y / ulp y - of_int n\<bar> = \<bar>y - x\<bar> / ulp y" by (simp add: abs_divide abs_of_pos)
  also have "\<dots> < 1 / 2" using assms(3) by (simp add: field_simps)
  finally show ?thesis using assms(1,2) by (simp add: rnd_rat_nonzero round_even_near)
qed

lemma pow2_of_sum: "a = int k + b \<Longrightarrow> pow2 a = 2 ^ k * pow2 b"
  by (simp add: pow2_add)

text \<open>A number within a relative distance of half a unit in the seventeenth digit of a \<^verbatim>\<open>float64\<close> rounds to it.\<close>

text \<open>The first number of a binade is also nearest to what lies just below it, on the finer grid there.\<close>

lemma rnd_rat_below_binade:
  assumes "- 1022 < E" and x: "x = 4503599627370496 * pow2 (E - 52)" and y: "0 < y" and "ilog2 y < E"
    and "\<bar>y - x\<bar> \<le> x / 20000000000000000"
  shows "rnd_rat y = x"
proof -
  let ?u = "pow2 (E - 52)"
  have "x / 20000000000000000 < ?u / 4" using x pow2_pos [of "E - 52"] by linarith
  then have d: "\<bar>y - x\<bar> < ?u / 4" using assms(5) by linarith
  have "pow2 (E - 1) = 2251799813685248 * ?u" using pow2_of_sum [of "E - 1" 51 "E - 52"] by simp
  then have "pow2 (E - 1) \<le> y" using d x pow2_pos [of "E - 52"] abs_ge_minus_self [of "y - x"] by linarith
  then have "ilog2 y = E - 1" using ilog2_le_iff [OF y, of "E - 1"] assms(4) by simp
  then have m: "max (ilog2 y) (- 1022) - 52 = E - 53" using assms(1) by simp
  have "ulp y = pow2 (max (ilog2 y) (- 1022) - 52)" using y by (simp add: ulp_def)
  then have "ulp y = ?u / 2" unfolding m using pow2_of_sum [of "E - 52" 1 "E - 53"] by simp
  then show ?thesis using rnd_rat_near [of y x 9007199254740992] y x d by simp
qed

lemma int_mult_le: "n \<le> k \<Longrightarrow> 0 < (u :: rat) \<Longrightarrow> of_int n * u \<le> of_int k * u"
  by (intro mult_right_mono) simp_all

lemma rnd_rat_close:
  assumes "0 < x" and "representable x" and "\<bar>y - x\<bar> \<le> x / 20000000000000000"
  shows "rnd_rat y = x"
proof -
  define E where "E = max (ilog2 x) (- 1022)"
  define u where "u = ulp x"
  have u: "u = pow2 (E - 52)" "0 < u" using assms(1) by (simp_all add: u_def ulp_def E_def)
  have E: "pow2 (E + 1) = 9007199254740992 * u" "pow2 E = 4503599627370496 * u"
    using pow2_of_sum [of "E + 1" 53 "E - 52"] pow2_of_sum [of E 52 "E - 52"] u(1) by simp_all
  obtain n where n: "x = of_int n * u" using assms(2) u_def by (metis representable_def)
  have y: "0 < y" using assms(1,3) abs_ge_minus_self [of "y - x"] by linarith
  have "x < pow2 (ilog2 x + 1)" by (rule ilog2_bounds(2) [OF assms(1)])
  also have "\<dots> \<le> pow2 (E + 1)" by (simp add: E_def)
  finally have x: "x < 9007199254740992 * u" using E(1) by simp
  have d: "\<bar>y - x\<bar> < u / 2" using assms(3) x u(2) by (simp add: abs_le_iff field_simps)
  have "of_int n * u < of_int 9007199254740992 * u" using x n by simp
  then have "n \<le> 9007199254740991" using u(2) by (simp only: mult_less_cancel_right_pos of_int_less_iff)
  then have "x \<le> 9007199254740991 * u" unfolding n using int_mult_le [OF _ u(2)] by fastforce
  then have "y < pow2 (E + 1)" unfolding E(1) using d abs_ge_self [of "y - x"] u(2) by linarith
  then have F: "ilog2 y \<le> E" using ilog2_le_iff [OF y, of "E + 1"] by simp
  have uy: "ulp y = pow2 (max (ilog2 y) (- 1022) - 52)" using y by (simp add: ulp_def)
  show ?thesis
  proof (cases "max (ilog2 y) (- 1022) = E")
    case True
    then have "ulp y = u" using uy u(1) by simp
    then show ?thesis using rnd_rat_near [of y x n] y n d by simp
  next
    case False
    then have e: "ilog2 y < E" "- 1022 < E" "E = ilog2 x" using F by (auto simp: E_def)
    have yE: "y < 4503599627370496 * u" using ilog2_le_iff [OF y, of E] e(1) E(2) by simp
    have xE: "4503599627370496 * u \<le> x" using ilog2_bounds(1) [OF assms(1)] e(3) E(2) by simp
    have "\<not> 4503599627370497 \<le> n"
    proof
      assume "4503599627370497 \<le> n"
      then have "4503599627370497 * u \<le> x" unfolding n using int_mult_le [OF _ u(2)] by fastforce
      then show False using yE d abs_ge_minus_self [of "y - x"] u(2) by linarith
    qed
    then have "x \<le> 4503599627370496 * u" unfolding n using int_mult_le [of n 4503599627370496, OF _ u(2)] by simp
    then show ?thesis using rnd_rat_below_binade [OF e(2) _ y e(1) assms(3)] xE u(1) by simp
  qed
qed

section \<open>Seventeen digits are enough\<close>

lemma pow10_pos [simp]: "0 < pow10 k"
  by (simp add: pow10_def)

lemma pow10_powi: "pow10 k = 10 powi k"
  by (simp add: pow10_def power_int_def inverse_eq_divide power_divide)

lemma pow10_add: "pow10 (a + b) = pow10 a * pow10 b"
  by (simp add: pow10_powi power_int_add)

lemma pow10_simps [simp]: "pow10 0 = 1" "pow10 1 = 10" "pow10 2 = 100"
  by (simp_all add: pow10_def)

lemma pow10_inverse: "pow10 (- k) = 1 / pow10 k"
  by (simp add: pow10_powi power_int_minus inverse_eq_divide)

lemma exp_up_bounds: "1 \<le> x \<Longrightarrow> x < 10 ^ n \<Longrightarrow> pow10 (exp_up n x) \<le> x \<and> x < pow10 (exp_up n x + 1)"
proof (induction n arbitrary: x)
  case (Suc n)
  show ?case
  proof (cases "x < 10")
    case False
    then have "pow10 (exp_up n (x / 10)) \<le> x / 10 \<and> x / 10 < pow10 (exp_up n (x / 10) + 1)"
      using Suc.prems by (intro Suc.IH) simp_all
    then show ?thesis using False by (simp add: pow10_add)
  qed (use Suc.prems in simp)
qed simp

lemma exp_down_bounds: "0 < x \<Longrightarrow> x < 10 \<Longrightarrow> 1 \<le> x * 10 ^ n \<Longrightarrow> pow10 (exp_down n x) \<le> x \<and> x < pow10 (exp_down n x + 1)"
proof (induction n arbitrary: x)
  case (Suc n)
  show ?case
  proof (cases "1 \<le> x")
    case False
    then have "pow10 (exp_down n (10 * x)) \<le> 10 * x \<and> 10 * x < pow10 (exp_down n (10 * x) + 1)"
      using Suc.prems by (intro Suc.IH) (simp_all add: mult_ac)
    moreover have "exp_down (Suc n) x = exp_down n (10 * x) - 1" using False by simp
    moreover have "pow10 (exp_down n (10 * x) - 1) = pow10 (exp_down n (10 * x)) / 10"
      using pow10_add [of "exp_down n (10 * x) - 1" 1] by simp
    ultimately show ?thesis by (simp only: pow10_add diff_add_cancel) simp
  qed (use Suc.prems in simp)
qed simp

text \<open>The positive finite values of \<^verbatim>\<open>float64\<close> lie within 400 decimal orders.\<close>

definition is_float64 :: "rat \<Rightarrow> bool" where
  "is_float64 x \<longleftrightarrow> representable x \<and> \<bar>x\<bar> < 2 ^ 1024"

lemma two_powers_le: "n \<le> 1088 \<Longrightarrow> (2 :: rat) ^ n \<le> 10 ^ 400"
proof -
  assume "n \<le> 1088"
  then have "(2 :: rat) ^ n \<le> 2 ^ (68 * 16)" by (intro power_increasing) simp_all
  also have "\<dots> = (2 ^ 68) ^ 16" by (rule power_mult)
  also have "\<dots> \<le> (10 ^ 25) ^ 16" by (rule power_mono) simp_all
  also have "\<dots> = 10 ^ (25 * 16)" by (rule power_mult [symmetric])
  also have "25 * 16 = (400 :: nat)" by simp
  finally show ?thesis .
qed

lemma dec_exp_bounds:
  assumes "0 < x" and "is_float64 x"
  shows "pow10 (dec_exp x) \<le> x" and "x < pow10 (dec_exp x + 1)"
proof -
  have "x < 2 ^ 1024" using assms(2) unfolding is_float64_def abs_less_iff by blast
  also have "\<dots> \<le> 10 ^ 400" by (rule two_powers_le) simp
  finally have hi: "x < 10 ^ 400" .
  have "ulp x \<le> x"
  proof -
    obtain n :: int where n: "x = of_int n * ulp x" using assms(2) unfolding is_float64_def representable_def by blast
    then have q: "x / ulp x = of_int n" by (simp add: nonzero_divide_eq_eq)
    have "0 < x / ulp x" using assms(1) by simp
    then have "1 \<le> n" unfolding q by simp
    then have "1 \<le> x / ulp x" unfolding q by simp
    then show ?thesis by (simp add: pos_le_divide_eq)
  qed
  moreover have "pow2 (- 1074) \<le> ulp x" by (simp add: ulp_def)
  ultimately have "pow2 (- 1074) \<le> x" by (rule order_trans [rotated])
  moreover have "pow2 (- 1074) = 1 / 2 ^ 1074" unfolding pow2_def by (simp only: minus_minus nat_numeral if_False) simp
  moreover have "(0 :: rat) < 2 ^ 1074" by (rule zero_less_power) simp
  ultimately have "1 \<le> x * 2 ^ 1074" by (simp only: pos_divide_le_eq)
  also have "\<dots> \<le> x * 10 ^ 400" using assms(1) by (intro mult_left_mono two_powers_le) simp_all
  finally have lo: "1 \<le> x * 10 ^ 400" .
  have "pow10 (dec_exp x) \<le> x \<and> x < pow10 (dec_exp x + 1)"
  proof (cases "1 \<le> x")
    case True
    then show ?thesis unfolding dec_exp_def if_P [OF True] by (rule exp_up_bounds [OF _ hi])
  next
    case False
    then show ?thesis unfolding dec_exp_def if_not_P [OF False] using assms(1) by (intro exp_down_bounds [OF _ _ lo]) simp_all
  qed
  then show "pow10 (dec_exp x) \<le> x" and "x < pow10 (dec_exp x + 1)" by blast+
qed

lemma is_float64_rnd: "rnd q = Fin x \<Longrightarrow> is_float64 x"
proof -
  assume "rnd q = Fin x"
  then have x: "x = rnd_rat q" "\<bar>x\<bar> < 2 ^ 1024" by (auto simp: rnd_threshold abs_less_iff split: if_splits)
  have "representable x"
  proof (cases "x = 0")
    case False
    have "rnd_rat x = x" using x(1) by simp
    then have "x / ulp x = of_int (round_even (x / ulp x))" using rnd_rat_nonzero [OF False] by (simp add: field_simps)
    then show ?thesis by (rule representableI)
  qed (simp add: representable_def)
  then show ?thesis using x(2) by (simp add: is_float64_def)
qed

lemma rnd_close:
  assumes "0 < x" and "is_float64 x" and "\<bar>y - x\<bar> \<le> x / 20000000000000000"
  shows "rnd y = Fin x"
proof -
  have "rnd_rat y = x" using assms rnd_rat_close by (simp add: is_float64_def)
  then show ?thesis using assms(2) by (auto simp: rnd_threshold is_float64_def abs_less_iff)
qed

lemma at_digits_good: "at_digits x e p = Some d \<Longrightarrow> rnd (of_int d * pow10 (e - p + 1)) = Fin x"
  by (simp add: at_digits_def Let_def split: if_splits)

lemma at_digits_some:
  "rnd (of_int n * pow10 (e - p + 1)) = Fin x \<Longrightarrow> n = \<lfloor>x * pow10 (p - 1 - e)\<rfloor> \<or> n = \<lceil>x * pow10 (p - 1 - e)\<rceil> \<Longrightarrow>
   at_digits x e p \<noteq> None"
  by (auto simp: at_digits_def Let_def)

lemma at_digits_17:
  assumes "0 < x" and "is_float64 x"
  shows "at_digits x (dec_exp x) 17 \<noteq> None"
proof -
  define e where "e = dec_exp x"
  define s where "s = x * pow10 (16 - e)"
  define near where "near = (if s - of_int \<lfloor>s\<rfloor> \<le> of_int \<lceil>s\<rceil> - s then \<lfloor>s\<rfloor> else \<lceil>s\<rceil>)"
  have "of_int \<lceil>s\<rceil> - of_int \<lfloor>s\<rfloor> \<le> (1 :: rat)" by (simp add: ceiling_altdef)
  then have n: "\<bar>of_int near - s\<bar> \<le> 1 / 2"
    using of_int_floor_le [of s] le_of_int_ceiling [of s] by (auto simp: near_def abs_le_iff)
  have i: "pow10 (16 - e) * pow10 (e - 16) = 1" by (simp flip: pow10_add)
  have "of_int near * pow10 (e - 16) - x = (of_int near - s) * pow10 (e - 16)"
    using i by (simp add: s_def algebra_simps)
  then have "\<bar>of_int near * pow10 (e - 16) - x\<bar> = \<bar>of_int near - s\<bar> * pow10 (e - 16)"
    by (simp add: abs_mult abs_of_pos)
  also have "\<dots> \<le> 1 / 2 * pow10 (e - 16)" using n by (intro mult_right_mono) (simp_all add: less_imp_le)
  also have "1 / 2 * pow10 (e - 16) \<le> x / 20000000000000000"
  proof -
    have "pow10 16 = 10000000000000000" by (simp add: pow10_def)
    then have "pow10 e = pow10 (e - 16) * 10000000000000000" using pow10_add [of "e - 16" 16] by simp
    then show ?thesis using dec_exp_bounds(1) [OF assms] by (simp add: e_def)
  qed
  finally have "rnd (of_int near * pow10 (e - 16)) = Fin x" by (rule rnd_close [OF assms])
  then show ?thesis using at_digits_some [of near e 17 x] by (simp add: near_def s_def e_def)
qed

lemma shortest_good:
  assumes "0 < x" and "is_float64 x" and "p + int n = 18" and "1 \<le> p" and "0 < n" and "shortest n x (dec_exp x) p = (d, k)"
  shows "rnd (of_int d * pow10 k) = Fin x \<and> (\<exists>q. 1 \<le> q \<and> q \<le> 17 \<and> k = dec_exp x - q + 1 \<and> at_digits x (dec_exp x) q = Some d)"
  using assms(3-6)
proof (induction n arbitrary: p)
  case (Suc n)
  show ?case
  proof (cases "at_digits x (dec_exp x) p")
    case None
    then have "p \<noteq> 17" using at_digits_17 [OF assms(1,2)] by auto
    then have "0 < n" using Suc.prems by auto
    then show ?thesis using Suc.IH [of "p + 1"] Suc.prems None by simp
  next
    case (Some d')
    then have "d = d'" "k = dec_exp x - p + 1" using Suc.prems by auto
    then show ?thesis using at_digits_good [OF Some] Suc.prems(1,2) Some by (intro conjI exI [of _ p]) auto
  qed
qed simp

lemma strip_zeros_value:
  "strip_zeros n (d, k) = (d', k') \<Longrightarrow> 0 < d \<Longrightarrow>
   0 < d' \<and> d' \<le> d \<and> k \<le> k' \<and> k' \<le> k + int n \<and> of_int d' * pow10 k' = of_int d * pow10 k"
proof (induction n arbitrary: d k)
  case (Suc n)
  show ?case
  proof (cases "d mod 10 = 0")
    case True
    then obtain q where q: "d = 10 * q" by (metis mod_0_imp_dvd dvd_def)
    then have "strip_zeros n (q, k + 1) = (d', k')" "0 < q" using Suc.prems by simp_all
    from Suc.IH [OF this] show ?thesis using q by (auto simp: pow10_add)
  qed (use Suc.prems in auto)
qed simp

section \<open>Reading a literal\<close>

definition digits_value :: "nat \<Rightarrow> string \<Rightarrow> nat" where
  "digits_value = foldl (\<lambda>m c. 10 * m + digit_val c)"

lemma digits_value_simps [simp]:
  "digits_value m [] = m" "digits_value m (c # cs) = digits_value (10 * m + digit_val c) cs"
  "digits_value m (xs @ ys) = digits_value (digits_value m xs) ys"
  by (simp_all add: digits_value_def)

lemma digits_value_zeros [simp]: "digits_value m (replicate n (CHR ''0'')) = m * 10 ^ n"
  by (induction n arbitrary: m) (simp_all add: digit_val_def)

lemma digits_value_nat_digits [simp]: "digits_value 0 (nat_digits n) = n"
proof (induction n rule: nat_digits.induct)
  case (1 n)
  then show ?case by (subst nat_digits.simps) (simp add: Let_def)
qed

lemma digits_value_ge: "m \<le> digits_value m ds"
proof (induction ds arbitrary: m)
  case (Cons c ds)
  show ?case using Cons.IH [of "10 * m + digit_val c"] by simp
qed simp

lemma length_nat_digits: "n < 10 ^ Suc k \<Longrightarrow> length (nat_digits n) \<le> Suc k"
proof (induction k arbitrary: n)
  case (Suc k)
  show ?case
  proof (cases "n < 10")
    case False
    have "n div 10 < 10 ^ Suc k" using Suc.prems by (simp add: less_mult_imp_div_less mult.commute)
    from Suc.IH [OF this] show ?thesis using False by (subst nat_digits.simps) simp
  qed (subst nat_digits.simps, simp)
qed (subst nat_digits.simps, simp)

lemma digit_lower [simp]: "is_digit c \<Longrightarrow> lower c = c"
  by (simp add: lower_def is_digit_def Let_def)

lemma digit_neq [simp]: "is_digit c \<Longrightarrow> c \<noteq> CHR ''.''" "is_digit c \<Longrightarrow> c \<noteq> CHR ''_''" "is_digit c \<Longrightarrow> c \<noteq> CHR ''e''"
  "is_digit c \<Longrightarrow> c \<noteq> CHR ''x''" "is_digit c \<Longrightarrow> c \<noteq> CHR ''n''" "is_digit c \<Longrightarrow> c \<noteq> CHR ''i''" "is_digit c \<Longrightarrow> c \<noteq> CHR ''+''" "is_digit c \<Longrightarrow> c \<noteq> CHR ''-''"
  by (auto simp: is_digit_def)

lemma digit_zero [simp]: "is_digit (CHR ''0'')" and not_digit [simp]: "\<not> is_digit (CHR ''e'')" "\<not> is_digit (CHR ''.'')"
  by (simp_all add: is_digit_def)

lemma scan_mant_digits:
  "list_all is_digit ds \<Longrightarrow> scan_mant False m fd dot seen (ds @ rest) =
     scan_mant False (digits_value m ds) (if dot then fd + length ds else fd) dot (seen \<or> ds \<noteq> []) rest"
  by (induction ds arbitrary: m fd seen) (simp_all add: hex_val_def)

lemma scan_exp_digits: "list_all is_digit ds \<Longrightarrow> digits_value m ds < 100000 \<Longrightarrow> scan_exp (int m) ds = (int (digits_value m ds), [])"
proof (induction ds arbitrary: m)
  case (Cons c ds)
  have "10 * m + digit_val c < 100000" using Cons.prems(2) digits_value_ge [of "10 * m + digit_val c" ds] by simp
  then have "m < 10000" by simp
  then show ?case using Cons by (simp flip: of_nat_mult of_nat_add) (metis of_nat_add of_nat_mult of_nat_numeral)
qed simp

text \<open>A decimal literal: digits, perhaps a point and more digits, perhaps an exponent.\<close>

definition mantissa :: "string \<Rightarrow> string \<Rightarrow> string" where
  "mantissa ip fp = ip @ (if fp = [] then [] else CHR ''.'' # fp)"

definition exponent :: "string \<Rightarrow> int \<Rightarrow> bool" where
  "exponent ex e \<longleftrightarrow> ex = [] \<and> e = 0 \<or> (\<exists>r. ex = CHR ''e'' # r \<and> read_exp r = Some (e, []) \<and> CHR ''_'' \<notin> set r)"

lemma scan_mantissa:
  assumes "list_all is_digit ip" and "ip \<noteq> []" and "list_all is_digit fp" and "exponent ex e"
  shows "scan_mant False 0 0 False False (mantissa ip fp @ ex) = (digits_value 0 (ip @ fp), length fp, True, ex)"
proof -
  have x: "scan_mant False m fd dot seen ex = (m, fd, seen, ex)" for m fd dot seen
    using assms(4) by (auto simp: exponent_def)
  show ?thesis
    using assms(2) scan_mant_digits [OF assms(3), of _ _ True] scan_mant_digits [OF assms(1), of _ _ False] x
    by (simp add: mantissa_def)
qed

lemma digits_plain: "list_all is_digit ds \<Longrightarrow> CHR ''_'' \<notin> set ds"
  by (induction ds) (auto simp: is_digit_def)

lemma lower_e [simp]: "lower (CHR ''e'') = CHR ''e''" and lower_dot [simp]: "lower (CHR ''.'') = CHR ''.''" and lower_minus [simp]: "lower (CHR ''-'') = CHR ''-''"
  by code_simp+

lemma literal_decimal:
  assumes "list_all is_digit ip" and "ip \<noteq> []" and "list_all is_digit fp" and "exponent ex e" and "mantissa ip fp @ ex = z # x # t"
  shows "lower x \<noteq> CHR ''x''"
proof (cases ip)
  case (Cons a as)
  show ?thesis
  proof (cases as)
    case Nil
    then show ?thesis using assms(5) Cons assms(4) by (auto simp: mantissa_def exponent_def split: if_splits)
  next
    case (Cons b bs)
    then show ?thesis using assms(1,5) \<open>ip = a # as\<close> by (auto simp: mantissa_def split: if_splits)
  qed
qed (use assms(2) in simp)

lemma read_literal:
  assumes "list_all is_digit ip" and "ip \<noteq> []" and "list_all is_digit fp" and "exponent ex e"
  shows "read_float ((if neg then ''-'' else []) @ mantissa ip fp @ ex) =
    Some ((if neg then - 1 else 1) * (of_nat (digits_value 0 (ip @ fp)) / 10 ^ length fp * pow10 e))"
proof -
  let ?t = "mantissa ip fp @ ex"
  obtain a as where a: "ip = a # as" "is_digit a" using assms(1,2) by (cases ip) auto
  have st: "strip_sign ((if neg then ''-'' else []) @ ?t) = (neg, ?t)"
    using a by (simp add: strip_sign_def mantissa_def)
  have h: "(case ?t of z # x # y # rest \<Rightarrow> (if z = CHR ''0'' \<and> lower x = CHR ''x'' then (True, y # rest) else (False, ?t)) | _ \<Rightarrow> (False, ?t)) = (False, ?t)"
    using literal_decimal [OF assms] by (auto split: list.splits)
  have us: "CHR ''_'' \<notin> set ((if neg then ''-'' else []) @ ?t)"
    using assms(4) digits_plain [OF assms(1)] digits_plain [OF assms(3)] by (auto simp: mantissa_def exponent_def)
  show ?thesis
    unfolding read_float_def Let_def st prod.case h scan_mantissa [OF assms]
    using assms(4) us by (auto simp: exponent_def pow10_def)
qed

lemma not_special:
  assumes "is_digit a"
  shows "special ((if neg then ''-'' else []) @ a # s) = None"
  using assms by (auto simp: special_def Let_def)

section \<open>Printing and reading are inverse\<close>

lemma nat_digits_digits [simp]: "list_all is_digit (nat_digits n)"
  using set_nat_digits by (auto simp: list_all_iff)

lemma zeros_digits [simp]: "list_all is_digit (replicate n (CHR ''0''))"
  by (simp add: list_all_length)

lemma exponent_text:
  assumes "\<bar>e\<bar> < 1000"
  shows "exponent (''e'' @ (if e < 0 then ''-'' else ''+'') @ (if \<bar>e\<bar> < 10 then ''0'' else []) @ itoa \<bar>e\<bar>) e"
proof -
  let ?es = "(if \<bar>e\<bar> < 10 then ''0'' else []) @ itoa \<bar>e\<bar>"
  have i: "itoa \<bar>e\<bar> = nat_digits (nat \<bar>e\<bar>)" by (simp add: itoa_def)
  have v: "digits_value 0 ?es = nat \<bar>e\<bar>" by (simp add: i digit_val_def)
  have d: "list_all is_digit ?es" by (simp add: i)
  have s: "scan_exp 0 ?es = (\<bar>e\<bar>, [])" using scan_exp_digits [OF d, of 0] v assms by simp
  have "?es \<noteq> []" using nat_digits_Cons i by simp
  then obtain c cs where c: "?es = c # cs" by (cases ?es) blast+
  have "is_digit c" using d [unfolded c] by simp
  note c = c this
  have "read_exp ((if e < 0 then ''-'' else ''+'') @ ?es) = Some (e, [])"
    unfolding read_exp_def c(1) using c(2) s [unfolded c(1)] by simp
  then show ?thesis using digits_plain [OF d] unfolding exponent_def by auto
qed

lemma pow10_nat: "pow10 (int n) = 10 ^ n"
  by (simp add: pow10_def)

lemma pow10_diff: "pow10 (a - b) = pow10 a / pow10 b"
proof -
  have "pow10 b \<noteq> 0" using pow10_pos [of b] by linarith
  then show ?thesis using pow10_add [of "a - b" b] by (simp add: field_simps)
qed

text \<open>The layout with an exponent: one digit before the point.\<close>

lemma layout_exponent:
  assumes "dp - 1 < - 4 \<or> 6 \<le> dp - 1" and "ds \<noteq> []"
  shows "layout_g ds dp = mantissa (take 1 ds) (drop 1 ds) @ ''e'' @ (if dp - 1 < 0 then ''-'' else ''+'')
       @ (if \<bar>dp - 1\<bar> < 10 then ''0'' else []) @ itoa \<bar>dp - 1\<bar>"
    and "of_nat (digits_value 0 ds) / 10 ^ (length ds - 1) * pow10 (dp - 1) = of_nat (digits_value 0 ds) * pow10 (dp - int (length ds))"
proof -
  show "layout_g ds dp = mantissa (take 1 ds) (drop 1 ds) @ ''e'' @ (if dp - 1 < 0 then ''-'' else ''+'')
       @ (if \<bar>dp - 1\<bar> < 10 then ''0'' else []) @ itoa \<bar>dp - 1\<bar>"
    using assms by (cases ds) (auto simp: layout_g_def mantissa_def Let_def)
  have "dp - int (length ds) = dp - 1 - int (length ds - 1)" using assms(2) by (cases ds) auto
  then show "of_nat (digits_value 0 ds) / 10 ^ (length ds - 1) * pow10 (dp - 1) = of_nat (digits_value 0 ds) * pow10 (dp - int (length ds))"
    by (simp only: pow10_diff pow10_nat) simp
qed

lemma layout_literal:
  assumes "list_all is_digit ds" and "ds \<noteq> []" and "\<bar>dp - 1\<bar> < 1000"
  obtains ip fp ex e where "layout_g ds dp = mantissa ip fp @ ex" and "list_all is_digit ip" and "ip \<noteq> []" and "list_all is_digit fp"
    and "exponent ex e" and "of_nat (digits_value 0 (ip @ fp)) / 10 ^ length fp * pow10 e = of_nat (digits_value 0 ds) * pow10 (dp - int (length ds))"
proof -
  let ?nd = "int (length ds)" let ?e = "dp - 1"
  have tk: "list_all is_digit (take n ds)" "list_all is_digit (drop n ds)" for n
    using assms(1) by (auto simp: list_all_iff dest: in_set_takeD in_set_dropD)
  consider (exp) "?e < - 4 \<or> 6 \<le> ?e" | (int) "0 < dp" "dp \<le> 6" "?nd \<le> dp" | (frac) "0 < dp" "dp \<le> 6" "dp < ?nd" | (small) "dp \<le> 0" "- 4 \<le> ?e"
    by linarith
  then show thesis
  proof cases
    case exp
    then show thesis
      using that [OF layout_exponent(1) tk(1) _ tk(2) exponent_text [OF assms(3)]] layout_exponent(2) [OF exp assms(2)] assms(2) by simp
  next
    case int
    then have "layout_g ds dp = mantissa (ds @ replicate (nat (dp - ?nd)) (CHR ''0'')) [] @ []"
      by (simp add: layout_g_def mantissa_def Let_def)
    moreover have "of_nat (digits_value 0 ds * 10 ^ nat (dp - ?nd)) = of_nat (digits_value 0 ds) * pow10 (dp - ?nd)"
      using int by (simp add: pow10_def)
    ultimately show thesis
      using that [of "ds @ replicate (nat (dp - ?nd)) (CHR ''0'')" "[]" "[]" 0] assms(1,2) by (simp add: exponent_def)
  next
    case frac
    then have "layout_g ds dp = mantissa (take (nat dp) ds) (drop (nat dp) ds) @ []"
      by (simp add: layout_g_def mantissa_def Let_def)
    moreover have "of_nat (digits_value 0 ds) / 10 ^ (length ds - nat dp) = of_nat (digits_value 0 ds) * pow10 (dp - ?nd)"
      using frac by (simp add: pow10_def nat_diff_distrib')
    ultimately show thesis
      using that [of "take (nat dp) ds" "drop (nat dp) ds" "[]" 0] tk frac assms(2) by (simp add: exponent_def)
  next
    case small
    have "layout_g ds dp = mantissa ''0'' (replicate (nat (- dp)) (CHR ''0'') @ ds) @ []"
      using small assms(2) by (cases ds) (auto simp: layout_g_def mantissa_def Let_def)
    moreover have "of_nat (digits_value 0 ds) / 10 ^ (nat (- dp) + length ds) = of_nat (digits_value 0 ds) * pow10 (dp - ?nd)"
    proof -
      have "dp - ?nd = - int (nat (- dp) + length ds)" using small by simp
      then show ?thesis by (simp only: pow10_inverse pow10_nat) simp
    qed
    ultimately show thesis
      using that [of "''0''" "replicate (nat (- dp)) (CHR ''0'') @ ds" "[]" 0] assms(1) by (simp add: exponent_def digit_val_def)
  qed
qed

lemma exp_up_range: "0 \<le> exp_up n x \<and> exp_up n x \<le> int n"
  by (induction n arbitrary: x) simp_all

lemma exp_down_range: "- int n \<le> exp_down n x \<and> exp_down n x \<le> 0"
proof (induction n arbitrary: x)
  case (Suc n)
  show ?case using Suc.IH [of "10 * x"] by simp
qed simp

lemma dec_exp_range: "\<bar>dec_exp x\<bar> \<le> 400"
  unfolding dec_exp_def using exp_up_range [of 400 x] exp_down_range [of 400 x] by (cases "1 \<le> x") (simp_all only: if_True if_False, linarith+)

lemma representable_uminus: "representable x \<Longrightarrow> representable (- x)"
proof -
  assume "representable x"
  then have "x / ulp x = of_int \<lfloor>x / ulp x\<rfloor>" by (simp add: representable_def field_simps)
  then have "- x / ulp (- x) = of_int (- \<lfloor>x / ulp x\<rfloor>)" by simp
  then show ?thesis by (rule representableI)
qed

lemma is_float64_abs: "is_float64 x \<Longrightarrow> is_float64 \<bar>x\<bar>"
  by (simp only: is_float64_def abs_abs) (simp add: abs_if representable_uminus)

lemma printed_digits:
  assumes "0 < x" and "is_float64 x" and "strip_zeros 20 (shortest 17 x (dec_exp x) 1) = (d, k)"
  shows "0 < d" and "rnd (of_int d * pow10 k) = Fin x" and "\<bar>int (length (itoa d)) + k - 1\<bar> < 1000"
proof -
  obtain d0 k0 where s: "shortest 17 x (dec_exp x) 1 = (d0, k0)" by fastforce
  obtain q where g: "rnd (of_int d0 * pow10 k0) = Fin x" and q: "1 \<le> q" "q \<le> 17" "k0 = dec_exp x - q + 1" "at_digits x (dec_exp x) q = Some d0"
    using shortest_good [OF assms(1,2) _ _ _ s] by auto
  have "0 < d0"
  proof (rule ccontr)
    assume "\<not> 0 < d0"
    then have "of_int d0 * pow10 k0 \<le> 0" by (simp add: mult_le_0_iff less_imp_le)
    then have "rnd_rat (of_int d0 * pow10 k0) \<le> 0" using f64.rd_nonpos by blast
    then show False using g assms(1) by (auto simp: rnd_threshold split: if_splits)
  qed
  note z = strip_zeros_value [OF assms(3) [unfolded s] this]
  show "0 < d" "rnd (of_int d * pow10 k) = Fin x" using z g by simp_all
  let ?s = "x * pow10 (q - 1 - dec_exp x)"
  have "?s < pow10 (dec_exp x + 1) * pow10 (q - 1 - dec_exp x)"
    using dec_exp_bounds(2) [OF assms(1,2)] by (intro mult_strict_right_mono) simp_all
  also have "\<dots> = pow10 q" by (simp flip: pow10_add)
  also have "\<dots> = 10 ^ nat q" using q(1) by (simp add: pow10_def)
  also have "\<dots> \<le> 10 ^ 17" using q(2) by (intro power_increasing) simp_all
  finally have "?s < 10 ^ 17" .
  then have "\<lceil>?s\<rceil> \<le> 10 ^ 17" "\<lfloor>?s\<rfloor> \<le> 10 ^ 17" by (simp_all add: ceiling_le_iff floor_le_iff)
  then have "d0 \<le> 10 ^ 17" using q(4) by (auto simp: at_digits_def Let_def split: if_splits)
  then have "d < 10 ^ Suc 17" using z by simp
  then have "nat d < 10 ^ Suc 17" by (simp add: nat_less_iff)
  then have l: "length (itoa d) \<le> 18" using length_nat_digits [of "nat d" 17] z by (simp add: itoa_def)
  have "1 \<le> length (itoa d)" using z nat_digits_Cons [of "nat d"] by (simp add: itoa_def Suc_le_eq)
  then show "\<bar>int (length (itoa d)) + k - 1\<bar> < 1000" using l z q(1-3) dec_exp_range [of x] by linarith
qed

lemma rnd_uminus: "rnd q = Fin x \<Longrightarrow> rnd (- q) = Fin (- x)"
  by (auto simp: rnd_def Let_def rnd_rat_uminus abs_if split: if_splits)

text \<open>Printing a \<^verbatim>\<open>float64\<close> and parsing what was printed gives it back.\<close>

lemma ParseFloat64_fmt_g:
  assumes "\<And>x. v = Fin x \<Longrightarrow> is_float64 x"
  shows "ParseFloat64 (fmt_g v) = Inr v"
proof (cases v)
  case (Fin x)
  show ?thesis
  proof (cases "x = 0")
    case True
    have "ParseFloat64 ''0'' = Inr (Fin 0)" by code_simp
    then show ?thesis using Fin True by simp
  next
    case False
    let ?neg = "x < 0"
    have f: "0 < \<bar>x\<bar>" "is_float64 \<bar>x\<bar>" using False is_float64_abs [OF assms [OF Fin]] by simp_all
    obtain d k where dk: "strip_zeros 20 (shortest 17 \<bar>x\<bar> (dec_exp \<bar>x\<bar>) 1) = (d, k)" by fastforce
    note p = printed_digits [OF f dk]
    have i: "itoa d = nat_digits (nat d)" using p(1) by (simp add: itoa_def)
    obtain ip fp ex e where l: "layout_g (itoa d) (int (length (itoa d)) + k) = mantissa ip fp @ ex" "list_all is_digit ip" "ip \<noteq> []"
        "list_all is_digit fp" "exponent ex e"
        "of_nat (digits_value 0 (ip @ fp)) / 10 ^ length fp * pow10 e = of_nat (digits_value 0 (itoa d)) * pow10 (int (length (itoa d)) + k - int (length (itoa d)))"
      by (rule layout_literal [of "itoa d" "int (length (itoa d)) + k"]) (use p(3) i nat_digits_Cons in \<open>simp_all only: nat_digits_digits not_False_eq_True\<close>)
    have t: "fmt_g v = (if ?neg then ''-'' else []) @ mantissa ip fp @ ex"
      using Fin False dk l(1) by simp
    have "read_float (fmt_g v) = Some ((if ?neg then - 1 else 1) * (of_int d * pow10 k))"
      unfolding t read_literal [OF l(2-5)] l(6) using p(1) i by simp
    moreover have "special (fmt_g v) = None"
      unfolding t using l(2,3) not_special by (cases ip) (auto simp: mantissa_def)
    moreover have "rnd ((if ?neg then - 1 else 1) * (of_int d * pow10 k)) = Fin x"
      using rnd_uminus [OF p(2)] p(2) by (cases ?neg) simp_all
    ultimately show ?thesis using Fin by (simp add: ParseFloat64_def)
  qed
qed (code_simp | simp)+

end
