(* ===== verification/ConfigSummary.thy ===== *)
theory ConfigSummary
  imports Config FloatPrint
begin

text \<open>
  \<^verbatim>\<open>Config.Summary\<close> of \<^verbatim>\<open>internal/config/config.go\<close>: the rendering of the loaded configuration that
  the manager logs at start, one \<^verbatim>\<open>NAME=value\<close> line per variable.

  Lemmas: what a summary prints, read as an environment, loads the configuration it came from.
\<close>

section \<open>The summary\<close>

definition units :: "duration \<Rightarrow> int \<Rightarrow> string" where
  "units d unit = itoa (trunc_div (sint d) unit)"

definition summary_pairs :: "config \<Rightarrow> (string \<times> string) list" where
  "summary_pairs c =
     [(''FORECAST_SERVICE_URL'', cfg_ForecastServiceURL c),
      (''PROMETHEUS_URL'', cfg_PrometheusURL c),
      (''RECONCILE_INTERVAL_SECONDS'', units (cfg_ReconcileInterval c) ns_Second),
      (''HOT_PATH_HISTORY_MINUTES'', units (cfg_HotPathHistory c) ns_Minute),
      (''HOT_PATH_MIN_POINTS'', itoa32 (cfg_HotPathMinPoints c)),
      (''FORECAST_TIMEOUT_SECONDS'', units (cfg_ForecastTimeout c) ns_Second),
      (''PROPHET_MIN_POINTS'', itoa32 (cfg_ProphetMinPoints c)),
      (''CLASSIFIER_INTERVAL_MINUTES'', units (cfg_ClassifierInterval c) ns_Minute),
      (''CLASSIFIER_HISTORY_HOURS'', units (cfg_ClassifierHistory c) ns_Hour),
      (''CLASSIFIER_MIN_POINTS'', itoa32 (cfg_ClassifierMinPoints c)),
      (''CLASSIFIER_HIGH_CONFIDENCE_POINTS'', itoa32 (cfg_ClassifierHighConfidencePoints c)),
      (''CLASSIFIER_DEDUP_SECONDS'', units (cfg_ClassifierDedup c) ns_Second),
      (''CONTEXT_DOWNSAMPLE_RESOLUTION_MIN'', itoa32 (cfg_ContextResolutionMinutes c)),
      (''CV_GUARD_MEAN_RPS'', fmt_g (cfg_CVGuardMeanRPS c)),
      (''RPS_PER_POD_NOISE_FLOOR_RPS'', itoa32 (cfg_RpsPerPodNoiseFloorRPS c)),
      (''HOURLY_PROFILE_MIN_HOURS'', itoa32 (cfg_HourlyProfileMinHours c)),
      (''DEFAULT_SCALE_UP_COOLDOWN_SECONDS'', units (cfg_DefaultScaleUpCooldown c) ns_Second),
      (''DEFAULT_SCALE_DOWN_COOLDOWN_SECONDS'', units (cfg_DefaultScaleDownCooldown c) ns_Second),
      (''DEFAULT_MAX_STEP_SIZE'', itoa32 (cfg_DefaultMaxStepSize c)),
      (''OLLAMA_URL'', cfg_OllamaURL c),
      (''OLLAMA_MODEL'', cfg_OllamaModel c),
      (''OLLAMA_TIMEOUT_SECONDS'', units (cfg_OllamaTimeout c) ns_Second),
      (''OLLAMA_MAX_TOKENS'', itoa32 (cfg_OllamaMaxTokens c))]"

definition Summary :: "config \<Rightarrow> string" where
  "Summary c = join [CHR 0x0A] (map (\<lambda>(name, v). name @ ''='' @ v) (summary_pairs c))"

text \<open>The environment a summary describes.\<close>

definition summary_env :: "config \<Rightarrow> string \<Rightarrow> string" where
  "summary_env c name = (case map_of (summary_pairs c) name of None \<Rightarrow> '''' | Some v \<Rightarrow> v)"


section \<open>Reading a summary back\<close>

lemma int_value_itoa:
  assumes "env name = itoa i" and "in_i32 i"
  shows "int_value env name def = i32 i" "int_problem env name = []"
proof -
  have "itoa i \<noteq> ''''" using nat_digits_Cons by (simp add: itoa_def)
  then show "int_value env name def = i32 i" "int_problem env name = []"
    using assms by (simp_all add: int_value_def int_problem_def ParseInt32_itoa)
qed

lemma float_value_g:
  assumes "env name = fmt_g v" and "ParseFloat64 (fmt_g v) = Inr v"
  shows "float_value env name def = v" "float_problem env name = []"
proof -
  have "ParseFloat64 '''' \<noteq> Inr v" by (cases v) code_simp+
  then show "float_value env name def = v" "float_problem env name = []"
    using assms by (auto simp: float_value_def float_problem_def)
qed

text \<open>A duration that is a whole number of units, of the size the readers accept, survives the division.\<close>

definition whole :: "int \<Rightarrow> duration \<Rightarrow> bool" where
  "whole unit d \<longleftrightarrow> unit dvd sint d \<and> in_i32 (sint d div unit)"

lemma units_back:
  assumes "0 < unit" and "sint u = unit" and "env name = units d unit" and "whole unit d"
  shows "Duration_of_i32 (int_value env name def) * u = d" "int_problem env name = []"
proof -
  obtain q where q: "sint d = q * unit" using assms(4) by (auto simp: whole_def dvd_def mult.commute)
  have t: "trunc_div (sint d) unit = q" unfolding q using assms(1) by simp
  have b: "in_i32 q" using assms(1,4) q by (simp add: whole_def)
  then have i: "int_value env name def = i32 q" "int_problem env name = []"
    using int_value_itoa [of env name q] assms(3) t by (simp_all add: units_def)
  have "Duration_of_i32 (i32 q) * u = word_of_int (q * unit)"
    using b by (simp add: Duration_of_i32_def sint_i32 of_int_sint flip: assms(2))
  also have "\<dots> = d" by (simp add: of_int_sint flip: q)
  finally show "Duration_of_i32 (int_value env name def) * u = d" "int_problem env name = []"
    using i by simp_all
qed

lemmas seconds_back = units_back [of ns_Second Second, simplified]
  and minutes_back = units_back [of ns_Minute Minute, simplified]
  and hours_back = units_back [of ns_Hour Hour, simplified]

lemma int_back:
  assumes "env name = itoa32 v"
  shows "int_value env name def = v" "int_problem env name = []"
  using int_value_itoa [of env name "sint v"] assms by (simp_all add: in_i32_def)

lemma seconds_whole [simp]: "whole ns_Second (Duration_of_i32 v * Second)"
  by (simp add: whole_def in_i32_def)

lemma read_env_whole_seconds:
  "whole ns_Second (cfg_ReconcileInterval (fst (read_env env)))" "whole ns_Second (cfg_ForecastTimeout (fst (read_env env)))"
  "whole ns_Second (cfg_ClassifierDedup (fst (read_env env)))" "whole ns_Second (cfg_DefaultScaleUpCooldown (fst (read_env env)))"
  "whole ns_Second (cfg_DefaultScaleDownCooldown (fst (read_env env)))" "whole ns_Second (cfg_OllamaTimeout (fst (read_env env)))"
  by (simp_all add: read_env_def Let_def reader_eqs)

text \<open>The guard is a value of \<^verbatim>\<open>float64\<close>: the default, or what the parser rounded.\<close>

lemma ParseFloat64_value: "ParseFloat64 s = Inr (Fin x) \<Longrightarrow> is_float64 x"
  by (auto simp: ParseFloat64_def special_def Let_def dest: is_float64_rnd split: option.splits float64.splits if_splits)

lemma read_env_guard: "ParseFloat64 (fmt_g (cfg_CVGuardMeanRPS (fst (read_env env)))) = Inr (cfg_CVGuardMeanRPS (fst (read_env env)))"
proof (rule ParseFloat64_fmt_g)
  fix x
  assume "cfg_CVGuardMeanRPS (fst (read_env env)) = Fin x"
  moreover have "is_float64 1" using is_float64_rnd [of 1 1] rnd_of_int [of 1] by simp
  ultimately show "is_float64 x"
    by (auto simp: read_env_def Let_def reader_eqs float_value_def dest: ParseFloat64_value split: if_splits sum.splits)
qed

lemma read_env_strings:
  "cfg_OllamaURL (fst (read_env env)) \<noteq> ''''" "cfg_OllamaModel (fst (read_env env)) \<noteq> ''''"
  by (simp_all add: read_env_def Let_def reader_eqs envStringOrDefault_def)

text \<open>The configurations whose summary reads back.\<close>

definition printable :: "config \<Rightarrow> bool" where
  "printable c \<longleftrightarrow> whole ns_Minute (cfg_HotPathHistory c) \<and> whole ns_Minute (cfg_ClassifierInterval c) \<and>
     whole ns_Hour (cfg_ClassifierHistory c)"

text \<open>What each reader finds in the environment of a summary.\<close>

lemma summary_env_strings:
  "summary_env c ''FORECAST_SERVICE_URL'' = cfg_ForecastServiceURL c" "summary_env c ''PROMETHEUS_URL'' = cfg_PrometheusURL c"
  "summary_env c ''OLLAMA_URL'' = cfg_OllamaURL c" "summary_env c ''OLLAMA_MODEL'' = cfg_OllamaModel c"
  by (simp_all add: summary_env_def summary_pairs_def)

lemma summary_env_values:
  "summary_env c ''HOT_PATH_MIN_POINTS'' = itoa32 (cfg_HotPathMinPoints c)"
  "summary_env c ''PROPHET_MIN_POINTS'' = itoa32 (cfg_ProphetMinPoints c)"
  "summary_env c ''CLASSIFIER_MIN_POINTS'' = itoa32 (cfg_ClassifierMinPoints c)"
  "summary_env c ''CLASSIFIER_HIGH_CONFIDENCE_POINTS'' = itoa32 (cfg_ClassifierHighConfidencePoints c)"
  "summary_env c ''CONTEXT_DOWNSAMPLE_RESOLUTION_MIN'' = itoa32 (cfg_ContextResolutionMinutes c)"
  "summary_env c ''RPS_PER_POD_NOISE_FLOOR_RPS'' = itoa32 (cfg_RpsPerPodNoiseFloorRPS c)"
  "summary_env c ''HOURLY_PROFILE_MIN_HOURS'' = itoa32 (cfg_HourlyProfileMinHours c)"
  "summary_env c ''DEFAULT_MAX_STEP_SIZE'' = itoa32 (cfg_DefaultMaxStepSize c)"
  "summary_env c ''OLLAMA_MAX_TOKENS'' = itoa32 (cfg_OllamaMaxTokens c)"
  "summary_env c ''RECONCILE_INTERVAL_SECONDS'' = units (cfg_ReconcileInterval c) ns_Second"
  "summary_env c ''FORECAST_TIMEOUT_SECONDS'' = units (cfg_ForecastTimeout c) ns_Second"
  "summary_env c ''CLASSIFIER_DEDUP_SECONDS'' = units (cfg_ClassifierDedup c) ns_Second"
  "summary_env c ''DEFAULT_SCALE_UP_COOLDOWN_SECONDS'' = units (cfg_DefaultScaleUpCooldown c) ns_Second"
  "summary_env c ''DEFAULT_SCALE_DOWN_COOLDOWN_SECONDS'' = units (cfg_DefaultScaleDownCooldown c) ns_Second"
  "summary_env c ''OLLAMA_TIMEOUT_SECONDS'' = units (cfg_OllamaTimeout c) ns_Second"
  "summary_env c ''HOT_PATH_HISTORY_MINUTES'' = units (cfg_HotPathHistory c) ns_Minute"
  "summary_env c ''CLASSIFIER_INTERVAL_MINUTES'' = units (cfg_ClassifierInterval c) ns_Minute"
  "summary_env c ''CLASSIFIER_HISTORY_HOURS'' = units (cfg_ClassifierHistory c) ns_Hour"
  "summary_env c ''CV_GUARD_MEAN_RPS'' = fmt_g (cfg_CVGuardMeanRPS c)"
  by (simp_all add: summary_env_def summary_pairs_def)

lemmas summary_ints =
  int_back [where env = "summary_env c" for c, OF summary_env_values(1)]
  int_back [where env = "summary_env c" for c, OF summary_env_values(2)]
  int_back [where env = "summary_env c" for c, OF summary_env_values(3)]
  int_back [where env = "summary_env c" for c, OF summary_env_values(4)]
  int_back [where env = "summary_env c" for c, OF summary_env_values(5)]
  int_back [where env = "summary_env c" for c, OF summary_env_values(6)]
  int_back [where env = "summary_env c" for c, OF summary_env_values(7)]
  int_back [where env = "summary_env c" for c, OF summary_env_values(8)]
  int_back [where env = "summary_env c" for c, OF summary_env_values(9)]

lemmas summary_durations =
  seconds_back [where env = "summary_env c" for c, OF summary_env_values(10)]
  seconds_back [where env = "summary_env c" for c, OF summary_env_values(11)]
  seconds_back [where env = "summary_env c" for c, OF summary_env_values(12)]
  seconds_back [where env = "summary_env c" for c, OF summary_env_values(13)]
  seconds_back [where env = "summary_env c" for c, OF summary_env_values(14)]
  seconds_back [where env = "summary_env c" for c, OF summary_env_values(15)]
  minutes_back [where env = "summary_env c" for c, OF summary_env_values(16)]
  minutes_back [where env = "summary_env c" for c, OF summary_env_values(17)]
  hours_back [where env = "summary_env c" for c, OF summary_env_values(18)]

lemma read_summary:
  assumes "printable c" and "\<And>x. x \<in> set [cfg_ForecastServiceURL c, cfg_PrometheusURL c, cfg_OllamaURL c, cfg_OllamaModel c] \<Longrightarrow> x \<noteq> ''''"
    and "\<And>d. d \<in> set [cfg_ReconcileInterval c, cfg_ForecastTimeout c, cfg_ClassifierDedup c, cfg_DefaultScaleUpCooldown c,
      cfg_DefaultScaleDownCooldown c, cfg_OllamaTimeout c] \<Longrightarrow> whole ns_Second d"
    and "ParseFloat64 (fmt_g (cfg_CVGuardMeanRPS c)) = Inr (cfg_CVGuardMeanRPS c)"
  shows "read_env (summary_env c) = (c, [])"
proof -
  have "whole ns_Minute (cfg_HotPathHistory c)" "whole ns_Minute (cfg_ClassifierInterval c)" "whole ns_Hour (cfg_ClassifierHistory c)"
    using assms(1) by (simp_all add: printable_def)
  then show ?thesis
    using assms(2-4)
    by (simp add: read_env_def Let_def reader_eqs envStringOrDefault_def summary_env_strings summary_ints summary_durations
        float_value_g [where env = "summary_env c", OF summary_env_values(19)])
qed

text \<open>C35. The logged summary is the configuration: what \<^verbatim>\<open>Summary\<close> prints for a configuration that was
  loaded, set as environment variables, loads the same configuration, provided the minutes and hours
  did not overflow.\<close>

theorem summary_roundtrip:
  assumes "LoadFromEnv env = Inr cfg" and "printable cfg"
  shows "LoadFromEnv (summary_env cfg) = Inr cfg"
proof -
  have r: "read_env env = (cfg, [])" and v: "cfg_validate cfg = []" using assms(1) by (simp_all add: LoadFromEnv_Inr)
  have "url_problem env ''FORECAST_SERVICE_URL'' = []" "url_problem env ''PROMETHEUS_URL'' = []"
    using read_env_problems [of env] r by auto
  then have "cfg_ForecastServiceURL cfg \<noteq> ''''" "cfg_PrometheusURL cfg \<noteq> ''''"
    using read_env_urls [of env] r by (auto simp: url_problem_def split: if_splits)
  then have "read_env (summary_env cfg) = (cfg, [])"
    using read_env_whole_seconds [of env] read_env_strings [of env] read_env_guard [of env] r by (intro read_summary [OF assms(2)]) auto
  then show ?thesis using v by (simp add: LoadFromEnv_Inr)
qed

theorem summary_roundtrip_witness:
  "LoadFromEnv (summary_env default_config) = Inr default_config \<and>
   (''CV_GUARD_MEAN_RPS'', ''1'') \<in> set (summary_pairs default_config)"
proof -
  have g: "fmt_g (Fin 1) = ''1''" by code_simp
  have "printable default_config"
    by (simp add: printable_def whole_def in_i32_def default_config_def mins_def hours_def)
  from summary_roundtrip [OF LoadFromEnv_defaults this] show ?thesis
    by (simp add: summary_pairs_def g default_config_def del: fmt_g.simps)
qed

end
