(* ===== verification/CommandLine.thy ===== *)
theory CommandLine
  imports Prelude
begin

text \<open>
  The command line of \<^verbatim>\<open>cmd/controller/main.go\<close>: the five flags \<^verbatim>\<open>main\<close> declares and \<^verbatim>\<open>flag.Parse\<close> of the
  standard library, which reads the arguments into them. Libraries declare flags of their own
  (logging, kubeconfig); these are a parameter that says of a name whether it is such a flag, whether
  it is boolean, and which values it takes.

  Lemmas: parsing ends on every argument list; writing a record of flags as arguments and parsing
  them gives the record back; a flag with no declaration stops the process before anything else.
\<close>

section \<open>The flags\<close>

record flags =
  fl_metricsAddr :: string
  fl_probeAddr :: string
  fl_enableLeaderElection :: bool
  fl_secureMetrics :: bool
  fl_enableHTTP2 :: bool

definition default_flags :: flags where
  "default_flags = \<lparr>fl_metricsAddr = ''0'', fl_probeAddr = '':8081'', fl_enableLeaderElection = False,
     fl_secureMetrics = True, fl_enableHTTP2 = False\<rparr>"

text \<open>A declared flag: what setting it does. A library flag is described by whether it is boolean and by the
  values it accepts.\<close>

datatype flag_def =
    StringVar "string \<Rightarrow> flags \<Rightarrow> flags"
  | BoolVar "bool \<Rightarrow> flags \<Rightarrow> flags"
  | LibVar bool "string \<Rightarrow> bool"

type_synonym lib_flags = "string \<Rightarrow> (bool \<times> (string \<Rightarrow> bool)) option"

definition declared_flags :: "lib_flags \<Rightarrow> string \<Rightarrow> flag_def option" where
  "declared_flags lib name =
     (if name = ''metrics-bind-address'' then Some (StringVar (\<lambda>v. fl_metricsAddr_update (\<lambda>_. v)))
      else if name = ''health-probe-bind-address'' then Some (StringVar (\<lambda>v. fl_probeAddr_update (\<lambda>_. v)))
      else if name = ''leader-elect'' then Some (BoolVar (\<lambda>v. fl_enableLeaderElection_update (\<lambda>_. v)))
      else if name = ''metrics-secure'' then Some (BoolVar (\<lambda>v. fl_secureMetrics_update (\<lambda>_. v)))
      else if name = ''enable-http2'' then Some (BoolVar (\<lambda>v. fl_enableHTTP2_update (\<lambda>_. v)))
      else map_option (\<lambda>(b, ok). LibVar b ok) (lib name))"

section \<open>Parsing\<close>

definition ParseBool :: "string \<Rightarrow> bool option" where
  "ParseBool s =
     (if s \<in> set [''1'', ''t'', ''T'', ''true'', ''TRUE'', ''True''] then Some True
      else if s \<in> set [''0'', ''f'', ''F'', ''false'', ''FALSE'', ''False''] then Some False
      else None)"

fun IsBoolFlag :: "flag_def \<Rightarrow> bool" where
  "IsBoolFlag (StringVar _) = False"
| "IsBoolFlag (BoolVar _) = True"
| "IsBoolFlag (LibVar b _) = b"

fun set_flag :: "flag_def \<Rightarrow> string \<Rightarrow> flags \<Rightarrow> flags option" where
  "set_flag (StringVar f) v fl = Some (f v fl)"
| "set_flag (BoolVar f) v fl = map_option (\<lambda>b. f b fl) (ParseBool v)"
| "set_flag (LibVar _ ok) v fl = (if ok v then Some fl else None)"

datatype flag_error =
    BadFlagSyntax string
  | FlagNotDefined string
  | ErrHelp
  | InvalidValue string string
  | NeedsArgument string

text \<open>The first equals sign after the first character ends the name.\<close>

definition split_value :: "string \<Rightarrow> string \<times> string option" where
  "split_value name =
     (case dropWhile (\<lambda>c. c \<noteq> CHR ''='') (tl name) of
        [] \<Rightarrow> (name, None)
      | _ # v \<Rightarrow> (take 1 name @ takeWhile (\<lambda>c. c \<noteq> CHR ''='') (tl name), Some v))"

definition set_or_fail :: "flag_def \<Rightarrow> string \<Rightarrow> string \<Rightarrow> string list \<Rightarrow> flags \<Rightarrow> flag_error + bool \<times> flags \<times> string list" where
  "set_or_fail d name value args fl =
     (case set_flag d value fl of None \<Rightarrow> Inl (InvalidValue value name) | Some fl' \<Rightarrow> Inr (True, fl', args))"

text \<open>One flag that looks like a flag: a boolean one takes no following argument.\<close>

definition parse_flag :: "lib_flags \<Rightarrow> string \<Rightarrow> string list \<Rightarrow> flags \<Rightarrow> flag_error + bool \<times> flags \<times> string list" where
  "parse_flag lib s args fl =
     (let (name, value) = split_value s in
      case declared_flags lib name of
        None \<Rightarrow> Inl (if name = ''help'' \<or> name = ''h'' then ErrHelp else FlagNotDefined name)
      | Some d \<Rightarrow>
          if IsBoolFlag d then set_or_fail d name (case value of Some v \<Rightarrow> v | None \<Rightarrow> ''true'') args fl
          else (case value of
                  Some v \<Rightarrow> set_or_fail d name v args fl
                | None \<Rightarrow> (case args of [] \<Rightarrow> Inl (NeedsArgument name) | v # args' \<Rightarrow> set_or_fail d name v args' fl)))"

definition parseOne :: "lib_flags \<Rightarrow> string list \<Rightarrow> flags \<Rightarrow> flag_error + bool \<times> flags \<times> string list" where
  "parseOne lib args fl =
     (case args of
        [] \<Rightarrow> Inr (False, fl, args)
      | s # rest \<Rightarrow>
          if length s < 2 \<or> hd s \<noteq> CHR ''-'' then Inr (False, fl, args)
          else if s = ''--'' then Inr (False, fl, rest)
          else let name = (if s ! 1 = CHR ''-'' then drop 2 s else drop 1 s) in
               if name = [] \<or> hd name = CHR ''-'' \<or> hd name = CHR ''='' then Inl (BadFlagSyntax s)
               else parse_flag lib name rest fl)"

lemma parse_flag_shorter: "parse_flag lib s args fl = Inr (b, fl', args') \<Longrightarrow> length args' \<le> length args"
  by (auto simp: parse_flag_def set_or_fail_def split: prod.splits option.splits if_splits list.splits)

lemma parseOne_shorter: "parseOne lib args fl = Inr (True, fl', args') \<Longrightarrow> length args' < length args"
  using parse_flag_shorter [of lib _ "tl args" fl True fl' args']
  by (auto simp: parseOne_def Let_def le_imp_less_Suc split: list.splits if_splits)

function flag_Parse :: "lib_flags \<Rightarrow> string list \<Rightarrow> flags \<Rightarrow> flag_error + flags \<times> string list" where
  "flag_Parse lib args fl =
     (case parseOne lib args fl of
        Inl e \<Rightarrow> Inl e
      | Inr (seen, fl', args') \<Rightarrow> if seen then flag_Parse lib args' fl' else Inr (fl', args'))"
  by pat_completeness auto
termination
  by (relation "measure (\<lambda>(lib, args, fl). length args)") (auto simp: parseOne_shorter)

declare flag_Parse.simps [simp del]

text \<open>An error prints the usage and ends the process: with status 0 when help was asked for, else 2.\<close>

definition parse_exit_code :: "flag_error \<Rightarrow> int" where
  "parse_exit_code e = (if e = ErrHelp then 0 else 2)"

section \<open>Round trip\<close>

definition print_bool :: "bool \<Rightarrow> string" where
  "print_bool b = (if b then ''true'' else ''false'')"

definition flag_args :: "flags \<Rightarrow> string list" where
  "flag_args fl =
     [''--metrics-bind-address='' @ fl_metricsAddr fl, ''--health-probe-bind-address='' @ fl_probeAddr fl,
      ''--leader-elect='' @ print_bool (fl_enableLeaderElection fl),
      ''--metrics-secure='' @ print_bool (fl_secureMetrics fl),
      ''--enable-http2='' @ print_bool (fl_enableHTTP2 fl)]"

lemma ParseBool_print [simp]: "ParseBool (print_bool b) = Some b"
  by (simp add: ParseBool_def print_bool_def)

lemma while_not_in:
  assumes "c \<notin> set xs"
  shows "takeWhile (\<lambda>d. d \<noteq> c) (xs @ c # ys) = xs" "dropWhile (\<lambda>d. d \<noteq> c) (xs @ c # ys) = c # ys"
    "dropWhile (\<lambda>d. d \<noteq> c) xs = []"
  using assms by (induction xs) auto

lemma split_value_eq:
  "n \<noteq> [] \<Longrightarrow> CHR ''='' \<notin> set n \<Longrightarrow> split_value (n @ CHR ''='' # v) = (n, Some v)"
  by (cases n) (simp_all add: split_value_def while_not_in)

text \<open>One argument of the form \<^verbatim>\<open>--name=value\<close> sets its flag and leaves the rest.\<close>

lemma flag_Parse_assign:
  assumes "n \<noteq> []" "CHR ''='' \<notin> set n" "hd n \<noteq> CHR ''-''"
    and "declared_flags lib n = Some d" and "set_flag d v fl = Some fl'"
  shows "flag_Parse lib ((''--'' @ n @ CHR ''='' # v) # args) fl = flag_Parse lib args fl'"
proof -
  have "hd n \<noteq> CHR ''=''" using assms(1,2) by (cases n) auto
  then have "parseOne lib ((''--'' @ n @ CHR ''='' # v) # args) fl = Inr (True, fl', args)"
    using assms by (simp add: parseOne_def parse_flag_def split_value_eq set_or_fail_def hd_append)
  then show ?thesis by (subst flag_Parse.simps) simp
qed

lemma flag_Parse_done: "flag_Parse lib [] fl = Inr (fl, [])"
  by (subst flag_Parse.simps) (simp add: parseOne_def)

text \<open>Whatever library flags there are, the five flags written as arguments are read back.\<close>

lemma flag_args_roundtrip: "flag_Parse lib (flag_args fl) fl0 = Inr (fl, [])"
proof -
  note set = flag_Parse_assign [of "''metrics-bind-address''" lib] flag_Parse_assign [of "''health-probe-bind-address''" lib]
    flag_Parse_assign [of "''leader-elect''" lib] flag_Parse_assign [of "''metrics-secure''" lib] flag_Parse_assign [of "''enable-http2''" lib]
  show ?thesis
    by (simp add: flag_args_def set [simplified] declared_flags_def flag_Parse_done)
qed

text \<open>A name that nobody declares stops the parse, with status 2 unless it asks for help.\<close>

lemma undeclared_flag:
  assumes "n \<noteq> []" "CHR ''='' \<notin> set n" "hd n \<noteq> CHR ''-''" and "declared_flags lib n = None"
  shows "\<exists>e. flag_Parse lib ((''--'' @ n) # args) fl = Inl e \<and> parse_exit_code e = (if n \<in> {''help'', ''h''} then 0 else 2)"
proof -
  have "split_value n = (n, None)" using assms(1,2) by (cases n) (simp_all add: split_value_def while_not_in)
  moreover have "hd n \<noteq> CHR ''=''" using assms(1,2) by (cases n) auto
  ultimately have "parseOne lib ((''--'' @ n) # args) fl = Inl (if n = ''help'' \<or> n = ''h'' then ErrHelp else FlagNotDefined n)"
    using assms by (simp add: parseOne_def parse_flag_def)
  then show ?thesis by (subst flag_Parse.simps) (simp add: parse_exit_code_def)
qed

end
