(* ===== verification/Startup.thy ===== *)
theory Startup
  imports Registration ConfigSummary CommandLine
begin

text \<open>
  \<^verbatim>\<open>main\<close> of \<^verbatim>\<open>cmd/controller/main.go\<close>: the sequence from package initialisation and the command line to
  the running manager. Controller-runtime is a parameter: \<open>runtime\<close> says what each of its calls
  returns, \<^const>\<open>None\<close> for success and otherwise the error. The result is what was done, in order, and
  how the process ended.

  Lemmas: the process serves iff the arguments parse, the configuration loads and every step
  succeeds; otherwise it ends with an error status after naming the first step that failed, and has
  started nothing; what is started is exactly the wiring that the other theories reason about.
\<close>

section \<open>Options\<close>

text \<open>The TLS settings a list of options leads to; \<open>disableHTTP2\<close> sets the protocols.\<close>

record tls_config =
  tls_NextProtos :: "string list"

definition disableHTTP2 :: "tls_config \<Rightarrow> tls_config" where
  "disableHTTP2 c = c\<lparr>tls_NextProtos := [''http/1.1'']\<rparr>"

definition tlsOpts :: "flags \<Rightarrow> (tls_config \<Rightarrow> tls_config) list" where
  "tlsOpts fl = (if \<not> fl_enableHTTP2 fl then [disableHTTP2] else [])"

record metrics_options =
  mo_BindAddress :: string
  mo_SecureServing :: bool
  mo_TLSOpts :: "(tls_config \<Rightarrow> tls_config) list"
  mo_Authenticated :: bool \<comment> \<open>a filter provider is set\<close>

definition metricsServerOptions :: "flags \<Rightarrow> metrics_options" where
  "metricsServerOptions fl =
     (let opts = \<lparr>mo_BindAddress = fl_metricsAddr fl, mo_SecureServing = fl_secureMetrics fl, mo_TLSOpts = tlsOpts fl,
               mo_Authenticated = False\<rparr>
      in if fl_secureMetrics fl then opts\<lparr>mo_Authenticated := True\<rparr> else opts)"

record 's manager_options =
  mn_Scheme :: 's
  mn_Metrics :: metrics_options
  mn_WebhookTLSOpts :: "(tls_config \<Rightarrow> tls_config) list"
  mn_HealthProbeBindAddress :: string
  mn_LeaderElection :: bool
  mn_LeaderElectionID :: string

definition manager_options_of :: "'s \<Rightarrow> flags \<Rightarrow> 's manager_options" where
  "manager_options_of scheme fl =
     \<lparr>mn_Scheme = scheme, mn_Metrics = metricsServerOptions fl, mn_WebhookTLSOpts = tlsOpts fl, mn_HealthProbeBindAddress = fl_probeAddr fl,
      mn_LeaderElection = fl_enableLeaderElection fl, mn_LeaderElectionID = ''39d01c48.agentic.io''\<rparr>"

section \<open>The sequence\<close>

record 's runtime =
  rt_GetConfig :: "string option" \<comment> \<open>an error of \<^verbatim>\<open>GetConfigOrDie\<close> ends the process\<close>
  rt_NewManager :: "'s manager_options \<Rightarrow> string option"
  rt_CompleteWebhook :: "webhook_builder \<Rightarrow> string option"
  rt_CompleteController :: "controller_builder \<Rightarrow> string option"
  rt_AddHealthzCheck :: "string \<Rightarrow> string option"
  rt_AddReadyzCheck :: "string \<Rightarrow> string option"
  rt_Start :: "string option" \<comment> \<open>returns when the process is told to stop\<close>

datatype 's main_event =
    Usage flag_error
  | Stderr "config_error list"
  | SetupInfo string
  | GetConfigError string
  | SetupError string string \<comment> \<open>error and message\<close>
  | CreateManager "'s manager_options"
  | RegisterWebhook
  | RegisterController config controller
  | GoExplainer explain_config
  | StartManager

datatype ending = Exit int | Panicked string | Returned

type_synonym 's outcome = "'s main_event list \<times> ending"

definition after :: "'s main_event list \<Rightarrow> 's outcome \<Rightarrow> 's outcome" where
  "after evs r = (evs @ fst r, snd r)"

text \<open>A step that ends the process when its call fails.\<close>

definition must :: "string option \<Rightarrow> string \<Rightarrow> 's outcome \<Rightarrow> 's outcome" where
  "must err msg rest = (case err of Some e \<Rightarrow> ([SetupError e msg], Exit 1) | None \<Rightarrow> rest)"

definition GetConfigOrDie :: "'s runtime \<Rightarrow> 's outcome \<Rightarrow> 's outcome" where
  "GetConfigOrDie rt rest = (case rt_GetConfig rt of Some e \<Rightarrow> ([GetConfigError e], Exit 1) | None \<Rightarrow> rest)"

definition webhooks_enabled :: "(string \<Rightarrow> string) \<Rightarrow> bool" where
  "webhooks_enabled env \<longleftrightarrow> env ''ENABLE_WEBHOOKS'' \<noteq> ''false''"

definition setup_webhook :: "(string \<Rightarrow> string) \<Rightarrow> 's runtime \<Rightarrow> 's outcome \<Rightarrow> 's outcome" where
  "setup_webhook env rt rest =
     (if webhooks_enabled env
      then must (SetupAgenticAutoscalerWebhookWithManager (rt_CompleteWebhook rt)) ''unable to create webhook'' (after [RegisterWebhook] rest)
      else rest)"

definition main :: "'s \<Rightarrow> (string \<Rightarrow> string) \<Rightarrow> flags \<Rightarrow> 's runtime \<Rightarrow> 's outcome" where
  "main scheme env fl rt =
     (case start_main env of
        Inl errs \<Rightarrow> ([Stderr errs], Exit 1)
      | Inr (cfg, c) \<Rightarrow>
          after [SetupInfo (''loaded config'' @ [CHR 0x0A] @ Summary cfg)]
          (GetConfigOrDie rt
          (must (rt_NewManager rt (manager_options_of scheme fl)) ''unable to start manager''
          (after [CreateManager (manager_options_of scheme fl)]
          (setup_webhook env rt
          (must (SetupWithManager (rt_CompleteController rt) cfg c) ''unable to create controller''
          (after [RegisterController cfg c]
          (must (rt_AddHealthzCheck rt ''healthz'') ''unable to set up health check''
          (must (rt_AddReadyzCheck rt ''readyz'') ''unable to set up ready check''
          (after [SetupInfo ''starting manager'', GoExplainer (explainer_config cfg), StartManager]
          (must (rt_Start rt) ''problem running manager'' ([], Returned))))))))))))"

text \<open>The whole process: package initialisers, the command line, then \<^verbatim>\<open>main\<close>.\<close>

definition operator_process ::
    "('s, 'b) scheme_lib \<Rightarrow> 'r registry_lib \<Rightarrow> 'r \<Rightarrow> lib_flags \<Rightarrow> string list \<Rightarrow> (string \<Rightarrow> string) \<Rightarrow> 's runtime \<Rightarrow> 's outcome" where
  "operator_process sl rg registry lib args env rt =
     (case package_init sl rg registry of
        Inl e \<Rightarrow> ([], Panicked e)
      | Inr (scheme, _) \<Rightarrow>
          (case flag_Parse lib args default_flags of
             Inl e \<Rightarrow> ([Usage e], Exit (parse_exit_code e))
           | Inr (fl, _) \<Rightarrow> main scheme env fl rt))"

section \<open>What start-up guarantees\<close>

definition setup_succeeds :: "'s \<Rightarrow> (string \<Rightarrow> string) \<Rightarrow> flags \<Rightarrow> config \<Rightarrow> 's runtime \<Rightarrow> bool" where
  "setup_succeeds scheme env fl cfg rt \<longleftrightarrow>
     rt_GetConfig rt = None \<and> rt_NewManager rt (manager_options_of scheme fl) = None \<and>
     (webhooks_enabled env \<longrightarrow> SetupAgenticAutoscalerWebhookWithManager (rt_CompleteWebhook rt) = None) \<and>
     SetupWithManager (rt_CompleteController rt) cfg (initial_controller cfg) = None \<and>
     rt_AddHealthzCheck rt ''healthz'' = None \<and> rt_AddReadyzCheck rt ''readyz'' = None"

definition no_start :: "'s main_event list \<Rightarrow> bool" where
  "no_start evs \<longleftrightarrow> StartManager \<notin> set evs \<and> (\<forall>k. GoExplainer k \<notin> set evs)"

fun reports_error :: "'s main_event \<Rightarrow> bool" where
  "reports_error (SetupError _ _) = True"
| "reports_error (GetConfigError _) = True"
| "reports_error _ = False"

text \<open>A run that started: the manager was created with the scheme, the controller registered with its initial
  state, the webhook too unless it is switched off, then the explainer was started, once, and the manager
  after it.\<close>

definition started_completely :: "'s \<Rightarrow> (string \<Rightarrow> string) \<Rightarrow> flags \<Rightarrow> config \<Rightarrow> 's main_event list \<Rightarrow> bool" where
  "started_completely scheme env fl cfg evs \<longleftrightarrow>
     (\<exists>pre post. evs = pre @ [GoExplainer (explainer_config cfg), StartManager] @ post \<and>
        CreateManager (manager_options_of scheme fl) \<in> set pre \<and>
        RegisterController cfg (initial_controller cfg) \<in> set pre \<and>
        (RegisterWebhook \<in> set pre \<longleftrightarrow> webhooks_enabled env) \<and> no_start (pre @ post))"

lemmas main_defs = main_def start_main_def must_def after_def GetConfigOrDie_def setup_webhook_def setup_succeeds_def

lemma main_starts:
  assumes "LoadFromEnv env = Inr cfg" and "setup_succeeds scheme env fl cfg rt"
  shows "started_completely scheme env fl cfg (fst (main scheme env fl rt)) \<and>
     snd (main scheme env fl rt) = (if rt_Start rt = None then Returned else Exit 1)"
proof -
  let ?pre = "[SetupInfo (''loaded config'' @ [CHR 0x0A] @ Summary cfg), CreateManager (manager_options_of scheme fl)]
    @ (if webhooks_enabled env then [RegisterWebhook] else [])
    @ [RegisterController cfg (initial_controller cfg), SetupInfo ''starting manager'']"
  let ?post = "case rt_Start rt of None \<Rightarrow> [] | Some e \<Rightarrow> [SetupError e ''problem running manager'']"
  have "fst (main scheme env fl rt) = ?pre @ [GoExplainer (explainer_config cfg), StartManager] @ ?post"
    "snd (main scheme env fl rt) = (if rt_Start rt = None then Returned else Exit 1)"
    using assms by (simp_all add: main_defs split: option.split)
  moreover have "no_start (?pre @ ?post)" by (simp add: no_start_def split: option.split)
  moreover have "RegisterWebhook \<in> set ?pre \<longleftrightarrow> webhooks_enabled env" by simp
  ultimately show ?thesis
    unfolding started_completely_def by (intro conjI exI [of _ ?pre] exI [of _ ?post]) simp_all
qed

lemma main_config_error: "LoadFromEnv env = Inl errs \<Longrightarrow> main scheme env fl rt = ([Stderr errs], Exit 1)"
  by (simp add: main_def start_main_def)

lemma main_gives_up:
  assumes "LoadFromEnv env = Inr cfg" and "\<not> setup_succeeds scheme env fl cfg rt"
  shows "\<exists>pre ev. main scheme env fl rt = (pre @ [ev], Exit 1) \<and> reports_error ev \<and> no_start pre"
  using assms
  by (auto simp: main_defs no_start_def append_eq_Cons_conv Cons_eq_append_conv split: option.splits)

text \<open>C25. The operator serves only when it is completely set up. On a fresh metrics registry the package
  initialisers succeed and leave a scheme that knows the operator's own kinds, the resource and its list,
  and every kind that client-go registers, none lost. Arguments that do not parse end the process at once; a configuration that does not load is reported and ends it with
  status 1. Otherwise, when every set-up call succeeds, the manager is created with that scheme, the
  controller registered with the initial state, the webhook too unless it is switched off, then the
  explainer is started, once, and the manager after it; when one fails, neither is started, the error is
  the last thing logged, and the process ends with status 1.\<close>

theorem operator_all_or_nothing:
  assumes "scheme_laws sl" and "registry_laws rg" and "co_Name ` set collectors \<inter> rg_names rg registry = {}"
  shows "\<exists>scheme. scheme_complete sl scheme \<and>
     (case flag_Parse lib args default_flags of
        Inl e \<Rightarrow> operator_process sl rg registry lib args env rt = ([Usage e], Exit (parse_exit_code e))
      | Inr (fl, _) \<Rightarrow>
          (case LoadFromEnv env of
             Inl errs \<Rightarrow> operator_process sl rg registry lib args env rt = ([Stderr errs], Exit 1)
           | Inr cfg \<Rightarrow>
               if setup_succeeds scheme env fl cfg rt then
                 started_completely scheme env fl cfg (fst (operator_process sl rg registry lib args env rt)) \<and>
                 snd (operator_process sl rg registry lib args env rt) = (if rt_Start rt = None then Returned else Exit 1)
               else
                 \<exists>pre ev. operator_process sl rg registry lib args env rt = (pre @ [ev], Exit 1) \<and> reports_error ev \<and> no_start pre))"
proof -
  obtain scheme registry' where init: "package_init sl rg registry = Inr (scheme, registry')"
      "scheme_complete sl scheme"
    using package_init_once [OF assms] by blast
  then show ?thesis
    by (intro exI [of _ scheme])
      (simp add: operator_process_def main_starts main_gives_up main_config_error split: sum.split prod.split)
qed

text \<open>Libraries that keep their promises, a scheme being the list of its kinds and a registry the list of
  its collectors; a few of the kinds of client-go, among them the body of the scale patch.\<close>

definition some_builtin_kinds :: "gvk list" where
  "some_builtin_kinds =
     [(\<lparr>gv_Group = ''apps'', gv_Version = ''v1''\<rparr>, ''Deployment''),
      (\<lparr>gv_Group = ''autoscaling'', gv_Version = ''v1''\<rparr>, ''Scale''),
      (\<lparr>gv_Group = ''autoscaling'', gv_Version = ''v2''\<rparr>, ''HorizontalPodAutoscalerList''),
      (\<lparr>gv_Group = '''', gv_Version = ''v1''\<rparr>, ''Event'')]"

definition list_scheme :: "(gvk list, group_version \<times> string list) scheme_lib" where
  "list_scheme = \<lparr>sl_NewScheme = [], sl_Builder = \<lambda>gv. (gv, []), sl_Register = \<lambda>(gv, ks) ks'. (gv, ks @ ks'),
     sl_AddToScheme = \<lambda>(gv, ks) s. Inr (s @ map (Pair gv) ks), sl_clientgo = \<lambda>s. Inr (s @ some_builtin_kinds),
     sl_Recognizes = \<lambda>s k. k \<in> set s\<rparr>"

definition list_registry :: "collector list registry_lib" where
  "list_registry = \<lparr>rg_Register = \<lambda>r c. if co_Name c \<in> co_Name ` set r then Inl ''duplicate metrics collector registration attempted''
       else Inr (c # r), rg_names = \<lambda>r. co_Name ` set r, rg_has = \<lambda>r c. c \<in> set r\<rparr>"

definition runtime_metrics :: "collector list" where
  "runtime_metrics = [\<lparr>co_kind = GaugeVec, co_Name = ''go_goroutines'', co_labels = []\<rparr>]"

definition answering_runtime :: "gvk list runtime" where
  "answering_runtime = \<lparr>rt_GetConfig = None, rt_NewManager = \<lambda>_. None, rt_CompleteWebhook = \<lambda>_. None,
     rt_CompleteController = \<lambda>_. None, rt_AddHealthzCheck = \<lambda>_. None, rt_AddReadyzCheck = \<lambda>_. None, rt_Start = None\<rparr>"

lemma list_laws: "scheme_laws list_scheme" "registry_laws list_registry"
    "co_Name ` set collectors \<inter> rg_names list_registry runtime_metrics = {}"
proof -
  show "scheme_laws list_scheme"
    by (auto simp: scheme_laws_def list_scheme_def some_builtin_kinds_def GroupVersion_def)
  show "registry_laws list_registry"
    by (auto simp: registry_laws_def list_registry_def split: if_splits)
  show "co_Name ` set collectors \<inter> rg_names list_registry runtime_metrics = {}"
    by (simp add: list_registry_def collectors_def runtime_metrics_def)
qed

theorem operator_all_or_nothing_witness:
  "\<exists>scheme. started_completely scheme default_env default_flags default_config
     (fst (operator_process list_scheme list_registry runtime_metrics (\<lambda>_. None) [] default_env answering_runtime))"
proof -
  have "setup_succeeds scheme default_env default_flags default_config answering_runtime" for scheme
    by (simp add: setup_succeeds_def answering_runtime_def SetupAgenticAutoscalerWebhookWithManager_def SetupWithManager_def)
  then show ?thesis
    using operator_all_or_nothing [OF list_laws, of "\<lambda>_. None" "[]" default_env answering_runtime]
    by (auto simp: flag_Parse_done LoadFromEnv_defaults)
qed

text \<open>Unless HTTP/2 is asked for, both TLS servers offer HTTP/1.1 only; a secure metrics endpoint
  authenticates its callers.\<close>

lemma servers_hardened:
  "\<not> fl_enableHTTP2 fl \<Longrightarrow> tls_NextProtos (foldl (\<lambda>c f. f c) tls (mn_WebhookTLSOpts (manager_options_of scheme fl))) = [''http/1.1'']"
  "\<not> fl_enableHTTP2 fl \<Longrightarrow> tls_NextProtos (foldl (\<lambda>c f. f c) tls (mo_TLSOpts (mn_Metrics (manager_options_of scheme fl)))) = [''http/1.1'']"
  "mo_SecureServing (mn_Metrics (manager_options_of scheme fl)) = mo_Authenticated (mn_Metrics (manager_options_of scheme fl))"
  by (simp_all add: manager_options_of_def metricsServerOptions_def tlsOpts_def disableHTTP2_def Let_def)

end
