(* ===== verification/TargetApp.thy ===== *)
theory TargetApp
  imports GoText Channel
begin

text \<open>
  \<^verbatim>\<open>target-app/internal/server\<close>: the instrumented HTTP server that is scaled. Its state is the
  readiness flag, the semaphore channel and the two metric vectors that the autoscaler's queries
  read; \<^verbatim>\<open>/work\<close> requests run concurrently, so a request is a program counter and the server a step
  relation over all of them (\<open>tstep\<close>), one step per access to the shared state.

  The last section is \<^verbatim>\<open>k6/lib/testserver.go\<close>, a stand-in for the server in local load tests.

  Lemmas: the invariant \<open>srv_inv\<close> ties the semaphore and every counter to the program counters; from
  it, the concurrency limit and the exact accounting of requests.
\<close>

section \<open>Configuration\<close>

record target_config =
  tc_Concurrency :: int
  tc_WorkDurationMS :: int
  tc_WorkJitterMS :: int
  tc_DeploymentName :: string

definition DefaultConfig :: target_config where
  "DefaultConfig = \<lparr>tc_Concurrency = 8, tc_WorkDurationMS = 50, tc_WorkJitterMS = 30, tc_DeploymentName = ''unknown''\<rparr>"

definition ta_envIntOrDefault :: "(string \<Rightarrow> string) \<Rightarrow> string \<Rightarrow> int \<Rightarrow> int" where
  "ta_envIntOrDefault env name def =
     (let raw = env name in
      if raw = '''' then def
      else case ParseInt 64 raw of Inl _ \<Rightarrow> def | Inr v \<Rightarrow> if v < 0 then def else v)"

definition LoadConfig :: "(string \<Rightarrow> string) \<Rightarrow> target_config" where
  "LoadConfig env =
     (let cfg = DefaultConfig;
          cfg = cfg\<lparr>tc_Concurrency := ta_envIntOrDefault env ''TARGET_CONCURRENCY'' (tc_Concurrency cfg)\<rparr>;
          cfg = cfg\<lparr>tc_WorkDurationMS := ta_envIntOrDefault env ''TARGET_WORK_DURATION_MS'' (tc_WorkDurationMS cfg)\<rparr>;
          cfg = cfg\<lparr>tc_WorkJitterMS := ta_envIntOrDefault env ''TARGET_WORK_JITTER_MS'' (tc_WorkJitterMS cfg)\<rparr>
      in if env ''DEPLOYMENT_NAME'' \<noteq> '''' then cfg\<lparr>tc_DeploymentName := env ''DEPLOYMENT_NAME''\<rparr> else cfg)"

text \<open>The address \<^verbatim>\<open>main\<close> listens on.\<close>

definition listen_addr :: "(string \<Rightarrow> string) \<Rightarrow> string" where
  "listen_addr env = '':'' @ (if env ''TARGET_PORT'' = '''' then ''8080'' else env ''TARGET_PORT'')"

section \<open>Server\<close>

record server =
  sv_cfg :: target_config
  sv_ready :: bool
  sv_deployment :: string \<comment> \<open>the constant label of both vectors\<close>
  sv_histogram :: "string \<rightharpoonup> nat" \<comment> \<open>path to number of observations\<close>
  sv_counter :: "string \<times> string \<rightharpoonup> nat" \<comment> \<open>path and status\<close>
  sv_sem :: "unit channel"

text \<open>\<^verbatim>\<open>make\<close> panics on a negative channel size.\<close>

definition NewServer :: "target_config \<Rightarrow> server option" where
  "NewServer cfg =
     (if tc_Concurrency cfg < 0 then None
      else Some \<lparr>sv_cfg = cfg, sv_ready = True,
        sv_deployment = (if tc_DeploymentName cfg = '''' then ''unknown'' else tc_DeploymentName cfg),
        sv_histogram = [''/work'' \<mapsto> 0],
        sv_counter = [(''/work'', ''200'') \<mapsto> 0, (''/work'', ''503'') \<mapsto> 0],
        sv_sem = make_chan (nat (tc_Concurrency cfg))\<rparr>)"

definition SetReady :: "server \<Rightarrow> bool \<Rightarrow> server" where
  "SetReady s ready = s\<lparr>sv_ready := ready\<rparr>"

text \<open>A response: status code and body.\<close>

definition jsonbody :: "(string \<times> string) list \<Rightarrow> string" where
  "jsonbody kvs = (let q = [CHR 0x22] in
     ''{'' @ join '','' (map (\<lambda>(k, v). q @ k @ q @ '':'' @ q @ v @ q) kvs) @ ''}'')"

definition handleHealthz :: "server \<Rightarrow> int \<times> string" where
  "handleHealthz s = (200, jsonbody [(''status'', ''ok'')])"

definition handleReadyz :: "server \<Rightarrow> int \<times> string" where
  "handleReadyz s =
     (if \<not> sv_ready s then (503, jsonbody [(''status'', ''not_ready'')]) else (200, jsonbody [(''status'', ''ready'')]))"

text \<open>How long \<^verbatim>\<open>/work\<close> sleeps; \<open>jitter\<close> is the draw of \<^verbatim>\<open>rand.IntN\<close>, which is at least zero and
  below its bound. The product and the sum wrap like \<^verbatim>\<open>int64\<close>.\<close>

definition work_duration :: "target_config \<Rightarrow> int \<Rightarrow> duration" where
  "work_duration cfg jitter =
     (let dur = word_of_int (tc_WorkDurationMS cfg) * 1000000
      in if tc_WorkJitterMS cfg > 0 then dur + word_of_int jitter * 1000000 else dur)"

text \<open>The routing table, on cleaned paths; every pattern matches its own path only.\<close>

datatype route = RouteHealthz | RouteReadyz | RouteWork | RouteMetrics

definition Handler :: "string \<Rightarrow> route option" where
  "Handler path = map_of [(''/healthz'', RouteHealthz), (''/readyz'', RouteReadyz), (''/work'', RouteWork), (''/metrics'', RouteMetrics)] path"

text \<open>\<^verbatim>\<open>main\<close>: the server it builds, the address and the timeouts it serves with, and the line it logs.\<close>

record http_server =
  hs_Addr :: string
  hs_server :: server
  hs_ReadHeaderTimeout :: duration
  hs_ReadTimeout :: duration
  hs_WriteTimeout :: duration
  hs_IdleTimeout :: duration

definition start_line :: "(string \<Rightarrow> string) \<Rightarrow> string" where
  "start_line env = (let cfg = LoadConfig env in
     ''target-app starting: addr='' @ listen_addr env @ '' concurrency='' @ itoa (tc_Concurrency cfg)
     @ '' work_duration_ms='' @ itoa (tc_WorkDurationMS cfg) @ '' work_jitter_ms='' @ itoa (tc_WorkJitterMS cfg))"

definition target_main :: "(string \<Rightarrow> string) \<Rightarrow> http_server option" where
  "target_main env =
     map_option (\<lambda>srv. \<lparr>hs_Addr = listen_addr env, hs_server = srv, hs_ReadHeaderTimeout = 5 * Second,
       hs_ReadTimeout = 30 * Second, hs_WriteTimeout = 30 * Second, hs_IdleTimeout = 120 * Second\<rparr>)
     (NewServer (LoadConfig env))"

section \<open>Requests\<close>

text \<open>One \<^verbatim>\<open>/work\<close> request: arrived; past the semaphore and sleeping; counted; its slot released;
  refused; counted as refused; and answered with its status.\<close>

datatype work_pc = Arrived | Working | Counted | Released | Refused | RefusedCounted | Answered int

definition bump :: "('k \<rightharpoonup> nat) \<Rightarrow> 'k \<Rightarrow> 'k \<rightharpoonup> nat" where
  "bump m k = m(k \<mapsto> Suc (case m k of None \<Rightarrow> 0 | Some n \<Rightarrow> n))"

definition count_status :: "server \<Rightarrow> string \<Rightarrow> server" where
  "count_status s status = s\<lparr>sv_counter := bump (sv_counter s) (''/work'', status)\<rparr>"

definition observe_duration :: "server \<Rightarrow> server" where
  "observe_duration s = s\<lparr>sv_histogram := bump (sv_histogram s) ''/work''\<rparr>"

fun handleWork :: "server \<Rightarrow> work_pc \<Rightarrow> server \<times> work_pc" where
  "handleWork s Arrived =
     (case try_send (sv_sem s) () of
        (True, sem) \<Rightarrow> (s\<lparr>sv_sem := sem\<rparr>, Working)
      | (False, sem) \<Rightarrow> (s, Refused))"
| "handleWork s Refused = (count_status s ''503'', RefusedCounted)"
| "handleWork s RefusedCounted = (observe_duration s, Answered 503)"
| "handleWork s Working = (count_status s ''200'', Counted)"
| "handleWork s Counted = (s\<lparr>sv_sem := snd (try_recv (sv_sem s))\<rparr>, Released)"
| "handleWork s Released = (observe_duration s, Answered 200)"
| "handleWork s (Answered code) = (s, Answered code)"

text \<open>The body that goes with a status.\<close>

definition work_body :: "int \<Rightarrow> string" where
  "work_body code = (if code = 200 then jsonbody [(''work'', ''done'')] else jsonbody [(''work'', ''rejected''), (''reason'', ''overloaded'')])"

record target =
  tg_server :: server
  tg_requests :: "work_pc list"

inductive tstep :: "target \<Rightarrow> target \<Rightarrow> bool" where
  arrive: "tstep t (t\<lparr>tg_requests := tg_requests t @ [Arrived]\<rparr>)"
| work: "i < length (tg_requests t) \<Longrightarrow> handleWork (tg_server t) (tg_requests t ! i) = (s, pc) \<Longrightarrow>
    tstep t \<lparr>tg_server = s, tg_requests = (tg_requests t)[i := pc]\<rparr>"
| ready: "tstep t (t\<lparr>tg_server := SetReady (tg_server t) b\<rparr>)"

inductive treach :: "target_config \<Rightarrow> target \<Rightarrow> bool" for cfg where
  start: "NewServer cfg = Some s \<Longrightarrow> treach cfg \<lparr>tg_server = s, tg_requests = []\<rparr>"
| step: "treach cfg t \<Longrightarrow> tstep t t' \<Longrightarrow> treach cfg t'"

inductive_cases tstepE: "tstep t t'"

section \<open>Invariant\<close>

text \<open>Which requests hold a slot, have been counted under a status, and have been observed.\<close>

fun holds_slot :: "work_pc \<Rightarrow> bool" where
  "holds_slot pc = (pc \<in> {Working, Counted})"

fun counted :: "int \<Rightarrow> work_pc \<Rightarrow> bool" where
  "counted code pc = (pc = Answered code \<or> code = 200 \<and> pc \<in> {Counted, Released} \<or> code = 503 \<and> pc = RefusedCounted)"

fun answered :: "work_pc \<Rightarrow> bool" where
  "answered (Answered code) = True"
| "answered _ = False"

lemma answered_iff: "answered pc \<longleftrightarrow> (\<exists>code. pc = Answered code)"
  by (cases pc) simp_all

definition number :: "(work_pc \<Rightarrow> bool) \<Rightarrow> target \<Rightarrow> nat" where
  "number P t = length (filter P (tg_requests t))"

definition srv_inv :: "target_config \<Rightarrow> target \<Rightarrow> bool" where
  "srv_inv cfg t \<longleftrightarrow>
     ch_cap (sv_sem (tg_server t)) = nat (tc_Concurrency cfg) \<and>
     length (ch_buf (sv_sem (tg_server t))) = number holds_slot t \<and>
     number holds_slot t \<le> nat (tc_Concurrency cfg) \<and>
     sv_counter (tg_server t) (''/work'', ''200'') = Some (number (counted 200) t) \<and>
     sv_counter (tg_server t) (''/work'', ''503'') = Some (number (counted 503) t) \<and>
     sv_histogram (tg_server t) ''/work'' = Some (number answered t) \<and>
     (\<forall>code. Answered code \<in> set (tg_requests t) \<longrightarrow> code \<in> {200, 503})"

lemma count_update:
  "i < length xs \<Longrightarrow> length (filter P (xs[i := y])) + (if P (xs ! i) then 1 else 0) =
     length (filter P xs) + (if P y then 1 else 0)"
proof (induction xs arbitrary: i)
  case (Cons x xs)
  then show ?case by (cases i) auto
qed simp

text \<open>Where the predicate does not change at the updated place, neither does the number; where it
  starts to hold the number grows by one, where it ceases to it shrinks.\<close>

lemma count_same: "i < length xs \<Longrightarrow> P (xs ! i) = P y \<Longrightarrow> length (filter P (xs[i := y])) = length (filter P xs)"
  using count_update [of i xs P y] by (simp split: if_splits)

lemma count_more: "i < length xs \<Longrightarrow> \<not> P (xs ! i) \<Longrightarrow> P y \<Longrightarrow> length (filter P (xs[i := y])) = Suc (length (filter P xs))"
  using count_update [of i xs P y] by simp

lemma count_less: "i < length xs \<Longrightarrow> P (xs ! i) \<Longrightarrow> \<not> P y \<Longrightarrow> length (filter P (xs[i := y])) = length (filter P xs) - 1"
  using count_update [of i xs P y] by simp

lemma srv_inv_start: "NewServer cfg = Some s \<Longrightarrow> srv_inv cfg \<lparr>tg_server = s, tg_requests = []\<rparr>"
  by (auto simp: NewServer_def srv_inv_def number_def make_chan_def split: if_splits)

lemma srv_inv_work:
  assumes "srv_inv cfg t" and "i < length (tg_requests t)"
    and "handleWork (tg_server t) (tg_requests t ! i) = (s, pc)"
  shows "srv_inv cfg \<lparr>tg_server = s, tg_requests = (tg_requests t)[i := pc]\<rparr>"
proof (cases "tg_requests t ! i")
  case Arrived
  then show ?thesis
    using assms by (auto simp: srv_inv_def number_def try_send_def count_same count_more
        dest!: set_update_subset_insert [THEN subsetD] split: if_splits)
next
  case Counted
  have "filter holds_slot (tg_requests t) \<noteq> []"
    using Counted nth_mem [OF assms(2)] by (auto simp: filter_empty_conv)
  then obtain u us where "ch_buf (sv_sem (tg_server t)) = u # us"
    using assms(1) by (cases "ch_buf (sv_sem (tg_server t))") (auto simp: srv_inv_def number_def)
  then show ?thesis
    using Counted assms by (auto simp: srv_inv_def number_def try_recv_def count_same count_less
        dest!: set_update_subset_insert [THEN subsetD])
next
  case (Answered code)
  then show ?thesis using assms by (cases t) (auto simp: list_update_same_conv [THEN iffD2])
qed (use assms in \<open>auto simp: srv_inv_def number_def count_status_def observe_duration_def bump_def
      count_same count_more dest!: set_update_subset_insert [THEN subsetD]\<close>)

lemma treach_inv: "treach cfg t \<Longrightarrow> srv_inv cfg t"
proof (induction rule: treach.induct)
  case (start s)
  then show ?case by (rule srv_inv_start)
next
  case (step t t')
  from step.hyps(2) step.IH show ?case
  proof cases
    case arrive
    then show ?thesis using step.IH by (auto simp: srv_inv_def number_def)
  next
    case (work i s pc)
    then show ?thesis using srv_inv_work [OF step.IH] by simp
  next
    case (ready b)
    then show ?thesis using step.IH by (auto simp: srv_inv_def number_def SetReady_def)
  qed
qed

text \<open>Whatever the environment holds, the server starts: no variable can make the semaphore negative.\<close>

lemma ta_env_nonneg: "0 \<le> def \<Longrightarrow> 0 \<le> ta_envIntOrDefault env name def"
  by (simp add: ta_envIntOrDefault_def Let_def split: sum.splits)

lemma LoadConfig_nonneg:
  "0 \<le> tc_Concurrency (LoadConfig env)" "0 \<le> tc_WorkDurationMS (LoadConfig env)" "0 \<le> tc_WorkJitterMS (LoadConfig env)"
  by (simp_all add: LoadConfig_def DefaultConfig_def Let_def ta_env_nonneg)

lemma target_starts: "\<exists>hs. target_main env = Some hs \<and> treach (LoadConfig env) \<lparr>tg_server = hs_server hs, tg_requests = []\<rparr>"
proof -
  obtain srv where "NewServer (LoadConfig env) = Some srv"
    using LoadConfig_nonneg(1) [of env] by (simp add: NewServer_def)
  then show ?thesis by (simp add: target_main_def treach.start)
qed

text \<open>C38. The server holds its concurrency limit and refuses only when it is reached: in every state the
  server can reach, the requests past the semaphore are at most the configured number, and the next
  request is refused iff they are exactly that many.\<close>

theorem concurrency_limit:
  assumes "treach cfg t" and "0 \<le> tc_Concurrency cfg"
  shows "int (number holds_slot t) \<le> tc_Concurrency cfg \<and>
     (snd (handleWork (tg_server t) Arrived) = Refused \<longleftrightarrow> int (number holds_slot t) = tc_Concurrency cfg)"
proof -
  have "number holds_slot t \<le> nat (tc_Concurrency cfg)"
    "length (ch_buf (sv_sem (tg_server t))) = number holds_slot t"
    "ch_cap (sv_sem (tg_server t)) = nat (tc_Concurrency cfg)"
    using treach_inv [OF assms(1)] by (auto simp: srv_inv_def)
  then show ?thesis using assms(2) by (auto simp: try_send_def)
qed

definition closed_cfg :: target_config where
  "closed_cfg = DefaultConfig\<lparr>tc_Concurrency := 0\<rparr>"

definition closed_server :: server where
  "closed_server = \<lparr>sv_cfg = closed_cfg, sv_ready = True, sv_deployment = ''unknown'', sv_histogram = [''/work'' \<mapsto> 0],
     sv_counter = [(''/work'', ''200'') \<mapsto> 0, (''/work'', ''503'') \<mapsto> 0], sv_sem = make_chan 0\<rparr>"

lemma closed_start: "treach closed_cfg \<lparr>tg_server = closed_server, tg_requests = []\<rparr>"
  by (rule treach.start) (simp add: NewServer_def closed_server_def closed_cfg_def DefaultConfig_def)

theorem concurrency_limit_witness:
  "snd (handleWork closed_server Arrived) = Refused"
  using concurrency_limit [OF closed_start] by (simp add: closed_cfg_def number_def)

text \<open>C39. The request counters the autoscaler reads are exact: once every request has been answered, the
  counters of statuses 200 and 503 are the numbers of such answers and add up to the number of
  requests, which is also the number of durations observed, and every slot is free again.\<close>

theorem requests_accounted:
  assumes "treach cfg t" and "list_all answered (tg_requests t)"
  shows "\<exists>ok refused. sv_counter (tg_server t) (''/work'', ''200'') = Some ok \<and>
     sv_counter (tg_server t) (''/work'', ''503'') = Some refused \<and>
     ok = length (filter ((=) (Answered 200)) (tg_requests t)) \<and> ok + refused = length (tg_requests t) \<and>
     sv_histogram (tg_server t) ''/work'' = Some (ok + refused) \<and> ch_buf (sv_sem (tg_server t)) = []"
proof -
  have i: "srv_inv cfg t" by (rule treach_inv [OF assms(1)])
  have codes: "pc = Answered 200 \<or> pc = Answered 503" if "pc \<in> set (tg_requests t)" for pc
    using that i assms(2) by (auto simp: srv_inv_def list_all_iff answered_iff)
  have slots: "filter holds_slot (tg_requests t) = []"
    by (rule filter_False) (use codes in fastforce)
  have "filter (counted 200) (tg_requests t) = filter ((=) (Answered 200)) (tg_requests t)"
    "filter (counted 503) (tg_requests t) = filter (\<lambda>pc. Answered 200 \<noteq> pc) (tg_requests t)"
    "filter answered (tg_requests t) = tg_requests t"
    by (rule filter_cong [OF refl], use codes in fastforce)+
       (use assms(2) in \<open>simp add: list_all_iff\<close>)
  then show ?thesis
    using i slots sum_length_filter_compl [of "(=) (Answered 200)" "tg_requests t"]
    by (simp add: srv_inv_def number_def)
qed

theorem requests_accounted_witness:
  "\<exists>t. treach closed_cfg t \<and> tg_requests t = [Answered 503] \<and>
     sv_counter (tg_server t) (''/work'', ''503'') = Some 1 \<and> sv_counter (tg_server t) (''/work'', ''200'') = Some 0"
proof -
  let ?t = "\<lambda>s pc. \<lparr>tg_server = s, tg_requests = [pc]\<rparr>"
  have go: "treach closed_cfg (?t s' pc')" if "treach closed_cfg (?t s pc)" "handleWork s pc = (s', pc')" for s pc s' pc'
    using treach.step [OF that(1) tstep.work [of 0]] that(2) by simp
  have "treach closed_cfg (?t closed_server Arrived)"
    using treach.step [OF closed_start tstep.arrive] by simp
  then have "treach closed_cfg (?t closed_server Refused)"
    by (rule go) (simp add: closed_server_def try_send_def make_chan_def)
  then have "treach closed_cfg (?t (count_status closed_server ''503'') RefusedCounted)"
    by (rule go) simp
  then have "treach closed_cfg (?t (observe_duration (count_status closed_server ''503'')) (Answered 503))"
    by (rule go) simp
  then show ?thesis
    using requests_accounted [of closed_cfg "?t (observe_duration (count_status closed_server ''503'')) (Answered 503)"]
    by (intro exI [of _ "?t (observe_duration (count_status closed_server ''503'')) (Answered 503)"]) auto
qed

text \<open>A request needs at most four steps of its own, whatever happens to the server in between.\<close>

lemma request_answered:
  assumes "length ss = 4"
  shows "\<exists>code. foldl (\<lambda>pc s. snd (handleWork s pc)) Arrived ss = Answered code \<and> code \<in> {200, 503}"
proof -
  obtain a b c d where "ss = [a, b, c, d]" using assms by (auto simp: length_Suc_conv numeral_eq_Suc)
  then show ?thesis by (cases "try_send (sv_sem a) ()") (auto split: bool.splits)
qed

section \<open>The stand-in for local load tests\<close>

text \<open>The response to a path: how long it sleeps first, status and body; other paths are not found.\<close>

definition testserver_port :: "(string \<Rightarrow> string) \<Rightarrow> string" where
  "testserver_port env = (if env ''PORT'' \<noteq> '''' then env ''PORT'' else ''8080'')"

definition testserver_handler :: "string \<Rightarrow> (duration \<times> int \<times> string) option" where
  "testserver_handler path = map_of
     [(''/work'', (word_of_int 5000000, 200, jsonbody [(''status'', ''ok'')])), (''/healthz'', (0, 200, ''''))] path"

definition testserver_main :: "(string \<Rightarrow> string) \<Rightarrow> (string \<Rightarrow> string option) \<Rightarrow> string list \<times> string list \<times> int" where
  "testserver_main env listen =
     (let addr = '':'' @ testserver_port env; hello = ''test server listening on '' @ addr @ [CHR 0x0A]
      in case listen addr of None \<Rightarrow> ([hello], [], 0) | Some err \<Rightarrow> ([hello], [''server error: '' @ err @ [CHR 0x0A]], 1))"

text \<open>It answers \<^verbatim>\<open>/work\<close> with the status of an accepted request, but not with its body.\<close>

lemma testserver_work: "\<exists>d body. testserver_handler ''/work'' = Some (d, 200, body) \<and> body \<noteq> work_body 200"
  by (simp add: testserver_handler_def work_body_def jsonbody_def Let_def)

end
