(* ===== verification/DeepCopy.thy ===== *)
theory DeepCopy
  imports Api "HOL-Library.Sublist" "HOL-Library.Monad_Syntax"
begin

text \<open>
  \<^verbatim>\<open>api/v1alpha1/zz_generated.deepcopy.go\<close>: the deep copies of the API types, over an explicit store. The
  cache of the controller runtime hands out copies made by these functions, and the reconciler and the
  classifier then change what they were given; the other theories treat a resource as a value, and
  this one shows that they may.

  A store is the list of the cells allocated so far; a pointer is an index; a struct holds pointers
  where the Go type does. \<^verbatim>\<open>view\<close> functions read the value of \<open>Api\<close> that a struct stands for, \<^verbatim>\<open>reach\<close>
  functions collect the cells it depends on. The locale \<open>deep_copier\<close> is the contract of a deep copy:
  same value, only new cells, nothing old changed. It is closed under pairs, lists, pointers and
  slices, so each generated function inherits it from its fields. The copies of \<^verbatim>\<open>metav1.ObjectMeta\<close> and
  \<^verbatim>\<open>metav1.ListMeta\<close> are library code and a parameter under the same contract.
\<close>

section \<open>The store\<close>

type_synonym ptr = nat

record slice =
  sl_array :: ptr
  sl_offset :: nat
  sl_len :: nat

record context_struct =
  ctx_BaselineRPS :: int32
  ctx_PeakP95RPS :: int32
  ctx_Trend24hSlope :: float64
  ctx_HourlyProfile :: "slice option"
  ctx_HourlyProfileValid :: bool

record params_struct =
  par_Pattern :: string
  par_ScaleUpCooldownSeconds :: int32
  par_ScaleDownCooldownSeconds :: int32
  par_MaxStepSize :: int32
  par_PreferredForecaster :: string
  par_ClassifiedAt :: time
  par_HistoryPoints :: int32
  par_Confidence :: string
  par_Context :: "ptr option"

record spec_struct =
  sp_TargetRef :: cross_version_ref
  sp_MinReplicas :: "ptr option"
  sp_MaxReplicas :: "ptr option"
  sp_RpsPerPodMin :: "ptr option"
  sp_RpsPerPodMax :: "ptr option"
  sp_MaxStepSize :: "ptr option"
  sp_ScaleUpCooldownSeconds :: "ptr option"
  sp_ScaleDownCooldownSeconds :: "ptr option"
  sp_PreferredForecaster :: "ptr option"

record status_struct =
  sta_Phase :: phase
  sta_ConflictReason :: string
  sta_CurrentReplicas :: int32
  sta_RecommendedReplicas :: int32
  sta_UnboundedRecommended :: int32
  sta_PredictedRPS :: int32
  sta_RpsPerPodCurrent :: int32
  sta_LastScaleTime :: "ptr option"
  sta_ClassifiedParams :: "ptr option"

type_synonym type_meta = "string \<times> string"

record 'm object_struct =
  ob_TypeMeta :: type_meta
  ob_ObjectMeta :: 'm
  ob_Spec :: spec_struct
  ob_Status :: status_struct

record 'm list_struct =
  li_TypeMeta :: type_meta
  li_ListMeta :: 'm
  li_Items :: "slice option"

text \<open>The last constructor is memory of the metadata, whose layout is the library's.\<close>

datatype 'm cell =
    Int32Cell int32 | StringCell string | TimeCell time | Int32Array "int32 list"
  | RefCell cross_version_ref | ContextCell context_struct | ParamsCell params_struct | SpecCell spec_struct
  | StatusCell status_struct | ObjectCell "'m object_struct" | ObjectArray "'m object_struct list" | ListCell "'m list_struct"
  | MetaMap "(string \<times> string) list"

type_synonym 'm store = "'m cell list"

definition load :: "'m store \<Rightarrow> ptr \<Rightarrow> 'm cell option" where
  "load h p = (if p < length h then Some (h ! p) else None)"

text \<open>\<^verbatim>\<open>new(T)\<close> and \<^verbatim>\<open>make\<close>: a cell that no pointer of the store refers to.\<close>

definition alloc :: "'m store \<Rightarrow> 'm cell \<Rightarrow> 'm store \<times> ptr" where
  "alloc h c = (h @ [c], length h)"

lemma load_alloc [simp]: "load (h @ [c]) (length h) = Some c"
  by (simp add: load_def)

lemma load_prefix: "prefix h h' \<Longrightarrow> p < length h \<Longrightarrow> load h' p = load h p"
  by (auto simp: load_def prefix_def nth_append)

lemma load_valid: "load h p = Some c \<Longrightarrow> p < length h"
  by (simp add: load_def split: if_splits)

section \<open>The contract of a deep copy\<close>

locale deep_copier =
  fixes view :: "'m store \<Rightarrow> 'a \<Rightarrow> 'v option"
    and reach :: "'m store \<Rightarrow> 'a \<Rightarrow> ptr set"
    and copy :: "'m store \<Rightarrow> 'a \<Rightarrow> 'm store \<times> 'a"
  assumes copy_grows: "copy h x = (h', y) \<Longrightarrow> prefix h h'"
    and copy_view: "copy h x = (h', y) \<Longrightarrow> view h x = Some v \<Longrightarrow> view h' y = Some v"
    and copy_fresh: "copy h x = (h', y) \<Longrightarrow> view h x = Some v \<Longrightarrow> reach h' y \<subseteq> {length h..<length h'}"
    and frame: "view h x = Some v \<Longrightarrow> \<forall>p\<in>reach h x. load h' p = load h p \<Longrightarrow>
      view h' x = Some v \<and> reach h' x = reach h x"
    and reach_valid: "view h x = Some v \<Longrightarrow> reach h x \<subseteq> {..<length h}"
begin

lemma grown:
  assumes "prefix h h'" and "view h x = Some v"
  shows "view h' x = Some v" and "reach h' x = reach h x"
  using frame [OF assms(2), of h'] load_prefix [OF assms(1)] reach_valid [OF assms(2)] by auto

text \<open>Source and copy share nothing, so a later change of what one of them reaches, together with
  any new cells, is invisible through the other.\<close>

lemma isolated:
  assumes "copy h x = (h1, y)" and "view h x = Some v"
  shows "reach h1 x \<inter> reach h1 y = {}"
    and "(\<And>p. p < length h1 \<Longrightarrow> p \<notin> reach h1 x \<Longrightarrow> load h2 p = load h1 p) \<Longrightarrow> view h2 y = Some v"
    and "(\<And>p. p < length h1 \<Longrightarrow> p \<notin> reach h1 y \<Longrightarrow> load h2 p = load h1 p) \<Longrightarrow> view h2 x = Some v"
proof -
  note g = grown [OF copy_grows [OF assms(1)] assms(2)]
  have x: "reach h1 x \<subseteq> {..<length h}" using g(2) reach_valid [OF assms(2)] by simp
  have y: "reach h1 y \<subseteq> {length h..<length h1}" by (rule copy_fresh [OF assms])
  have x1: "reach h1 x \<subseteq> {..<length h1}" by (rule reach_valid [OF g(1)])
  show d: "reach h1 x \<inter> reach h1 y = {}" using x y by fastforce
  show "view h2 y = Some v" if "\<And>p. p < length h1 \<Longrightarrow> p \<notin> reach h1 x \<Longrightarrow> load h2 p = load h1 p"
    using frame [OF copy_view [OF assms], of h2] that d y by force
  show "view h2 x = Some v" if "\<And>p. p < length h1 \<Longrightarrow> p \<notin> reach h1 y \<Longrightarrow> load h2 p = load h1 p"
    using frame [OF g(1), of h2] that d x1 by blast
qed

end

text \<open>Plain values: the assignment \<^verbatim>\<open>*out = *in\<close> copies them.\<close>

definition flat_view :: "'m store \<Rightarrow> 'a \<Rightarrow> 'a option" where "flat_view h x = Some x"

definition no_reach :: "'m store \<Rightarrow> 'a \<Rightarrow> ptr set" where "no_reach h x = {}"

definition assign :: "'m store \<Rightarrow> 'a \<Rightarrow> 'm store \<times> 'a" where "assign h x = (h, x)"

lemma flat_copier: "deep_copier flat_view no_reach assign"
  by unfold_locales (auto simp: flat_view_def no_reach_def assign_def)

text \<open>Pairs, first component first.\<close>

definition pair_view :: "('m store \<Rightarrow> 'a \<Rightarrow> 'v option) \<Rightarrow> ('m store \<Rightarrow> 'b \<Rightarrow> 'w option) \<Rightarrow> 'm store \<Rightarrow> 'a \<times> 'b \<Rightarrow> ('v \<times> 'w) option" where
  "pair_view u w h = (\<lambda>(x, y). do { a \<leftarrow> u h x; b \<leftarrow> w h y; Some (a, b) })"

definition pair_reach :: "('m store \<Rightarrow> 'a \<Rightarrow> ptr set) \<Rightarrow> ('m store \<Rightarrow> 'b \<Rightarrow> ptr set) \<Rightarrow> 'm store \<Rightarrow> 'a \<times> 'b \<Rightarrow> ptr set" where
  "pair_reach r s h = (\<lambda>(x, y). r h x \<union> s h y)"

definition pair_copy :: "('m store \<Rightarrow> 'a \<Rightarrow> 'm store \<times> 'a) \<Rightarrow> ('m store \<Rightarrow> 'b \<Rightarrow> 'm store \<times> 'b) \<Rightarrow> 'm store \<Rightarrow> 'a \<times> 'b \<Rightarrow> 'm store \<times> 'a \<times> 'b" where
  "pair_copy c d h = (\<lambda>(x, y). case c h x of (h1, x') \<Rightarrow> (case d h1 y of (h2, y') \<Rightarrow> (h2, x', y')))"

lemmas pair_defs = pair_view_def pair_reach_def pair_copy_def

lemma pair_copier:
  assumes "deep_copier u r c" and "deep_copier w s d"
  shows "deep_copier (pair_view u w) (pair_reach r s) (pair_copy c d)"
proof -
  note A = assms(1) and B = assms(2)
  note gr = deep_copier.copy_grows and vw = deep_copier.copy_view and fr = deep_copier.copy_fresh
    and gn = deep_copier.grown and rv = deep_copier.reach_valid and fm = deep_copier.frame
  have split: "\<exists>h1 x' y'. c h (fst x) = (h1, x') \<and> d h1 (snd x) = (h', y') \<and> y = (x', y')"
    if "pair_copy c d h x = (h', y)" for h x h' y
    using that by (auto simp: pair_copy_def split: prod.splits)
  have view: "\<exists>a b. u h (fst x) = Some a \<and> w h (snd x) = Some b \<and> v = (a, b)" if "pair_view u w h x = Some v" for h x v
    using that by (auto simp: pair_view_def bind_eq_Some_conv split: prod.splits)
  have both: "pair_view u w h x = Some (a, b)" if "u h (fst x) = Some a" "w h (snd x) = Some b" for h x a b
    using that by (cases x) (simp add: pair_view_def)
  show ?thesis
  proof
    fix h x h' y v
    assume c: "pair_copy c d h x = (h', y)"
    obtain h1 x' y' where s: "c h (fst x) = (h1, x')" "d h1 (snd x) = (h', y')" "y = (x', y')" using split [OF c] by blast
    have g: "prefix h h1" "prefix h1 h'" using gr [OF A s(1)] gr [OF B s(2)] by auto
    show "prefix h h'" using g by auto
    note l = prefix_length_le [OF g(1)] prefix_length_le [OF g(2)]
    assume "pair_view u w h x = Some v"
    then obtain a b where v: "u h (fst x) = Some a" "w h (snd x) = Some b" "v = (a, b)" using view by blast
    note b = gn(1) [OF B g(1) v(2)]
    note a = vw [OF A s(1) v(1)]
    show "pair_view u w h' y = Some v"
      using both [of h' "y"] gn(1) [OF A g(2) a] vw [OF B s(2) b] s(3) v(3) by simp
    show "pair_reach r s h' y \<subseteq> {length h..<length h'}"
      using fr [OF A s(1) v(1)] gn(2) [OF A g(2) a] fr [OF B s(2) b] l s(3) by (fastforce simp: pair_reach_def)
  next
    fix h x v h'
    assume "pair_view u w h x = Some v" and e: "\<forall>p\<in>pair_reach r s h x. load h' p = load h p"
    then obtain a b where v: "u h (fst x) = Some a" "w h (snd x) = Some b" "v = (a, b)" using view by blast
    have "u h' (fst x) = Some a \<and> r h' (fst x) = r h (fst x)" "w h' (snd x) = Some b \<and> s h' (snd x) = s h (snd x)"
      using e fm [OF A v(1), of h'] fm [OF B v(2), of h'] by (simp_all add: pair_reach_def split_def)
    then show "pair_view u w h' x = Some v \<and> pair_reach r s h' x = pair_reach r s h x"
      using both v(3) by (simp add: pair_reach_def split_def)
  next
    fix h x v
    assume "pair_view u w h x = Some v"
    then obtain a b where v: "u h (fst x) = Some a" "w h (snd x) = Some b" using view by blast
    show "pair_reach r s h x \<subseteq> {..<length h}"
      using rv [OF A v(1)] rv [OF B v(2)] by (auto simp: pair_reach_def split: prod.splits)
  qed
qed

text \<open>A struct whose fields are those of a tuple.\<close>

lemma iso_copier:
  assumes "deep_copier u r c" and "\<And>t. to (build t) = t"
    and "\<And>h x. view h x = map_option g (u h (to x))" and "\<And>h x. reach h x = r h (to x)"
    and "\<And>h x. copy h x = map_prod id build (c h (to x))"
  shows "deep_copier view reach copy"
proof -
  note A = assms(1)
  have s: "\<exists>t. c h (to x) = (h', t) \<and> y = build t" if "copy h x = (h', y)" for h x h' y
    using that by (cases "c h (to x)") (simp add: assms(5))
  show ?thesis
  proof
    fix h x h' y v
    assume "copy h x = (h', y)"
    then obtain t where t: "c h (to x) = (h', t)" "y = build t" using s by blast
    show "prefix h h'" by (rule deep_copier.copy_grows [OF A t(1)])
    assume "view h x = Some v"
    then obtain w where w: "u h (to x) = Some w" "v = g w" by (auto simp: assms(3))
    show "view h' y = Some v" "reach h' y \<subseteq> {length h..<length h'}"
      using deep_copier.copy_view [OF A t(1) w(1)] deep_copier.copy_fresh [OF A t(1) w(1)] t(2) w(2) by (simp_all add: assms(2-4))
  next
    fix h x v h'
    assume "view h x = Some v" and "\<forall>p\<in>reach h x. load h' p = load h p"
    then show "view h' x = Some v \<and> reach h' x = reach h x"
      using deep_copier.frame [OF A, of h "to x" _ h'] by (auto simp: assms(3,4))
  qed (auto simp: assms(3,4) dest: deep_copier.reach_valid [OF A])
qed

text \<open>Lists, element by element.\<close>

primrec list_view :: "('m store \<Rightarrow> 'a \<Rightarrow> 'v option) \<Rightarrow> 'm store \<Rightarrow> 'a list \<Rightarrow> 'v list option" where
  "list_view u h [] = Some []"
| "list_view u h (x # xs) = do { a \<leftarrow> u h x; as \<leftarrow> list_view u h xs; Some (a # as) }"

definition list_reach :: "('m store \<Rightarrow> 'a \<Rightarrow> ptr set) \<Rightarrow> 'm store \<Rightarrow> 'a list \<Rightarrow> ptr set" where
  "list_reach r h xs = (\<Union>x\<in>set xs. r h x)"

primrec list_copy :: "('m store \<Rightarrow> 'a \<Rightarrow> 'm store \<times> 'a) \<Rightarrow> 'm store \<Rightarrow> 'a list \<Rightarrow> 'm store \<times> 'a list" where
  "list_copy c h [] = (h, [])"
| "list_copy c h (x # xs) = (case c h x of (h1, y) \<Rightarrow> (case list_copy c h1 xs of (h2, ys) \<Rightarrow> (h2, y # ys)))"

text \<open>A pointer field: \<^verbatim>\<open>if in.F != nil { *out = new(T); copy **in into **out }\<close>. The functions \<open>un\<close>
  and \<open>mk\<close> say which cells have the type \<^verbatim>\<open>T\<close>; a pointer that does not lead to one, which Go's types
  exclude, has no view.\<close>

definition deref :: "('m cell \<Rightarrow> 'a option) \<Rightarrow> 'm store \<Rightarrow> ptr \<Rightarrow> 'a option" where
  "deref un h p = do { c \<leftarrow> load h p; un c }"

definition ptr_view :: "('m cell \<Rightarrow> 'a option) \<Rightarrow> ('m store \<Rightarrow> 'a \<Rightarrow> 'v option) \<Rightarrow> 'm store \<Rightarrow> ptr option \<Rightarrow> 'v option option" where
  "ptr_view un u h f = (case f of None \<Rightarrow> Some None | Some p \<Rightarrow> do { x \<leftarrow> deref un h p; v \<leftarrow> u h x; Some (Some v) })"

definition ptr_reach :: "('m cell \<Rightarrow> 'a option) \<Rightarrow> ('m store \<Rightarrow> 'a \<Rightarrow> ptr set) \<Rightarrow> 'm store \<Rightarrow> ptr option \<Rightarrow> ptr set" where
  "ptr_reach un r h f = (case f of None \<Rightarrow> {} | Some p \<Rightarrow>
     insert p (case deref un h p of None \<Rightarrow> {} | Some x \<Rightarrow> r h x))"

definition ptr_copy :: "('m cell \<Rightarrow> 'a option) \<Rightarrow> ('a \<Rightarrow> 'm cell) \<Rightarrow> ('m store \<Rightarrow> 'a \<Rightarrow> 'm store \<times> 'a) \<Rightarrow>
    'm store \<Rightarrow> ptr option \<Rightarrow> 'm store \<times> ptr option" where
  "ptr_copy un mk c h f = (case f of None \<Rightarrow> (h, None) | Some p \<Rightarrow>
     (case deref un h p of
        None \<Rightarrow> (h, Some p)
      | Some x \<Rightarrow> (case c h x of (h1, y) \<Rightarrow> (case alloc h1 (mk y) of (h2, q) \<Rightarrow> (h2, Some q)))))"

text \<open>A slice: the part of its array that it covers, copied into an array of its own.\<close>

definition elements :: "('m cell \<Rightarrow> 'a list option) \<Rightarrow> 'm store \<Rightarrow> slice \<Rightarrow> 'a list option" where
  "elements un h s = do { xs \<leftarrow> deref un h (sl_array s);
     if sl_offset s + sl_len s \<le> length xs then Some (take (sl_len s) (drop (sl_offset s) xs)) else None }"

definition slice_view :: "('m cell \<Rightarrow> 'a list option) \<Rightarrow> ('m store \<Rightarrow> 'a \<Rightarrow> 'v option) \<Rightarrow> 'm store \<Rightarrow> slice option \<Rightarrow> 'v list option" where
  "slice_view un u h f = (case f of None \<Rightarrow> Some [] | Some s \<Rightarrow> do { xs \<leftarrow> elements un h s; list_view u h xs })"

definition slice_reach :: "('m cell \<Rightarrow> 'a list option) \<Rightarrow> ('m store \<Rightarrow> 'a \<Rightarrow> ptr set) \<Rightarrow> 'm store \<Rightarrow> slice option \<Rightarrow> ptr set" where
  "slice_reach un r h f = (case f of None \<Rightarrow> {} | Some s \<Rightarrow>
     insert (sl_array s) (case elements un h s of None \<Rightarrow> {} | Some xs \<Rightarrow> list_reach r h xs))"

definition slice_copy :: "('m cell \<Rightarrow> 'a list option) \<Rightarrow> ('a list \<Rightarrow> 'm cell) \<Rightarrow> ('m store \<Rightarrow> 'a \<Rightarrow> 'm store \<times> 'a) \<Rightarrow>
    'm store \<Rightarrow> slice option \<Rightarrow> 'm store \<times> slice option" where
  "slice_copy un mk c h f = (case f of None \<Rightarrow> (h, None) | Some s \<Rightarrow>
     (case elements un h s of
        None \<Rightarrow> (h, Some s)
      | Some xs \<Rightarrow> (case list_copy c h xs of (h1, ys) \<Rightarrow> (case alloc h1 (mk ys) of (h2, q) \<Rightarrow>
          (h2, Some \<lparr>sl_array = q, sl_offset = 0, sl_len = length ys\<rparr>)))))"

context deep_copier
begin

lemma list_grows: "list_copy copy h xs = (h', ys) \<Longrightarrow> prefix h h'"
proof (induction xs arbitrary: h ys)
  case (Cons x xs)
  then obtain h1 y zs where s: "copy h x = (h1, y)" "list_copy copy h1 xs = (h', zs)" by (auto split: prod.splits)
  show ?case using copy_grows [OF s(1)] Cons.IH [OF s(2)] by (rule prefix_order.trans)
qed simp

lemma list_reach_valid: "list_view view h xs = Some vs \<Longrightarrow> list_reach reach h xs \<subseteq> {..<length h}"
  by (induction xs arbitrary: vs) (auto simp: list_reach_def bind_eq_Some_conv dest: reach_valid)

lemma list_frame:
  "list_view view h xs = Some vs \<Longrightarrow> \<forall>p\<in>list_reach reach h xs. load h' p = load h p \<Longrightarrow>
   list_view view h' xs = Some vs \<and> list_reach reach h' xs = list_reach reach h xs"
proof (induction xs arbitrary: vs)
  case (Cons x xs)
  then obtain a as where v: "view h x = Some a" "list_view view h xs = Some as" "vs = a # as"
    by (auto simp: bind_eq_Some_conv)
  have "view h' x = Some a \<and> reach h' x = reach h x" using Cons.prems(2) frame [OF v(1), of h'] by (simp add: list_reach_def)
  moreover have "list_view view h' xs = Some as \<and> list_reach reach h' xs = list_reach reach h xs"
    using Cons.prems(2) Cons.IH [OF v(2)] by (simp add: list_reach_def)
  ultimately show ?case using v(3) by (simp add: list_reach_def)
qed (simp add: list_reach_def)

lemma list_copied:
  "list_copy copy h xs = (h', ys) \<Longrightarrow> list_view view h xs = Some vs \<Longrightarrow>
   list_view view h' ys = Some vs \<and> list_reach reach h' ys \<subseteq> {length h..<length h'}"
proof (induction xs arbitrary: h ys vs)
  case (Cons x xs)
  then obtain h1 y zs where s: "copy h x = (h1, y)" "list_copy copy h1 xs = (h', zs)" "ys = y # zs" by (auto split: prod.splits)
  obtain a as where v: "view h x = Some a" "list_view view h xs = Some as" "vs = a # as"
    using Cons.prems(2) by (auto simp: bind_eq_Some_conv)
  note g = copy_grows [OF s(1)] list_grows [OF s(2)]
  have "list_view view h1 xs = Some as"
    using list_frame [OF v(2), of h1] load_prefix [OF g(1)] list_reach_valid [OF v(2)] by auto
  note r = Cons.IH [OF s(2) this]
  note y = grown [OF g(2) copy_view [OF s(1) v(1)]] copy_fresh [OF s(1) v(1)]
  show ?case
    using r y prefix_length_le [OF g(1)] prefix_length_le [OF g(2)] s(3) v(3) by (fastforce simp: list_reach_def)
qed (simp add: list_reach_def)

end

lemma list_copier: "deep_copier u r c \<Longrightarrow> deep_copier (list_view u) (list_reach r) (list_copy c)"
  by unfold_locales (rule deep_copier.list_grows deep_copier.list_copied [THEN conjunct1] deep_copier.list_copied [THEN conjunct2]
      deep_copier.list_frame deep_copier.list_reach_valid, assumption+)+

text \<open>What is known after the contents of a pointer or slice are copied and put into a new cell.\<close>

context deep_copier
begin

lemma boxed:
  assumes "copy h x = (h1, y)"
  shows "prefix h (h1 @ [c])"
    and "view h x = Some v \<Longrightarrow> view (h1 @ [c]) y = Some v"
    and "view h x = Some v \<Longrightarrow> insert (length h1) (reach (h1 @ [c]) y) \<subseteq> {length h..<length (h1 @ [c])}"
proof -
  have g: "prefix h h1" by (rule copy_grows [OF assms])
  show "prefix h (h1 @ [c])" using g by (rule prefix_prefix)
  assume v: "view h x = Some v"
  note w = grown [OF _ copy_view [OF assms v], of "h1 @ [c]"]
  show "view (h1 @ [c]) y = Some v" using w(1) by simp
  show "insert (length h1) (reach (h1 @ [c]) y) \<subseteq> {length h..<length (h1 @ [c])}"
    using w(2) copy_fresh [OF assms v] prefix_length_le [OF g] by fastforce
qed

end

lemma deref_alloc [simp]: "deref un (h @ [c]) (length h) = un c"
  by (simp add: deref_def)

lemma ptr_viewE:
  assumes "ptr_view un u h f = Some v"
  obtains "f = None" and "v = None"
  | p x w where "f = Some p" and "deref un h p = Some x" and "u h x = Some w" and "v = Some w"
  using assms by (auto simp: ptr_view_def bind_eq_Some_conv split: option.splits)

lemma deref_valid: "deref un h p = Some x \<Longrightarrow> p < length h"
  by (auto simp: deref_def bind_eq_Some_conv dest: load_valid)

lemma deref_cong: "load h' p = load h p \<Longrightarrow> deref un h' p = deref un h p"
  by (simp add: deref_def)

lemma ptr_copier:
  assumes A: "deep_copier u r c" and un: "\<And>x. un (mk x) = Some x"
  shows "deep_copier (ptr_view un u) (ptr_reach un r) (ptr_copy un mk c)"
proof
  fix h f h' g
  assume cp: "ptr_copy un mk c h f = (h', g)"
  show "prefix h h'"
    using cp deep_copier.boxed(1) [OF A] by (auto simp: ptr_copy_def alloc_def split: option.splits prod.splits)
  fix v
  assume "ptr_view un u h f = Some v"
  then show "ptr_view un u h' g = Some v"
    by (cases rule: ptr_viewE)
      (use cp deep_copier.boxed(2) [OF A] in \<open>auto simp: ptr_copy_def ptr_view_def alloc_def un split: prod.splits\<close>)
  from \<open>ptr_view un u h f = Some v\<close> show "ptr_reach un r h' g \<subseteq> {length h..<length h'}"
  proof (cases rule: ptr_viewE)
    case (2 p x w)
    obtain h1 y where "c h x = (h1, y)" by fastforce
    with 2 cp deep_copier.boxed(3) [OF A this 2(3), of "mk y"] show ?thesis
      by (auto simp: ptr_copy_def ptr_reach_def alloc_def un)
  qed (use cp in \<open>simp add: ptr_copy_def ptr_reach_def\<close>)
next
  fix h f v h'
  assume "ptr_view un u h f = Some v" and e: "\<forall>p\<in>ptr_reach un r h f. load h' p = load h p"
  then show "ptr_view un u h' f = Some v \<and> ptr_reach un r h' f = ptr_reach un r h f"
  proof (cases rule: ptr_viewE)
    case (2 p x w)
    have "deref un h' p = Some x" using e 2 deref_cong [of h' p h un] by (simp add: ptr_reach_def)
    moreover have "u h' x = Some w \<and> r h' x = r h x"
      using e 2 by (intro deep_copier.frame [OF A]) (simp_all add: ptr_reach_def)
    ultimately show ?thesis using 2 by (simp add: ptr_view_def ptr_reach_def)
  qed (simp add: ptr_view_def ptr_reach_def)
next
  fix h f v
  assume "ptr_view un u h f = Some v"
  then show "ptr_reach un r h f \<subseteq> {..<length h}"
    by (cases rule: ptr_viewE)
      (auto simp: ptr_reach_def dest: deep_copier.reach_valid [OF A] deref_valid)
qed

lemma slice_viewE:
  assumes "slice_view un u h f = Some v"
  obtains "f = None" and "v = []"
  | s xs where "f = Some s" and "elements un h s = Some xs" and "list_view u h xs = Some v"
  using assms by (auto simp: slice_view_def bind_eq_Some_conv split: option.splits)

lemma elements_alloc: "un c = Some xs \<Longrightarrow> elements un (h @ [c]) \<lparr>sl_array = length h, sl_offset = 0, sl_len = length xs\<rparr> = Some xs"
  by (simp add: elements_def)

lemma elements_valid: "elements un h s = Some xs \<Longrightarrow> sl_array s < length h"
  by (auto simp: elements_def bind_eq_Some_conv dest: deref_valid)

lemma elements_cong: "load h' (sl_array s) = load h (sl_array s) \<Longrightarrow> elements un h' s = elements un h s"
  using deref_cong [of h' "sl_array s" h un] by (simp add: elements_def)

lemma slice_copier:
  assumes "deep_copier u r c" and un: "\<And>xs. un (mk xs) = Some xs"
  shows "deep_copier (slice_view un u) (slice_reach un r) (slice_copy un mk c)"
proof -
  note A = list_copier [OF assms(1)]
  show ?thesis
  proof
    fix h f h' g
    assume cp: "slice_copy un mk c h f = (h', g)"
    show "prefix h h'"
      using cp deep_copier.boxed(1) [OF A] by (auto simp: slice_copy_def alloc_def split: option.splits prod.splits)
    fix v
    assume "slice_view un u h f = Some v"
    then show "slice_view un u h' g = Some v"
      by (cases rule: slice_viewE)
        (use cp deep_copier.boxed(2) [OF A] in
          \<open>auto simp: slice_copy_def slice_view_def alloc_def elements_alloc un split: prod.splits\<close>)
    from \<open>slice_view un u h f = Some v\<close> show "slice_reach un r h' g \<subseteq> {length h..<length h'}"
    proof (cases rule: slice_viewE)
      case (2 s xs)
      obtain h1 ys where "list_copy c h xs = (h1, ys)" by fastforce
      with 2 cp deep_copier.boxed(3) [OF A this 2(3), of "mk ys"] show ?thesis
        by (auto simp: slice_copy_def slice_reach_def alloc_def elements_alloc un)
    qed (use cp in \<open>simp add: slice_copy_def slice_reach_def\<close>)
  next
    fix h f v h'
    assume "slice_view un u h f = Some v" and e: "\<forall>p\<in>slice_reach un r h f. load h' p = load h p"
    then show "slice_view un u h' f = Some v \<and> slice_reach un r h' f = slice_reach un r h f"
    proof (cases rule: slice_viewE)
      case (2 s xs)
      have "elements un h' s = Some xs" using e 2 elements_cong [of h' s h un] by (simp add: slice_reach_def)
      moreover have "list_view u h' xs = Some v \<and> list_reach r h' xs = list_reach r h xs"
        using e 2 by (intro deep_copier.frame [OF A]) (simp_all add: slice_reach_def)
      ultimately show ?thesis using 2 by (simp add: slice_view_def slice_reach_def)
    qed (simp add: slice_view_def slice_reach_def)
  next
    fix h f v
    assume "slice_view un u h f = Some v"
    then show "slice_reach un r h f \<subseteq> {..<length h}"
      by (cases rule: slice_viewE)
        (auto simp: slice_reach_def dest: deep_copier.reach_valid [OF A] elements_valid)
  qed
qed

section \<open>The generated functions\<close>

text \<open>Which cells have which type.\<close>

fun as_int32 :: "'m cell \<Rightarrow> int32 option" where "as_int32 (Int32Cell v) = Some v" | "as_int32 _ = None"
fun as_string :: "'m cell \<Rightarrow> string option" where "as_string (StringCell s) = Some s" | "as_string _ = None"
fun as_time :: "'m cell \<Rightarrow> time option" where "as_time (TimeCell t) = Some t" | "as_time _ = None"
fun as_int32s :: "'m cell \<Rightarrow> int32 list option" where "as_int32s (Int32Array vs) = Some vs" | "as_int32s _ = None"
fun as_ref :: "'m cell \<Rightarrow> cross_version_ref option" where "as_ref (RefCell r) = Some r" | "as_ref _ = None"
fun as_context :: "'m cell \<Rightarrow> context_struct option" where "as_context (ContextCell c) = Some c" | "as_context _ = None"
fun as_params :: "'m cell \<Rightarrow> params_struct option" where "as_params (ParamsCell p) = Some p" | "as_params _ = None"
fun as_spec :: "'m cell \<Rightarrow> spec_struct option" where "as_spec (SpecCell s) = Some s" | "as_spec _ = None"
fun as_status :: "'m cell \<Rightarrow> status_struct option" where "as_status (StatusCell s) = Some s" | "as_status _ = None"
fun as_object :: "'m cell \<Rightarrow> 'm object_struct option" where "as_object (ObjectCell a) = Some a" | "as_object _ = None"
fun as_objects :: "'m cell \<Rightarrow> 'm object_struct list option" where "as_objects (ObjectArray as) = Some as" | "as_objects _ = None"
fun as_list :: "'m cell \<Rightarrow> 'm list_struct option" where "as_list (ListCell l) = Some l" | "as_list _ = None"

text \<open>A \<^verbatim>\<open>DeepCopyInto\<close> starts from \<^verbatim>\<open>*out = *in\<close> and replaces field after field of \<^verbatim>\<open>out\<close> by a copy of the
  field of \<^verbatim>\<open>in\<close>.\<close>

definition copy_field :: "('s \<Rightarrow> 'f) \<Rightarrow> (('f \<Rightarrow> 'f) \<Rightarrow> 's \<Rightarrow> 's) \<Rightarrow> ('m store \<Rightarrow> 'f \<Rightarrow> 'm store \<times> 'f) \<Rightarrow> 's \<Rightarrow>
    'm store \<times> 's \<Rightarrow> 'm store \<times> 's" where
  "copy_field get upd c inp = (\<lambda>(h, out). case c h (get inp) of (h', y) \<Rightarrow> (h', upd (\<lambda>_. y) out))"

definition copy_fields :: "('m store \<times> 's \<Rightarrow> 'm store \<times> 's) list \<Rightarrow> 'm store \<times> 's \<Rightarrow> 'm store \<times> 's" where
  "copy_fields = fold (\<lambda>f. f)"

definition int32_copy :: "'m store \<Rightarrow> ptr option \<Rightarrow> 'm store \<times> ptr option" where
  "int32_copy = ptr_copy as_int32 Int32Cell assign"

definition ContextFields_DeepCopyInto :: "'m store \<Rightarrow> context_struct \<Rightarrow> 'm store \<times> context_struct" where
  "ContextFields_DeepCopyInto h inp = copy_fields
     [copy_field ctx_HourlyProfile ctx_HourlyProfile_update (slice_copy as_int32s Int32Array assign) inp] (h, inp)"

definition ContextFields_DeepCopy :: "'m store \<Rightarrow> ptr option \<Rightarrow> 'm store \<times> ptr option" where
  "ContextFields_DeepCopy = ptr_copy as_context ContextCell ContextFields_DeepCopyInto"

definition ClassifiedParams_DeepCopyInto :: "'m store \<Rightarrow> params_struct \<Rightarrow> 'm store \<times> params_struct" where
  "ClassifiedParams_DeepCopyInto h inp = copy_fields
     [copy_field par_ClassifiedAt par_ClassifiedAt_update assign inp,
      copy_field par_Context par_Context_update (ptr_copy as_context ContextCell ContextFields_DeepCopyInto) inp] (h, inp)"

definition ClassifiedParams_DeepCopy :: "'m store \<Rightarrow> ptr option \<Rightarrow> 'm store \<times> ptr option" where
  "ClassifiedParams_DeepCopy = ptr_copy as_params ParamsCell ClassifiedParams_DeepCopyInto"

definition Status_DeepCopyInto :: "'m store \<Rightarrow> status_struct \<Rightarrow> 'm store \<times> status_struct" where
  "Status_DeepCopyInto h inp = copy_fields
     [copy_field sta_LastScaleTime sta_LastScaleTime_update (ptr_copy as_time TimeCell assign) inp,
      copy_field sta_ClassifiedParams sta_ClassifiedParams_update
        (ptr_copy as_params ParamsCell ClassifiedParams_DeepCopyInto) inp] (h, inp)"

definition Status_DeepCopy :: "'m store \<Rightarrow> ptr option \<Rightarrow> 'm store \<times> ptr option" where
  "Status_DeepCopy = ptr_copy as_status StatusCell Status_DeepCopyInto"

definition Spec_DeepCopyInto :: "'m store \<Rightarrow> spec_struct \<Rightarrow> 'm store \<times> spec_struct" where
  "Spec_DeepCopyInto h inp = copy_fields
     [copy_field sp_TargetRef sp_TargetRef_update assign inp,
      copy_field sp_MinReplicas sp_MinReplicas_update int32_copy inp,
      copy_field sp_MaxReplicas sp_MaxReplicas_update int32_copy inp,
      copy_field sp_RpsPerPodMin sp_RpsPerPodMin_update int32_copy inp,
      copy_field sp_RpsPerPodMax sp_RpsPerPodMax_update int32_copy inp,
      copy_field sp_MaxStepSize sp_MaxStepSize_update int32_copy inp,
      copy_field sp_ScaleUpCooldownSeconds sp_ScaleUpCooldownSeconds_update int32_copy inp,
      copy_field sp_ScaleDownCooldownSeconds sp_ScaleDownCooldownSeconds_update int32_copy inp,
      copy_field sp_PreferredForecaster sp_PreferredForecaster_update (ptr_copy as_string StringCell assign) inp] (h, inp)"

definition Spec_DeepCopy :: "'m store \<Rightarrow> ptr option \<Rightarrow> 'm store \<times> ptr option" where
  "Spec_DeepCopy = ptr_copy as_spec SpecCell Spec_DeepCopyInto"

definition Ref_DeepCopyInto :: "'m store \<Rightarrow> cross_version_ref \<Rightarrow> 'm store \<times> cross_version_ref" where
  "Ref_DeepCopyInto h inp = copy_fields [] (h, inp)"

definition Ref_DeepCopy :: "'m store \<Rightarrow> ptr option \<Rightarrow> 'm store \<times> ptr option" where
  "Ref_DeepCopy = ptr_copy as_ref RefCell Ref_DeepCopyInto"

definition DeepCopyInto :: "('m store \<Rightarrow> 'm \<Rightarrow> 'm store \<times> 'm) \<Rightarrow> 'm store \<Rightarrow> 'm object_struct \<Rightarrow> 'm store \<times> 'm object_struct" where
  "DeepCopyInto meta_copy h inp = copy_fields
     [copy_field ob_TypeMeta ob_TypeMeta_update assign inp,
      copy_field ob_ObjectMeta ob_ObjectMeta_update meta_copy inp,
      copy_field ob_Spec ob_Spec_update Spec_DeepCopyInto inp,
      copy_field ob_Status ob_Status_update Status_DeepCopyInto inp] (h, inp)"

definition DeepCopy :: "('m store \<Rightarrow> 'm \<Rightarrow> 'm store \<times> 'm) \<Rightarrow> 'm store \<Rightarrow> ptr option \<Rightarrow> 'm store \<times> ptr option" where
  "DeepCopy meta_copy = ptr_copy as_object ObjectCell (DeepCopyInto meta_copy)"

definition List_DeepCopyInto :: "('m store \<Rightarrow> 'm \<Rightarrow> 'm store \<times> 'm) \<Rightarrow> ('m store \<Rightarrow> 'm \<Rightarrow> 'm store \<times> 'm) \<Rightarrow>
    'm store \<Rightarrow> 'm list_struct \<Rightarrow> 'm store \<times> 'm list_struct" where
  "List_DeepCopyInto meta_copy list_meta_copy h inp = copy_fields
     [copy_field li_TypeMeta li_TypeMeta_update assign inp,
      copy_field li_ListMeta li_ListMeta_update list_meta_copy inp,
      copy_field li_Items li_Items_update (slice_copy as_objects ObjectArray (DeepCopyInto meta_copy)) inp] (h, inp)"

definition List_DeepCopy :: "('m store \<Rightarrow> 'm \<Rightarrow> 'm store \<times> 'm) \<Rightarrow> ('m store \<Rightarrow> 'm \<Rightarrow> 'm store \<times> 'm) \<Rightarrow>
    'm store \<Rightarrow> ptr option \<Rightarrow> 'm store \<times> ptr option" where
  "List_DeepCopy meta_copy list_meta_copy = ptr_copy as_list ListCell (List_DeepCopyInto meta_copy list_meta_copy)"

text \<open>\<^verbatim>\<open>DeepCopyObject\<close>: the copy as an interface value, nil for a nil pointer.\<close>

definition DeepCopyObject :: "('m store \<Rightarrow> 'm \<Rightarrow> 'm store \<times> 'm) \<Rightarrow> 'm store \<Rightarrow> ptr option \<Rightarrow> 'm store \<times> ptr option" where
  "DeepCopyObject meta_copy h inp = (case DeepCopy meta_copy h inp of
     (h', Some c) \<Rightarrow> (h', Some c) | (h', None) \<Rightarrow> (h', None))"

definition List_DeepCopyObject :: "('m store \<Rightarrow> 'm \<Rightarrow> 'm store \<times> 'm) \<Rightarrow> ('m store \<Rightarrow> 'm \<Rightarrow> 'm store \<times> 'm) \<Rightarrow>
    'm store \<Rightarrow> ptr option \<Rightarrow> 'm store \<times> ptr option" where
  "List_DeepCopyObject meta_copy list_meta_copy h inp = (case List_DeepCopy meta_copy list_meta_copy h inp of
     (h', Some c) \<Rightarrow> (h', Some c) | (h', None) \<Rightarrow> (h', None))"

section \<open>The values they stand for\<close>

abbreviation int32_view :: "'m store \<Rightarrow> ptr option \<Rightarrow> int32 option option" where "int32_view \<equiv> ptr_view as_int32 flat_view"
abbreviation int32_reach :: "'m store \<Rightarrow> ptr option \<Rightarrow> ptr set" where "int32_reach \<equiv> ptr_reach as_int32 no_reach"

definition context_view :: "'m store \<Rightarrow> context_struct \<Rightarrow> context_fields option" where
  "context_view h s = do {
     prof \<leftarrow> slice_view as_int32s flat_view h (ctx_HourlyProfile s);
     Some \<lparr>cf_BaselineRPS = ctx_BaselineRPS s, cf_PeakP95RPS = ctx_PeakP95RPS s, cf_Trend24hSlope = ctx_Trend24hSlope s,
       cf_HourlyProfile = prof, cf_HourlyProfileValid = ctx_HourlyProfileValid s\<rparr> }"

definition context_reach :: "'m store \<Rightarrow> context_struct \<Rightarrow> ptr set" where
  "context_reach h s = slice_reach as_int32s no_reach h (ctx_HourlyProfile s)"

definition params_view :: "'m store \<Rightarrow> params_struct \<Rightarrow> classified_params option" where
  "params_view h s = do {
     ctx \<leftarrow> ptr_view as_context context_view h (par_Context s);
     Some \<lparr>cp_Pattern = par_Pattern s, cp_ScaleUpCooldownSeconds = par_ScaleUpCooldownSeconds s,
       cp_ScaleDownCooldownSeconds = par_ScaleDownCooldownSeconds s, cp_MaxStepSize = par_MaxStepSize s,
       cp_PreferredForecaster = par_PreferredForecaster s, cp_ClassifiedAt = par_ClassifiedAt s,
       cp_HistoryPoints = par_HistoryPoints s, cp_Confidence = par_Confidence s, cp_Context = ctx\<rparr> }"

definition params_reach :: "'m store \<Rightarrow> params_struct \<Rightarrow> ptr set" where
  "params_reach h s = ptr_reach as_context context_reach h (par_Context s)"

definition status_view :: "'m store \<Rightarrow> status_struct \<Rightarrow> aas_status option" where
  "status_view h s = do {
     lst \<leftarrow> ptr_view as_time flat_view h (sta_LastScaleTime s);
     cp \<leftarrow> ptr_view as_params params_view h (sta_ClassifiedParams s);
     Some \<lparr>st_Phase = sta_Phase s, st_ConflictReason = sta_ConflictReason s, st_CurrentReplicas = sta_CurrentReplicas s,
       st_RecommendedReplicas = sta_RecommendedReplicas s, st_UnboundedRecommended = sta_UnboundedRecommended s,
       st_PredictedRPS = sta_PredictedRPS s, st_RpsPerPodCurrent = sta_RpsPerPodCurrent s, st_LastScaleTime = lst,
       st_ClassifiedParams = cp\<rparr> }"

definition status_reach :: "'m store \<Rightarrow> status_struct \<Rightarrow> ptr set" where
  "status_reach h s = ptr_reach as_time no_reach h (sta_LastScaleTime s) \<union> ptr_reach as_params params_reach h (sta_ClassifiedParams s)"

definition spec_view :: "'m store \<Rightarrow> spec_struct \<Rightarrow> aas_spec option" where
  "spec_view h s = do {
     mn \<leftarrow> int32_view h (sp_MinReplicas s); mx \<leftarrow> int32_view h (sp_MaxReplicas s);
     lo \<leftarrow> int32_view h (sp_RpsPerPodMin s); hi \<leftarrow> int32_view h (sp_RpsPerPodMax s);
     step \<leftarrow> int32_view h (sp_MaxStepSize s);
     up \<leftarrow> int32_view h (sp_ScaleUpCooldownSeconds s); down \<leftarrow> int32_view h (sp_ScaleDownCooldownSeconds s);
     fc \<leftarrow> ptr_view as_string flat_view h (sp_PreferredForecaster s);
     Some \<lparr>spec_TargetRef = sp_TargetRef s, spec_MinReplicas = mn, spec_MaxReplicas = mx, spec_RpsPerPodMin = lo,
       spec_RpsPerPodMax = hi, spec_MaxStepSize = step, spec_ScaleUpCooldownSeconds = up,
       spec_ScaleDownCooldownSeconds = down, spec_PreferredForecaster = fc\<rparr> }"

definition spec_reach :: "'m store \<Rightarrow> spec_struct \<Rightarrow> ptr set" where
  "spec_reach h s = int32_reach h (sp_MinReplicas s) \<union> (int32_reach h (sp_MaxReplicas s) \<union> (int32_reach h (sp_RpsPerPodMin s)
     \<union> (int32_reach h (sp_RpsPerPodMax s) \<union> (int32_reach h (sp_MaxStepSize s) \<union> (int32_reach h (sp_ScaleUpCooldownSeconds s)
     \<union> (int32_reach h (sp_ScaleDownCooldownSeconds s) \<union> ptr_reach as_string no_reach h (sp_PreferredForecaster s)))))))"

text \<open>An object stands for its type, whatever its metadata stands for, a spec and a status.\<close>

definition object_view :: "('m store \<Rightarrow> 'm \<Rightarrow> 'v option) \<Rightarrow> 'm store \<Rightarrow> 'm object_struct \<Rightarrow>
    (type_meta \<times> 'v \<times> aas_spec \<times> aas_status) option" where
  "object_view u h a = do { m \<leftarrow> u h (ob_ObjectMeta a); sp \<leftarrow> spec_view h (ob_Spec a); st \<leftarrow> status_view h (ob_Status a);
     Some (ob_TypeMeta a, m, sp, st) }"

definition object_reach :: "('m store \<Rightarrow> 'm \<Rightarrow> ptr set) \<Rightarrow> 'm store \<Rightarrow> 'm object_struct \<Rightarrow> ptr set" where
  "object_reach r h a = r h (ob_ObjectMeta a) \<union> (spec_reach h (ob_Spec a) \<union> status_reach h (ob_Status a))"

definition items_view :: "('m store \<Rightarrow> 'm \<Rightarrow> 'v option) \<Rightarrow> ('m store \<Rightarrow> 'm \<Rightarrow> 'w option) \<Rightarrow> 'm store \<Rightarrow> 'm list_struct \<Rightarrow>
    (type_meta \<times> 'w \<times> (type_meta \<times> 'v \<times> aas_spec \<times> aas_status) list) option" where
  "items_view u w h l = do { m \<leftarrow> w h (li_ListMeta l); xs \<leftarrow> slice_view as_objects (object_view u) h (li_Items l);
     Some (li_TypeMeta l, m, xs) }"

definition items_reach :: "('m store \<Rightarrow> 'm \<Rightarrow> ptr set) \<Rightarrow> ('m store \<Rightarrow> 'm \<Rightarrow> ptr set) \<Rightarrow> 'm store \<Rightarrow> 'm list_struct \<Rightarrow> ptr set" where
  "items_reach r s h l = s h (li_ListMeta l) \<union> slice_reach as_objects (object_reach r) h (li_Items l)"

section \<open>Every generated function is a deep copy\<close>

lemmas copying = copy_fields_def copy_field_def pair_copy_def assign_def
lemmas viewing = pair_view_def flat_view_def map_conv_bind_option comp_def
lemmas reaching = pair_reach_def no_reach_def

lemma int32s_copier: "deep_copier (slice_view as_int32s flat_view) (slice_reach as_int32s no_reach) (slice_copy as_int32s Int32Array assign)"
  by (rule slice_copier [OF flat_copier]) simp

lemma int32_copier: "deep_copier int32_view int32_reach int32_copy"
  unfolding int32_copy_def by (rule ptr_copier [OF flat_copier]) simp

lemma string_copier: "deep_copier (ptr_view as_string flat_view) (ptr_reach as_string no_reach) (ptr_copy as_string StringCell assign)"
  by (rule ptr_copier [OF flat_copier]) simp

lemma time_copier: "deep_copier (ptr_view as_time flat_view) (ptr_reach as_time no_reach) (ptr_copy as_time TimeCell assign)"
  by (rule ptr_copier [OF flat_copier]) simp

interpretation ctx: deep_copier context_view context_reach ContextFields_DeepCopyInto
  by (rule iso_copier [OF pair_copier [OF flat_copier int32s_copier],
        where to = "\<lambda>s. ((ctx_BaselineRPS s, ctx_PeakP95RPS s, ctx_Trend24hSlope s, ctx_HourlyProfileValid s), ctx_HourlyProfile s)"
        and build = "\<lambda>((a, b, c, d), p). \<lparr>ctx_BaselineRPS = a, ctx_PeakP95RPS = b, ctx_Trend24hSlope = c, ctx_HourlyProfile = p, ctx_HourlyProfileValid = d\<rparr>"
        and g = "\<lambda>((a, b, c, d), p). \<lparr>cf_BaselineRPS = a, cf_PeakP95RPS = b, cf_Trend24hSlope = c, cf_HourlyProfile = p, cf_HourlyProfileValid = d\<rparr>"])
    (auto simp: context_view_def context_reach_def ContextFields_DeepCopyInto_def copying viewing reaching split: prod.splits)

interpretation ctx_ptr: deep_copier "ptr_view as_context context_view" "ptr_reach as_context context_reach" ContextFields_DeepCopy
  unfolding ContextFields_DeepCopy_def by (rule ptr_copier [OF ctx.deep_copier_axioms]) simp

interpretation params: deep_copier params_view params_reach ClassifiedParams_DeepCopyInto
  by (rule iso_copier [OF pair_copier [OF flat_copier ctx_ptr.deep_copier_axioms],
        where to = "\<lambda>s. ((par_Pattern s, par_ScaleUpCooldownSeconds s, par_ScaleDownCooldownSeconds s, par_MaxStepSize s,
          par_PreferredForecaster s, par_ClassifiedAt s, par_HistoryPoints s, par_Confidence s), par_Context s)"
        and build = "\<lambda>((a, b, c, d, e, f, i, j), p). \<lparr>par_Pattern = a, par_ScaleUpCooldownSeconds = b, par_ScaleDownCooldownSeconds = c,
          par_MaxStepSize = d, par_PreferredForecaster = e, par_ClassifiedAt = f, par_HistoryPoints = i, par_Confidence = j, par_Context = p\<rparr>"
        and g = "\<lambda>((a, b, c, d, e, f, i, j), p). \<lparr>cp_Pattern = a, cp_ScaleUpCooldownSeconds = b, cp_ScaleDownCooldownSeconds = c,
          cp_MaxStepSize = d, cp_PreferredForecaster = e, cp_ClassifiedAt = f, cp_HistoryPoints = i, cp_Confidence = j, cp_Context = p\<rparr>"])
    (auto simp: params_view_def params_reach_def ClassifiedParams_DeepCopyInto_def ContextFields_DeepCopy_def copying viewing reaching
      split: prod.splits)

interpretation params_ptr: deep_copier "ptr_view as_params params_view" "ptr_reach as_params params_reach" ClassifiedParams_DeepCopy
  unfolding ClassifiedParams_DeepCopy_def by (rule ptr_copier [OF params.deep_copier_axioms]) simp

interpretation status: deep_copier status_view status_reach Status_DeepCopyInto
  by (rule iso_copier [OF pair_copier [OF flat_copier pair_copier [OF time_copier params_ptr.deep_copier_axioms]],
        where to = "\<lambda>s. ((sta_Phase s, sta_ConflictReason s, sta_CurrentReplicas s, sta_RecommendedReplicas s,
          sta_UnboundedRecommended s, sta_PredictedRPS s, sta_RpsPerPodCurrent s), sta_LastScaleTime s, sta_ClassifiedParams s)"
        and build = "\<lambda>((a, b, c, d, e, f, i), p, q). \<lparr>sta_Phase = a, sta_ConflictReason = b, sta_CurrentReplicas = c,
          sta_RecommendedReplicas = d, sta_UnboundedRecommended = e, sta_PredictedRPS = f, sta_RpsPerPodCurrent = i,
          sta_LastScaleTime = p, sta_ClassifiedParams = q\<rparr>"
        and g = "\<lambda>((a, b, c, d, e, f, i), p, q). \<lparr>st_Phase = a, st_ConflictReason = b, st_CurrentReplicas = c,
          st_RecommendedReplicas = d, st_UnboundedRecommended = e, st_PredictedRPS = f, st_RpsPerPodCurrent = i,
          st_LastScaleTime = p, st_ClassifiedParams = q\<rparr>"])
    (auto simp: status_view_def status_reach_def Status_DeepCopyInto_def ClassifiedParams_DeepCopy_def copying viewing reaching
      split: prod.splits)

lemmas int32_pair = pair_copier [OF int32_copier]

interpretation spec: deep_copier spec_view spec_reach Spec_DeepCopyInto
  by (rule iso_copier [OF pair_copier [OF flat_copier int32_pair [OF int32_pair [OF int32_pair [OF int32_pair
          [OF int32_pair [OF int32_pair [OF int32_pair [OF string_copier]]]]]]]],
        where to = "\<lambda>s. (sp_TargetRef s, sp_MinReplicas s, sp_MaxReplicas s, sp_RpsPerPodMin s, sp_RpsPerPodMax s, sp_MaxStepSize s,
          sp_ScaleUpCooldownSeconds s, sp_ScaleDownCooldownSeconds s, sp_PreferredForecaster s)"
        and build = "\<lambda>(t, a, b, c, d, e, f, i, j). \<lparr>sp_TargetRef = t, sp_MinReplicas = a, sp_MaxReplicas = b, sp_RpsPerPodMin = c,
          sp_RpsPerPodMax = d, sp_MaxStepSize = e, sp_ScaleUpCooldownSeconds = f, sp_ScaleDownCooldownSeconds = i, sp_PreferredForecaster = j\<rparr>"
        and g = "\<lambda>(t, a, b, c, d, e, f, i, j). \<lparr>spec_TargetRef = t, spec_MinReplicas = a, spec_MaxReplicas = b, spec_RpsPerPodMin = c,
          spec_RpsPerPodMax = d, spec_MaxStepSize = e, spec_ScaleUpCooldownSeconds = f, spec_ScaleDownCooldownSeconds = i, spec_PreferredForecaster = j\<rparr>"])
    (auto simp: spec_view_def spec_reach_def Spec_DeepCopyInto_def copying viewing reaching split: prod.splits)

lemma object_copier: "deep_copier u r c \<Longrightarrow> deep_copier (object_view u) (object_reach r) (DeepCopyInto c)"
  by (rule iso_copier [OF pair_copier [OF flat_copier pair_copier [OF _ pair_copier [OF spec.deep_copier_axioms status.deep_copier_axioms]]],
        where to = "\<lambda>a. (ob_TypeMeta a, ob_ObjectMeta a, ob_Spec a, ob_Status a)"
        and build = "\<lambda>(t, m, s, u). \<lparr>ob_TypeMeta = t, ob_ObjectMeta = m, ob_Spec = s, ob_Status = u\<rparr>" and g = "\<lambda>x. x"])
    (auto simp: object_view_def object_reach_def DeepCopyInto_def copying viewing reaching split: prod.splits)

lemma items_copier:
  assumes "deep_copier u r c" and "deep_copier w s d"
  shows "deep_copier (items_view u w) (items_reach r s) (List_DeepCopyInto c d)"
proof -
  have o: "deep_copier (slice_view as_objects (object_view u)) (slice_reach as_objects (object_reach r))
      (slice_copy as_objects ObjectArray (DeepCopyInto c))"
    by (rule slice_copier [OF object_copier [OF assms(1)]]) simp
  show ?thesis
    by (rule iso_copier [OF pair_copier [OF flat_copier pair_copier [OF assms(2) o]],
          where to = "\<lambda>l. (li_TypeMeta l, li_ListMeta l, li_Items l)"
          and build = "\<lambda>(t, m, i). \<lparr>li_TypeMeta = t, li_ListMeta = m, li_Items = i\<rparr>" and g = "\<lambda>x. x"])
      (auto simp: items_view_def items_reach_def List_DeepCopyInto_def copying viewing reaching split: prod.splits)
qed

section \<open>Resources are values\<close>

text \<open>C23. A deep copy of a resource is as good as a value. Whatever the metadata copy of the library does, as
  long as it is a deep copy itself: the copy stands for the same type, metadata, spec and status as
  the original, the original is unchanged, they have no memory in common, and after any later
  writes into the memory of one of them, with any new allocations, the other still stands for what it
  did. A nil pointer is copied to nil.\<close>

theorem DeepCopy_isolates:
  assumes "deep_copier meta_view meta_reach meta_copy"
    and "ptr_view as_object (object_view meta_view) h src = Some v"
    and "DeepCopy meta_copy h src = (h1, dst)"
  shows "ptr_view as_object (object_view meta_view) h1 src = Some v \<and>
    ptr_view as_object (object_view meta_view) h1 dst = Some v \<and>
    ptr_reach as_object (object_reach meta_reach) h1 src \<inter> ptr_reach as_object (object_reach meta_reach) h1 dst = {} \<and>
    (\<forall>h2. (\<forall>p<length h1. p \<notin> ptr_reach as_object (object_reach meta_reach) h1 src \<longrightarrow> load h2 p = load h1 p) \<longrightarrow>
       ptr_view as_object (object_view meta_view) h2 dst = Some v) \<and>
    (\<forall>h2. (\<forall>p<length h1. p \<notin> ptr_reach as_object (object_reach meta_reach) h1 dst \<longrightarrow> load h2 p = load h1 p) \<longrightarrow>
       ptr_view as_object (object_view meta_view) h2 src = Some v)"
proof -
  have C: "deep_copier (ptr_view as_object (object_view meta_view)) (ptr_reach as_object (object_reach meta_reach)) (DeepCopy meta_copy)"
    unfolding DeepCopy_def by (rule ptr_copier [OF object_copier [OF assms(1)]]) simp
  note i = deep_copier.isolated [OF C assms(3,2)]
  show ?thesis
    using deep_copier.grown(1) [OF C deep_copier.copy_grows [OF C assms(3)] assms(2)]
      deep_copier.copy_view [OF C assms(3,2)] i by (intro conjI allI impI) auto
qed

text \<open>The same for lists of resources, and for the copies as interface values.\<close>

lemma List_DeepCopy_copier:
  assumes "deep_copier u r c" and "deep_copier w s d"
  shows "deep_copier (ptr_view as_list (items_view u w)) (ptr_reach as_list (items_reach r s)) (List_DeepCopy c d)"
  unfolding List_DeepCopy_def by (rule ptr_copier [OF items_copier [OF assms]]) simp

lemma DeepCopyObject_eq: "DeepCopyObject c h f = DeepCopy c h f" "List_DeepCopyObject c d h f = List_DeepCopy c d h f"
  by (auto simp: DeepCopyObject_def List_DeepCopyObject_def split: prod.splits option.splits)

text \<open>A metadata layout for the witness: a name and a pointer to the annotations.\<close>

type_synonym demo_meta = "string \<times> ptr option"

fun as_map :: "'m cell \<Rightarrow> (string \<times> string) list option" where "as_map (MetaMap m) = Some m" | "as_map _ = None"

definition demo_meta_view :: "demo_meta store \<Rightarrow> demo_meta \<Rightarrow> (string \<times> (string \<times> string) list option) option" where
  "demo_meta_view = pair_view flat_view (ptr_view as_map flat_view)"

definition demo_meta_reach :: "demo_meta store \<Rightarrow> demo_meta \<Rightarrow> ptr set" where
  "demo_meta_reach = pair_reach no_reach (ptr_reach as_map no_reach)"

definition demo_meta_copy :: "demo_meta store \<Rightarrow> demo_meta \<Rightarrow> demo_meta store \<times> demo_meta" where
  "demo_meta_copy = pair_copy assign (ptr_copy as_map MetaMap assign)"

lemma demo_meta_copier: "deep_copier demo_meta_view demo_meta_reach demo_meta_copy"
  unfolding demo_meta_view_def demo_meta_reach_def demo_meta_copy_def
  by (rule pair_copier [OF flat_copier ptr_copier [OF flat_copier]]) simp

definition demo_spec_struct :: spec_struct where
  "demo_spec_struct = \<lparr>sp_TargetRef = \<lparr>ref_APIVersion = ''apps/v1'', ref_Kind = ''Deployment'', ref_Name = ''web''\<rparr>,
     sp_MinReplicas = Some 0, sp_MaxReplicas = None, sp_RpsPerPodMin = None, sp_RpsPerPodMax = None, sp_MaxStepSize = None,
     sp_ScaleUpCooldownSeconds = None, sp_ScaleDownCooldownSeconds = None, sp_PreferredForecaster = None\<rparr>"

definition demo_status_struct :: status_struct where
  "demo_status_struct = \<lparr>sta_Phase = PhaseReady, sta_ConflictReason = '''', sta_CurrentReplicas = 3, sta_RecommendedReplicas = 3,
     sta_UnboundedRecommended = 3, sta_PredictedRPS = 200, sta_RpsPerPodCurrent = 70, sta_LastScaleTime = None, sta_ClassifiedParams = None\<rparr>"

definition demo_store :: "demo_meta store" where
  "demo_store = [Int32Cell 2, MetaMap [(''owner'', ''team'')],
     ObjectCell \<lparr>ob_TypeMeta = (''AgenticAutoscaler'', ''autoscaling.agentic.io/v1alpha1''), ob_ObjectMeta = (''web'', Some 1),
       ob_Spec = demo_spec_struct, ob_Status = demo_status_struct\<rparr>]"

text \<open>The original's \<^verbatim>\<open>minReplicas\<close> is changed from 2 to 7 after copying.\<close>

definition demo_written :: "demo_meta store" where
  "demo_written = (fst (DeepCopy demo_meta_copy demo_store (Some 2)))[0 := Int32Cell 7]"

lemmas demo_eval = demo_store_def demo_spec_struct_def demo_status_struct_def demo_meta_view_def demo_meta_reach_def demo_meta_copy_def
  DeepCopy_def DeepCopyInto_def Spec_DeepCopyInto_def Status_DeepCopyInto_def int32_copy_def ptr_copy_def copying alloc_def deref_def load_def
  ptr_view_def pair_view_def flat_view_def object_view_def spec_view_def status_view_def

theorem DeepCopy_isolates_witness:
  "ptr_view as_object (object_view demo_meta_view) demo_written (Some 5) = ptr_view as_object (object_view demo_meta_view) demo_store (Some 2) \<and>
   ptr_view as_object (object_view demo_meta_view) demo_written (Some 2) \<noteq> ptr_view as_object (object_view demo_meta_view) demo_store (Some 2)"
proof -
  obtain v where v: "ptr_view as_object (object_view demo_meta_view) demo_store (Some 2) = Some v"
    by (simp add: demo_eval)
  obtain h1 where c: "DeepCopy demo_meta_copy demo_store (Some 2) = (h1, Some 5)" by (simp add: demo_eval)
  have r: "0 \<in> ptr_reach as_object (object_reach demo_meta_reach) h1 (Some 2)"
    using c by (auto simp: demo_eval ptr_reach_def object_reach_def spec_reach_def)
  have w: "demo_written = h1[0 := Int32Cell 7]" by (simp add: demo_written_def c)
  have "load demo_written p = load h1 p" if "p < length h1" "p \<notin> ptr_reach as_object (object_reach demo_meta_reach) h1 (Some 2)" for p
    using that r by (cases "p = 0") (simp_all add: w load_def)
  then have "ptr_view as_object (object_view demo_meta_view) demo_written (Some 5) = Some v"
    using DeepCopy_isolates [OF demo_meta_copier v c] by blast
  then show ?thesis using v c by (auto simp: w demo_eval)
qed

end
