(* ===== verification/Synthetic.thy ===== *)
theory Synthetic
  imports Json
begin

text \<open>
  \<^verbatim>\<open>hack/synthetic\<close>: the command that generates the traffic fixtures of the test suites. The
  pseudo-random generator, \<^verbatim>\<open>math.Sin\<close> and the file system are the fields of a record; a source is a
  state that each draw advances. Written files are JSON values, as in \<open>Json\<close>.

  Lemmas: what the command writes, in which order, and that every fixture is a series of
  non-negative loads one minute apart.
\<close>

section \<open>Generators\<close>

record 'r gen_env =
  ge_NewSource :: "64 word \<Rightarrow> 'r"
  ge_NormFloat64 :: "'r \<Rightarrow> float64 \<times> 'r"
  ge_Float64 :: "'r \<Rightarrow> float64 \<times> 'r"
  ge_Sin :: "float64 \<Rightarrow> float64"
  ge_MkdirAll :: "string \<Rightarrow> string option"
  ge_WriteFile :: "string \<Rightarrow> number json \<Rightarrow> string option"

text \<open>The loop \<^verbatim>\<open>for i := range out\<close>, whose body draws from the source.\<close>

fun gen_loop :: "(nat \<Rightarrow> 'r \<Rightarrow> float64 \<times> 'r) \<Rightarrow> nat list \<Rightarrow> 'r \<Rightarrow> float64 list" where
  "gen_loop body [] r = []"
| "gen_loop body (i # is) r = (case body i r of (v, r') \<Rightarrow> v # gen_loop body is r')"

definition generate :: "'r gen_env \<Rightarrow> (nat \<Rightarrow> 'r \<Rightarrow> float64 \<times> 'r) \<Rightarrow> 64 word \<Rightarrow> nat \<Rightarrow> float64 list" where
  "generate env body seed n = gen_loop body [0..<n] (ge_NewSource env seed)"

definition GenFlat :: "'r gen_env \<Rightarrow> 64 word \<Rightarrow> nat \<Rightarrow> float64 list" where
  "GenFlat env = generate env (\<lambda>i r. case ge_NormFloat64 env r of (z, r1) \<Rightarrow>
     (fmax (Fin 0) (fadd (Fin 200) (fmul z (Fin 5))), r1))"

text \<open>The constant \<^verbatim>\<open>2*math.Pi\<close>, rounded to a float.\<close>

definition two_pi :: float64 where
  "two_pi = Fin (884279719003555 / 140737488355328)"

definition GenPeriodic :: "'r gen_env \<Rightarrow> 64 word \<Rightarrow> nat \<Rightarrow> float64 list" where
  "GenPeriodic env = generate env (\<lambda>i r.
     let cycle = fmul (Fin 100) (ge_Sin env (fdiv (fmul two_pi (float_of_nat i)) (Fin 60)))
     in case ge_NormFloat64 env r of (z, r1) \<Rightarrow>
       (fmax (Fin 0) (fadd (fadd (Fin 200) cycle) (fmul z (Fin 20))), r1))"

definition GenSpiky :: "'r gen_env \<Rightarrow> 64 word \<Rightarrow> nat \<Rightarrow> float64 list" where
  "GenSpiky env = generate env (\<lambda>i r.
     case ge_NormFloat64 env r of (z, r1) \<Rightarrow>
       (let base = fadd (Fin 50) (fmul z (Fin 10))
        in case ge_Float64 env r1 of (u, r2) \<Rightarrow>
             if flt u (rnd (5 / 100))
             then (case ge_Float64 env r2 of (w, r3) \<Rightarrow> (fmax (Fin 0) (fadd base (fadd (Fin 500) (fmul w (Fin 500)))), r3))
             else (fmax (Fin 0) base, r2)))"

definition GenRamp :: "'r gen_env \<Rightarrow> 64 word \<Rightarrow> nat \<Rightarrow> float64 list" where
  "GenRamp env = generate env (\<lambda>i r. case ge_NormFloat64 env r of (z, r1) \<Rightarrow>
     (fmax (Fin 0) (fadd (fadd (Fin 100) (fmul (Fin 3) (float_of_nat i))) (fmul z (Fin 20))), r1))"

definition GenDefault :: "'r gen_env \<Rightarrow> 64 word \<Rightarrow> nat \<Rightarrow> float64 list" where
  "GenDefault env = generate env (\<lambda>i r. case ge_NormFloat64 env r of (z, r1) \<Rightarrow>
     (fmax (Fin 0) (fadd (Fin 200) (fmul z (Fin 50))), r1))"

section \<open>Fixtures\<close>

record data_point =
  dp_TimestampUnix :: "64 word"
  dp_RPS :: float64

definition toPoints :: "float64 list \<Rightarrow> data_point list" where
  "toPoints series = map (\<lambda>(i, v). \<lparr>dp_TimestampUnix = 1716500000 + word_of_nat i * 60, dp_RPS = v\<rparr>) (enumerate 0 series)"

fun marshal_points :: "data_point list \<Rightarrow> marshal_error + number json list" where
  "marshal_points [] = Inr []"
| "marshal_points (p # ps) =
     (case marshal_float (dp_RPS p) of
        Inl e \<Rightarrow> Inl e
      | Inr rps \<Rightarrow> (case marshal_points ps of
            Inl e \<Rightarrow> Inl e
          | Inr js \<Rightarrow> Inr (JObj [(''timestamp_unix'', marshal_int (sint (dp_TimestampUnix p))), (''rps'', rps)] # js)))"

record 'r fixture =
  fx_name :: string
  fx_count :: nat
  fx_gen :: "'r gen_env \<Rightarrow> 64 word \<Rightarrow> nat \<Rightarrow> float64 list"

definition fixtures :: "'r fixture list" where
  "fixtures = map (\<lambda>(nm, k, g). \<lparr>fx_name = nm, fx_count = k, fx_gen = g\<rparr>)
     [(''flat_1440'', 1440, GenFlat), (''periodic_1440'', 1440, GenPeriodic), (''spiky_1440'', 1440, GenSpiky),
      (''gradual_ramp_1440'', 1440, GenRamp), (''default_1440'', 1440, GenDefault), (''flat_70'', 70, GenFlat),
      (''insufficient_50'', 50, GenFlat)]"

text \<open>\<^verbatim>\<open>filepath.Join\<close> of two elements: the non-empty ones with a slash between them, cleaned. Cleaning
  keeps a leading slash, drops empty and \<^verbatim>\<open>.\<close> elements and lets \<^verbatim>\<open>..\<close> take back the element before it,
  unless there is none: then it is kept in a relative path and dropped in a rooted one.\<close>

fun path_elements :: "string \<Rightarrow> string list" where
  "path_elements [] = [[]]"
| "path_elements (c # s) = (if c = CHR ''/'' then [] # path_elements s
     else case path_elements s of l # ls \<Rightarrow> (c # l) # ls | [] \<Rightarrow> [[c]])"

fun clean_step :: "bool \<Rightarrow> string \<Rightarrow> string list \<Rightarrow> string list" where
  "clean_step rooted e stack =
     (if e = '''' \<or> e = ''.'' then stack
      else if e = ''..'' then
        (case stack of t # ts \<Rightarrow> if t = ''..'' then e # stack else ts | [] \<Rightarrow> if rooted then [] else [e])
      else e # stack)"

definition Clean :: "string \<Rightarrow> string" where
  "Clean p =
     (let rooted = (case p of c # _ \<Rightarrow> c = CHR ''/'' | [] \<Rightarrow> False);
          body = join ''/'' (List.rev (fold (clean_step rooted) (path_elements p) []))
      in if rooted then CHR ''/'' # body else if body = '''' then ''.'' else body)"

definition Join :: "string \<Rightarrow> string \<Rightarrow> string" where
  "Join dir name = (case filter (\<lambda>e. e \<noteq> '''') [dir, name] of [] \<Rightarrow> '''' | es \<Rightarrow> Clean (join ''/'' es))"

section \<open>The command\<close>

datatype gen_event = Stderr string | Wrote string "number json list" | Printed string

fun marshal_error_text :: "marshal_error \<Rightarrow> string" where
  "marshal_error_text (UnsupportedValue v) = ''json: unsupported value: '' @
     (case v of PInf \<Rightarrow> ''+Inf'' | NInf \<Rightarrow> ''-Inf'' | _ \<Rightarrow> ''NaN'')"

fun write_fixtures :: "'r gen_env \<Rightarrow> string \<Rightarrow> 64 word \<Rightarrow> 'r fixture list \<Rightarrow> gen_event list \<times> int" where
  "write_fixtures env outputDir seed [] = ([], 0)"
| "write_fixtures env outputDir seed (f # fs) =
     (let points = toPoints (fx_gen f env seed (fx_count f))
      in case marshal_points points of
           Inl e \<Rightarrow> ([Stderr (''marshal '' @ fx_name f @ '': '' @ marshal_error_text e)], 1)
         | Inr data \<Rightarrow>
             (let path = Join outputDir (fx_name f @ ''.json'')
              in case ge_WriteFile env path (JArr data) of
                   Some e \<Rightarrow> ([Stderr (''write '' @ path @ '': '' @ e)], 1)
                 | None \<Rightarrow> (case write_fixtures env outputDir seed fs of (evs, code) \<Rightarrow>
                     (Wrote path data # Printed (''wrote '' @ path @ '' ('' @ itoa (int (length points)) @ '' points)'') # evs, code))))"

definition synthetic_main :: "'r gen_env \<Rightarrow> string \<Rightarrow> 64 word \<Rightarrow> gen_event list \<times> int" where
  "synthetic_main env outputDir seed =
     (case ge_MkdirAll env outputDir of
        Some e \<Rightarrow> ([Stderr (''create '' @ outputDir @ '': '' @ e)], 1)
      | None \<Rightarrow> write_fixtures env outputDir seed fixtures)"

section \<open>Lemmas\<close>

text \<open>What \<^verbatim>\<open>math/rand\<close> and \<^verbatim>\<open>math\<close> document: normal draws are finite, uniform draws lie in \<open>[0, 1)\<close>, and a sine in \<open>[-1, 1]\<close>.\<close>

definition draws_ok :: "'r gen_env \<Rightarrow> bool" where
  "draws_ok env \<longleftrightarrow> (\<forall>r. finite64 (fst (ge_NormFloat64 env r))) \<and>
     (\<forall>r. \<exists>u. fst (ge_Float64 env r) = Fin u \<and> 0 \<le> u \<and> u < 1) \<and>
     (\<forall>x. finite64 x \<longrightarrow> (\<exists>y. ge_Sin env x = Fin y \<and> \<bar>y\<bar> \<le> 1))"

lemma length_gen_loop [simp]: "length (gen_loop body is r) = length is"
  by (induction "is" arbitrary: r) (auto split: prod.splits)

lemma gen_loop_all: "(\<And>i r. i \<in> set is \<Longrightarrow> P (fst (body i r))) \<Longrightarrow> list_all P (gen_loop body is r)"
proof (induction "is" arbitrary: r)
  case (Cons i "is")
  have "P (fst (body i r))" using Cons.prems by simp
  moreover have "list_all P (gen_loop body is (snd (body i r)))" using Cons.prems by (intro Cons.IH) simp
  ultimately show ?case by (simp add: split_def)
qed simp

definition nonneg64 :: "float64 \<Rightarrow> bool" where
  "nonneg64 v \<longleftrightarrow> v = PInf \<or> (\<exists>x. v = Fin x \<and> 0 \<le> x)"

lemma fmax_nonneg: "v \<noteq> NaN \<Longrightarrow> nonneg64 (fmax (Fin 0) v)"
  by (cases v) (auto simp: nonneg64_def)

lemma fadd_Fin_NaN [simp]: "fadd (Fin x) v = NaN \<longleftrightarrow> v = NaN" "fadd v (Fin x) = NaN \<longleftrightarrow> v = NaN"
  by (cases v; simp)+

lemma finite64_iff: "finite64 v \<longleftrightarrow> (\<exists>x. v = Fin x)"
  by (cases v) (simp_all add: finite64_def)

lemma rnd_small: "\<bar>x\<bar> \<le> of_int n \<Longrightarrow> \<bar>n\<bar> \<le> 2 ^ 53 \<Longrightarrow> \<exists>y. rnd x = Fin y \<and> \<bar>y\<bar> \<le> of_int n"
  using rnd_finite_int [of x n] f64.rd_abs_le [of x n] by blast

lemma noise:
  assumes "draws_ok env"
  obtains x where "ge_NormFloat64 env r = (Fin x, snd (ge_NormFloat64 env r))"
proof -
  have "finite64 (fst (ge_NormFloat64 env r))" using assms by (simp add: draws_ok_def)
  then show thesis using that by (cases "ge_NormFloat64 env r") (auto simp: finite64_iff)
qed

text \<open>Adding normal noise to a finite value and cutting off at zero never gives a negative load or
  not-a-number.\<close>

lemma noisy_nonneg:
  assumes "draws_ok env"
  shows "nonneg64 (fst (case ge_NormFloat64 env r of (z, r1) \<Rightarrow> (fmax (Fin 0) (fadd (Fin a) (fmul z (Fin b))), r1)))"
  by (rule noise [OF assms, of r]) (auto intro!: fmax_nonneg split: prod.splits)

lemma generate_all:
  "(\<And>i r. i < n \<Longrightarrow> nonneg64 (fst (body i r))) \<Longrightarrow> length (generate env body seed n) = n \<and> list_all nonneg64 (generate env body seed n)"
  unfolding generate_def by (auto intro: gen_loop_all)

lemma cycle_small:
  assumes "draws_ok env" and "i < 2 ^ 40"
  obtains c where "fmul (Fin 100) (ge_Sin env (fdiv (fmul two_pi (float_of_nat i)) (Fin 60))) = Fin c" and "\<bar>c\<bar> \<le> 100"
proof -
  have i: "float_of_nat i = Fin (of_nat i)" using assms(2) by (intro float_of_nat_exact) simp
  have "(of_nat i :: rat) \<le> 2 ^ 40" using assms(2) by (metis less_imp_le of_nat_le_iff of_nat_numeral of_nat_power)
  then have "\<bar>884279719003555 / 140737488355328 * of_nat i :: rat\<bar> \<le> of_int (2 ^ 43)" by (simp add: abs_mult)
  from rnd_small [OF this] obtain a where a: "fmul two_pi (float_of_nat i) = Fin a" "\<bar>a\<bar> \<le> of_int (2 ^ 43)"
    by (auto simp: two_pi_def i)
  from rnd_small [of "a / 60" "2 ^ 43"] a obtain b where "fdiv (fmul two_pi (float_of_nat i)) (Fin 60) = Fin b" by auto
  then obtain y where y: "ge_Sin env (fdiv (fmul two_pi (float_of_nat i)) (Fin 60)) = Fin y" "\<bar>y\<bar> \<le> 1"
    using assms(1) by (auto simp: draws_ok_def finite64_iff)
  from rnd_small [of "100 * y" 100] y that show thesis by (auto simp: abs_mult)
qed

lemma small_sum:
  assumes "\<bar>a\<bar> \<le> 1000" and "\<bar>c\<bar> \<le> 2 ^ 42"
  shows "\<exists>x. fadd (Fin a) (Fin c) = Fin x"
proof -
  have "\<bar>a + c\<bar> \<le> 1000 + 2 ^ 42" using abs_triangle_ineq [of a c] assms by linarith
  also have "\<dots> \<le> of_int (2 ^ 43)" by simp
  finally show ?thesis using rnd_small [of "a + c" "2 ^ 43"] by auto
qed

text \<open>The series of every generator: as long as asked for, and never negative.\<close>

lemma GenFlat_ok: "draws_ok env \<Longrightarrow> length (GenFlat env seed n) = n \<and> list_all nonneg64 (GenFlat env seed n)"
  unfolding GenFlat_def by (intro generate_all noisy_nonneg)

lemma GenDefault_ok: "draws_ok env \<Longrightarrow> length (GenDefault env seed n) = n \<and> list_all nonneg64 (GenDefault env seed n)"
  unfolding GenDefault_def by (intro generate_all noisy_nonneg)

lemma GenRamp_ok:
  assumes "draws_ok env" and "n \<le> 2 ^ 40"
  shows "length (GenRamp env seed n) = n \<and> list_all nonneg64 (GenRamp env seed n)"
proof -
  have "\<exists>x. fadd (Fin 100) (fmul (Fin 3) (float_of_nat i)) = Fin x" if "i < n" for i
  proof -
    have i: "i < 2 ^ 40" using that assms(2) by linarith
    have "(of_nat i :: rat) \<le> 2 ^ 40" using i by (metis less_imp_le of_nat_le_iff of_nat_numeral of_nat_power)
    then have "\<bar>3 * of_nat i :: rat\<bar> \<le> of_int (2 ^ 42)" by (simp add: abs_mult)
    from rnd_small [OF this] obtain y where "rnd (3 * of_nat i) = Fin y" "\<bar>y\<bar> \<le> 2 ^ 42" by auto
    then show ?thesis using small_sum [of 100 y] i by (simp add: float_of_nat_exact)
  qed
  then show ?thesis unfolding GenRamp_def by (intro generate_all) (use noisy_nonneg [OF assms(1)] in fastforce)
qed

lemma GenPeriodic_ok:
  assumes "draws_ok env" and "n \<le> 2 ^ 40"
  shows "length (GenPeriodic env seed n) = n \<and> list_all nonneg64 (GenPeriodic env seed n)"
proof -
  have "\<exists>x. fadd (Fin 200) (fmul (Fin 100) (ge_Sin env (fdiv (fmul two_pi (float_of_nat i)) (Fin 60)))) = Fin x" if "i < n" for i
  proof -
    have "i < 2 ^ 40" using that assms(2) by linarith
    then obtain c where "fmul (Fin 100) (ge_Sin env (fdiv (fmul two_pi (float_of_nat i)) (Fin 60))) = Fin c" "\<bar>c\<bar> \<le> 100"
      using cycle_small [OF assms(1)] by blast
    then show ?thesis using small_sum [of 200 c] by simp
  qed
  then show ?thesis
    unfolding GenPeriodic_def Let_def by (intro generate_all) (use noisy_nonneg [OF assms(1)] in fastforce)
qed

lemma spike_finite:
  assumes "draws_ok env"
  obtains x where "fadd (Fin 500) (fmul (fst (ge_Float64 env r)) (Fin 500)) = Fin x"
proof -
  obtain u where u: "fst (ge_Float64 env r) = Fin u" "\<bar>u * 500\<bar> \<le> of_int 500"
    using assms unfolding draws_ok_def by (metis (no_types) abs_mult abs_of_nonneg abs_numeral less_imp_le mult_left_le_one_le of_int_numeral zero_le_numeral)
  from rnd_small [OF u(2)] obtain y where "rnd (u * 500) = Fin y" "\<bar>y\<bar> \<le> 500" by auto
  then show thesis using small_sum [of 500 y] u(1) that by auto
qed

lemma GenSpiky_ok:
  assumes "draws_ok env"
  shows "length (GenSpiky env seed n) = n \<and> list_all nonneg64 (GenSpiky env seed n)"
  unfolding GenSpiky_def
proof (intro generate_all)
  fix i r
  obtain z r1 where z: "ge_NormFloat64 env r = (Fin z, r1)" using noise [OF assms] by blast
  obtain u r2 where u: "ge_Float64 env r1 = (u, r2)" by fastforce
  obtain w r3 where w: "ge_Float64 env r2 = (w, r3)" by fastforce
  obtain x where "fadd (Fin 500) (fmul w (Fin 500)) = Fin x" using spike_finite [OF assms, of r2] w by auto
  then show "nonneg64 (fst (case ge_NormFloat64 env r of (z, r1) \<Rightarrow>
      let base = fadd (Fin 50) (fmul z (Fin 10))
      in case ge_Float64 env r1 of (u, r2) \<Rightarrow>
         if flt u (rnd (5 / 100)) then case ge_Float64 env r2 of (w, r3) \<Rightarrow> (fmax (Fin 0) (fadd base (fadd (Fin 500) (fmul w (Fin 500)))), r3)
         else (fmax (Fin 0) base, r2)))"
    by (auto simp: z u w Let_def intro!: fmax_nonneg)
qed

text \<open>What one file should hold: \<open>k\<close> points, one minute apart from a fixed start, with finite
  non-negative loads.\<close>

definition point_ok :: "nat \<Rightarrow> number json \<Rightarrow> bool" where
  "point_ok i j \<longleftrightarrow> (\<exists>v. 0 \<le> v \<and> j = JObj [(''timestamp_unix'', JNum (NumInt (1716500000 + 60 * int i))), (''rps'', JNum (NumFloat v))])"

definition series_ok :: "nat \<Rightarrow> number json list \<Rightarrow> bool" where
  "series_ok k data \<longleftrightarrow> length data = k \<and> (\<forall>i<k. point_ok i (data ! i))"

fun written :: "gen_event list \<Rightarrow> (string \<times> number json list) list" where
  "written [] = []"
| "written (Wrote path data # evs) = (path, data) # written evs"
| "written (_ # evs) = written evs"

lemma sint_timestamp:
  assumes "i < 2 ^ 31"
  shows "sint (1716500000 + word_of_nat i * 60 :: 64 word) = 1716500000 + 60 * int i"
proof -
  have "(1716500000 + word_of_nat i * 60 :: 64 word) = word_of_int (1716500000 + 60 * int i)" by (simp add: mult.commute)
  then show ?thesis using assms by (simp only: sint_sbintrunc') (simp add: signed_take_bit_int_eq_self)
qed

lemma marshal_points_nth:
  "marshal_points ps = Inr js \<Longrightarrow> length js = length ps \<and> (\<forall>i<length ps. \<exists>v. dp_RPS (ps ! i) = Fin v \<and>
     js ! i = JObj [(''timestamp_unix'', JNum (NumInt (sint (dp_TimestampUnix (ps ! i))))), (''rps'', JNum (NumFloat v))])"
proof (induction ps arbitrary: js)
  case (Cons p ps)
  then obtain v ks where "dp_RPS p = Fin v" "marshal_points ps = Inr ks"
    "js = JObj [(''timestamp_unix'', marshal_int (sint (dp_TimestampUnix p))), (''rps'', JNum (NumFloat v))] # ks"
    by (cases "dp_RPS p") (auto split: sum.splits)
  then show ?case using Cons.IH by (auto simp: nth_Cons' marshal_int_def)
qed simp

lemma series_ok_marshalled:
  assumes "length s = k" and "list_all nonneg64 s" and "k \<le> 2 ^ 31" and "marshal_points (toPoints s) = Inr data"
  shows "series_ok k data"
proof -
  have p: "toPoints s ! i = \<lparr>dp_TimestampUnix = 1716500000 + word_of_nat i * 60, dp_RPS = s ! i\<rparr>" if "i < k" for i
    using that assms(1) by (simp add: toPoints_def nth_enumerate_eq)
  have l: "length (toPoints s) = k" using assms(1) by (simp add: toPoints_def)
  have "point_ok i (data ! i)" if i: "i < k" for i
  proof -
    have "nonneg64 (s ! i)" using assms(1,2) i by (simp add: list_all_length)
    then show ?thesis
      using marshal_points_nth [OF assms(4)] i sint_timestamp [of i] assms(3) p [OF i] unfolding l point_ok_def nonneg64_def by force
  qed
  then show ?thesis using marshal_points_nth [OF assms(4)] l by (simp add: series_ok_def)
qed

text \<open>The files of a run are those of the first fixtures, all of them iff it succeeds.\<close>

lemma write_fixtures_prefix:
  assumes "\<forall>f\<in>set fs. \<forall>data. marshal_points (toPoints (fx_gen f env seed (fx_count f))) = Inr data \<longrightarrow> series_ok (fx_count f) data"
    and "write_fixtures env dir seed fs = (evs, code)"
  shows "\<exists>k\<le>length fs. map fst (written evs) = map (\<lambda>f. Join dir (fx_name f @ ''.json'')) (take k fs) \<and>
    list_all2 (\<lambda>f (_, data). series_ok (fx_count f) data) (take k fs) (written evs) \<and> (code = 0 \<longleftrightarrow> k = length fs) \<and> (code = 0 \<or> code = 1)"
  using assms
proof (induction fs arbitrary: evs)
  case (Cons f fs)
  show ?case
  proof (cases "\<exists>data evs'. marshal_points (toPoints (fx_gen f env seed (fx_count f))) = Inr data \<and>
      ge_WriteFile env (Join dir (fx_name f @ ''.json'')) (JArr data) = None \<and> write_fixtures env dir seed fs = (evs', code) \<and>
      written evs = (Join dir (fx_name f @ ''.json''), data) # written evs'")
    case True
    then obtain data evs' where d: "marshal_points (toPoints (fx_gen f env seed (fx_count f))) = Inr data"
      "write_fixtures env dir seed fs = (evs', code)" "written evs = (Join dir (fx_name f @ ''.json''), data) # written evs'" by blast
    obtain k where "k \<le> length fs" "map fst (written evs') = map (\<lambda>f. Join dir (fx_name f @ ''.json'')) (take k fs)"
      "list_all2 (\<lambda>f (_, data). series_ok (fx_count f) data) (take k fs) (written evs')" "code = 0 \<longleftrightarrow> k = length fs" "code = 0 \<or> code = 1"
      using Cons.IH [OF _ d(2)] Cons.prems(1) by auto
    then show ?thesis using d Cons.prems(1) by (intro exI [of _ "Suc k"]) simp
  next
    case False
    then have "written evs = [] \<and> code = 1"
      using Cons.prems(2) by (auto simp: Let_def split: sum.splits option.splits prod.splits)
    then show ?thesis by (intro exI [of _ 0]) simp
  qed
qed auto

text \<open>The fixture generator does what the test suites rely on. For every seed, and whatever the draws,
  it writes the fixtures in the order of the table, ends with status 0 iff all seven are written and
  otherwise with status 1; and every file written has as many points as its fixture asks for,
  one minute apart from a fixed start, with finite loads that are never negative.\<close>

theorem synthetic_fixtures:
  assumes "draws_ok env" and "synthetic_main env dir seed = (evs, code)"
  shows "\<exists>k\<le>7. map fst (written evs) = take k (map (\<lambda>nm. Join dir (nm @ ''.json''))
      [''flat_1440'', ''periodic_1440'', ''spiky_1440'', ''gradual_ramp_1440'', ''default_1440'', ''flat_70'', ''insufficient_50'']) \<and>
    list_all2 (\<lambda>n (_, data). series_ok n data) (take k [1440, 1440, 1440, 1440, 1440, 70, 50]) (written evs) \<and>
    code = (if k = 7 then 0 else 1)"
proof (cases "ge_MkdirAll env dir")
  case None
  then have w: "write_fixtures env dir seed fixtures = (evs, code)" using assms(2) by (simp add: synthetic_main_def)
  have "series_ok (fx_count f) data"
    if f: "f \<in> set fixtures" and d: "marshal_points (toPoints (fx_gen f env seed (fx_count f))) = Inr data" for f data
  proof (rule series_ok_marshalled [OF _ _ _ d])
    have "length (fx_gen f env seed (fx_count f)) = fx_count f \<and> list_all nonneg64 (fx_gen f env seed (fx_count f)) \<and> fx_count f \<le> 2 ^ 31"
      using f unfolding fixtures_def
      by (auto simp: GenFlat_ok [OF assms(1)] GenDefault_ok [OF assms(1)] GenSpiky_ok [OF assms(1)] GenRamp_ok [OF assms(1)] GenPeriodic_ok [OF assms(1)])
    then show "length (fx_gen f env seed (fx_count f)) = fx_count f" "list_all nonneg64 (fx_gen f env seed (fx_count f))" "fx_count f \<le> 2 ^ 31"
      by simp_all
  qed
  then obtain k where k: "k \<le> length (fixtures :: 'a fixture list)"
      "map fst (written evs) = map (\<lambda>f. Join dir (fx_name f @ ''.json'')) (take k (fixtures :: 'a fixture list))"
      "list_all2 (\<lambda>f (_, data). series_ok (fx_count f) data) (take k (fixtures :: 'a fixture list)) (written evs)"
      "code = 0 \<longleftrightarrow> k = length (fixtures :: 'a fixture list)" "code = 0 \<or> code = 1"
    using write_fixtures_prefix [OF _ w] by blast
  have l: "length (fixtures :: 'a fixture list) = 7" by (simp add: fixtures_def)
  have n: "map (\<lambda>f. Join dir (fx_name f @ ''.json'')) (take k (fixtures :: 'a fixture list)) = take k (map (\<lambda>nm. Join dir (nm @ ''.json''))
      [''flat_1440'', ''periodic_1440'', ''spiky_1440'', ''gradual_ramp_1440'', ''default_1440'', ''flat_70'', ''insufficient_50''])"
    by (simp add: fixtures_def flip: take_map)
  have c: "map fx_count (take k (fixtures :: 'a fixture list)) = take k [1440, 1440, 1440, 1440, 1440, 70, 50]"
    by (simp add: fixtures_def flip: take_map)
  have "list_all2 (\<lambda>n (_, data). series_ok n data) (map fx_count (take k (fixtures :: 'a fixture list))) (written evs)"
    using k(3) by (simp add: list_all2_map1)
  then show ?thesis using k(1,2,4,5) unfolding l n c by (intro exI [of _ k] conjI) auto
next
  case (Some e)
  then have "evs = [Stderr (''create '' @ dir @ '': '' @ e)]" "code = 1" using assms(2) by (auto simp: synthetic_main_def)
  then show ?thesis by (intro exI [of _ 0]) simp
qed

text \<open>A run without noise on a disk that has room for one file.\<close>

definition demo_gen :: "unit gen_env" where
  "demo_gen = \<lparr>ge_NewSource = (\<lambda>_. ()), ge_NormFloat64 = (\<lambda>_. (Fin 0, ())), ge_Float64 = (\<lambda>_. (Fin (1 / 2), ())), ge_Sin = (\<lambda>_. Fin 0),
     ge_MkdirAll = (\<lambda>_. None),
     ge_WriteFile = (\<lambda>path _. if path = ''testdata/flat_1440.json'' then None else Some ''no space left on device'')\<rparr>"

lemma marshal_points_ok: "list_all finite64 s \<Longrightarrow> \<exists>js. marshal_points (toPoints s) = Inr js"
proof -
  have "list_all (\<lambda>p. finite64 (dp_RPS p)) ps \<Longrightarrow> \<exists>js. marshal_points ps = Inr js" for ps
    by (induction ps) (auto simp: finite64_iff)
  moreover assume "list_all finite64 s"
  ultimately show ?thesis by (simp add: toPoints_def list_all_length nth_enumerate_eq)
qed

lemma demo_paths:
  "Join ''testdata'' (''flat_1440'' @ ''.json'') = ''testdata/flat_1440.json''"
  "Join ''testdata'' (''periodic_1440'' @ ''.json'') = ''testdata/periodic_1440.json''"
  by (simp_all add: Join_def Clean_def)

theorem synthetic_fixtures_witness:
  "\<exists>data. written (fst (synthetic_main demo_gen ''testdata'' 42)) = [(''testdata/flat_1440.json'', data)] \<and> series_ok 1440 data \<and>
     snd (synthetic_main demo_gen ''testdata'' 42) = 1"
proof -
  have ok: "draws_ok demo_gen" by (auto simp: draws_ok_def demo_gen_def finite64_def intro: exI [of _ "1 / 2"])
  have r: "rnd 0 = Fin 0" "rnd 200 = Fin 200" using rnd_of_int [of 0] rnd_of_int [of 200] by simp_all
  have "list_all finite64 (GenFlat demo_gen 42 1440)"
    unfolding GenFlat_def generate_def by (rule gen_loop_all) (simp add: demo_gen_def finite64_def r)
  then obtain data where d: "marshal_points (toPoints (GenFlat demo_gen 42 1440)) = Inr data" using marshal_points_ok by blast
  define rest where "rest = (tl fixtures :: unit fixture list)"
  have f: "(fixtures :: unit fixture list) = \<lparr>fx_name = ''flat_1440'', fx_count = 1440, fx_gen = GenFlat\<rparr> # rest"
    "\<exists>fs. rest = \<lparr>fx_name = ''periodic_1440'', fx_count = 1440, fx_gen = GenPeriodic\<rparr> # fs"
    by (simp_all add: rest_def fixtures_def)
  have io: "ge_WriteFile demo_gen ''testdata/flat_1440.json'' j = None" "\<exists>e. ge_WriteFile demo_gen ''testdata/periodic_1440.json'' j = Some e"
    "ge_MkdirAll demo_gen dir = None" for j dir by (simp_all add: demo_gen_def)
  obtain fs where fs: "rest = \<lparr>fx_name = ''periodic_1440'', fx_count = 1440, fx_gen = GenPeriodic\<rparr> # fs" using f(2) by blast
  obtain line where w: "write_fixtures demo_gen ''testdata'' 42 rest = ([Stderr line], 1)"
  proof (cases "marshal_points (toPoints (GenPeriodic demo_gen 42 1440))")
    case (Inr js)
    obtain e where "ge_WriteFile demo_gen ''testdata/periodic_1440.json'' (JArr js) = Some e" using io(2) by blast
    with Inr show thesis using that demo_paths(2) by (simp add: fs Let_def)
  qed (use that in \<open>simp add: fs\<close>)
  have m: "written (fst (synthetic_main demo_gen ''testdata'' 42)) = [(''testdata/flat_1440.json'', data)]"
    "snd (synthetic_main demo_gen ''testdata'' 42) = 1"
    unfolding synthetic_main_def f(1) write_fixtures.simps using d w demo_paths(1) by (simp_all add: io Let_def)
  have "series_ok 1440 data"
    using synthetic_fixtures [OF ok prod.collapse [symmetric], of "''testdata''" 42] unfolding m
    by (auto simp: list_all2_Cons2 take_Cons' split: if_splits)
  then show ?thesis using m by blast
qed

end
