(* ===== verification/TestUtils.thy ===== *)
theory TestUtils
  imports GoText "HOL-Library.Sublist"
begin

text \<open>
  \<^verbatim>\<open>test/utils/utils.go\<close>: the helpers of the end-to-end tests. The operating system is the record
  \<open>os\<close>, whose fields answer the calls; a process keeps its working directory, the commands it has run
  and what it has written to the log of the test runner. Files are byte strings.

  Lemmas: what \<^verbatim>\<open>UncommentCode\<close> writes for any target; that it restores code whose lines were
  commented out; that a line longer than the scanner's buffer makes it drop code without an error;
  that commands run in the project directory, wherever the tests were started.
\<close>

section \<open>Strings\<close>

text \<open>\<^verbatim>\<open>strings.Index\<close>, \<^verbatim>\<open>strings.Contains\<close>, \<^verbatim>\<open>strings.TrimPrefix\<close>, \<^verbatim>\<open>strings.Split(s, "\n")\<close> and the removal that
  \<^verbatim>\<open>strings.Replace(s, old, "", -1)\<close> does.\<close>

fun Index :: "string \<Rightarrow> string \<Rightarrow> nat option" where
  "Index s t = (if take (length t) s = t then Some 0
     else case s of [] \<Rightarrow> None | _ # s' \<Rightarrow> map_option Suc (Index s' t))"

declare Index.simps [simp del]

definition Contains :: "string \<Rightarrow> string \<Rightarrow> bool" where
  "Contains s t \<longleftrightarrow> Index s t \<noteq> None"

definition TrimPrefix :: "string \<Rightarrow> string \<Rightarrow> string" where
  "TrimPrefix s p = (if take (length p) s = p then drop (length p) s else s)"

definition nl :: char where "nl = CHR 0x0A"
definition cr :: char where "cr = CHR 0x0D"

fun split_lines :: "string \<Rightarrow> string list" where
  "split_lines [] = [[]]"
| "split_lines (c # s) = (if c = nl then [] # split_lines s
     else case split_lines s of l # ls \<Rightarrow> (c # l) # ls | [] \<Rightarrow> [[c]])"

function remove_all :: "string \<Rightarrow> string \<Rightarrow> string" where
  "remove_all old s = (case s of [] \<Rightarrow> []
     | c # s' \<Rightarrow> if old \<noteq> [] \<and> take (length old) s = old then remove_all old (drop (length old) s) else c # remove_all old s')"
  by auto
termination by (relation "measure (\<lambda>(old, s). length s)") auto

declare remove_all.simps [simp del]

text \<open>\<^verbatim>\<open>bufio.Scanner\<close> with its default split function: lines without their newline and one carriage
  return before it; what follows the last newline is a line if it is not empty; a line that does not
  fit the buffer of 64 KiB ends the scan.\<close>

definition MaxScanTokenSize :: nat where "MaxScanTokenSize = 65536"

definition dropCR :: "string \<Rightarrow> string" where
  "dropCR l = (if l \<noteq> [] \<and> List.last l = cr then butlast l else l)"

fun scan_tokens :: "string list \<Rightarrow> string list" where
  "scan_tokens [] = []"
| "scan_tokens [l] = (if l = [] \<or> length l \<ge> MaxScanTokenSize then [] else [dropCR l])"
| "scan_tokens (l # ls) = (if length l \<ge> MaxScanTokenSize then [] else dropCR l # scan_tokens ls)"

definition Scan :: "string \<Rightarrow> string list" where
  "Scan s = scan_tokens (split_lines s)"

section \<open>The process and its environment\<close>

record command =
  cmd_Args :: "string list"
  cmd_Dir :: string
  cmd_Env :: "string list"

record os =
  os_Getwd :: "string \<Rightarrow> string \<times> string option" \<comment> \<open>from the working directory\<close>
  os_Chdir :: "string \<Rightarrow> string option"
  os_Environ :: "string list"
  os_LookupEnv :: "string \<Rightarrow> string option"
  os_CombinedOutput :: "command list \<Rightarrow> command \<Rightarrow> string \<times> string option" \<comment> \<open>after the commands already run\<close>
  os_ReadFile :: "string \<Rightarrow> string + string"
  os_WriteFile :: "string \<Rightarrow> string \<Rightarrow> string option"

record process =
  pr_wd :: string
  pr_ran :: "command list"
  pr_log :: "string list"

definition log_line :: "string \<Rightarrow> process \<Rightarrow> process" where
  "log_line l p = p\<lparr>pr_log := pr_log p @ [l @ [nl]]\<rparr>"

definition warnError :: "string \<Rightarrow> process \<Rightarrow> process" where
  "warnError err p = log_line (''warning: '' @ err) p"

definition GetProjectDir :: "os \<Rightarrow> process \<Rightarrow> string \<times> string option" where
  "GetProjectDir os p = (case os_Getwd os (pr_wd p) of
     (wd, Some err) \<Rightarrow> (wd, Some err)
   | (wd, None) \<Rightarrow> (remove_all ''/test/e2e'' wd, None))"

definition Run :: "os \<Rightarrow> string list \<Rightarrow> process \<Rightarrow> (string \<times> string option) \<times> process" where
  "Run os args p =
     (let dir = fst (GetProjectDir os p);
          p1 = (case os_Chdir os dir of Some err \<Rightarrow> log_line (''chdir dir: '' @ err) p | None \<Rightarrow> p\<lparr>pr_wd := dir\<rparr>);
          cmd = \<lparr>cmd_Args = args, cmd_Dir = dir, cmd_Env = os_Environ os @ [''GO111MODULE=on'']\<rparr>;
          line = join '' '' args;
          p2 = log_line (''running: '' @ line) p1;
          (output, err) = os_CombinedOutput os (pr_ran p2) cmd;
          p3 = p2\<lparr>pr_ran := pr_ran p2 @ [cmd]\<rparr>
      in case err of
           Some e \<Rightarrow> ((output, Some (line @ '' failed with error: ('' @ e @ '') '' @ output)), p3)
         | None \<Rightarrow> ((output, None), p3))"

section \<open>Installing and checking\<close>

definition prometheusOperatorURL :: string where
  "prometheusOperatorURL = ''https://github.com/prometheus-operator/prometheus-operator/releases/download/v0.77.1/bundle.yaml''"

definition certmanagerURL :: string where
  "certmanagerURL = ''https://github.com/jetstack/cert-manager/releases/download/v1.16.0/cert-manager.yaml''"

definition InstallPrometheusOperator :: "os \<Rightarrow> process \<Rightarrow> string option \<times> process" where
  "InstallPrometheusOperator os p =
     (case Run os [''kubectl'', ''create'', ''-f'', prometheusOperatorURL] p of ((_, err), p') \<Rightarrow> (err, p'))"

definition uninstall :: "string \<Rightarrow> os \<Rightarrow> process \<Rightarrow> process" where
  "uninstall url os p = (case Run os [''kubectl'', ''delete'', ''-f'', url] p of
     ((_, Some err), p') \<Rightarrow> warnError err p' | ((_, None), p') \<Rightarrow> p')"

definition UninstallPrometheusOperator :: "os \<Rightarrow> process \<Rightarrow> process" where
  "UninstallPrometheusOperator = uninstall prometheusOperatorURL"

definition UninstallCertManager :: "os \<Rightarrow> process \<Rightarrow> process" where
  "UninstallCertManager = uninstall certmanagerURL"

definition InstallCertManager :: "os \<Rightarrow> process \<Rightarrow> string option \<times> process" where
  "InstallCertManager os p =
     (case Run os [''kubectl'', ''apply'', ''-f'', certmanagerURL] p of
        ((_, Some err), p1) \<Rightarrow> (Some err, p1)
      | ((_, None), p1) \<Rightarrow>
          (case Run os [''kubectl'', ''wait'', ''deployment.apps/cert-manager-webhook'', ''--for'', ''condition=Available'',
               ''--namespace'', ''cert-manager'', ''--timeout'', ''5m''] p1 of ((_, err), p2) \<Rightarrow> (err, p2)))"

definition GetNonEmptyLines :: "string \<Rightarrow> string list" where
  "GetNonEmptyLines output = filter (\<lambda>e. e \<noteq> []) (split_lines output)"

definition crds_installed :: "string list \<Rightarrow> string list \<Rightarrow> os \<Rightarrow> process \<Rightarrow> bool \<times> process" where
  "crds_installed crds args os p = (case Run os args p of
     ((_, Some _), p') \<Rightarrow> (False, p')
   | ((output, None), p') \<Rightarrow> (list_ex (\<lambda>crd. list_ex (\<lambda>line. Contains line crd) (GetNonEmptyLines output)) crds, p'))"

definition IsPrometheusCRDsInstalled :: "os \<Rightarrow> process \<Rightarrow> bool \<times> process" where
  "IsPrometheusCRDsInstalled = crds_installed
     [''prometheuses.monitoring.coreos.com'', ''prometheusrules.monitoring.coreos.com'', ''prometheusagents.monitoring.coreos.com'']
     [''kubectl'', ''get'', ''crds'', ''-o'', ''custom-columns=NAME:.metadata.name'']"

definition IsCertManagerCRDsInstalled :: "os \<Rightarrow> process \<Rightarrow> bool \<times> process" where
  "IsCertManagerCRDsInstalled = crds_installed
     [''certificates.cert-manager.io'', ''issuers.cert-manager.io'', ''clusterissuers.cert-manager.io'',
      ''certificaterequests.cert-manager.io'', ''orders.acme.cert-manager.io'', ''challenges.acme.cert-manager.io'']
     [''kubectl'', ''get'', ''crds'']"

definition LoadImageToKindClusterWithName :: "os \<Rightarrow> string \<Rightarrow> process \<Rightarrow> string option \<times> process" where
  "LoadImageToKindClusterWithName os name p =
     (let cluster = (case os_LookupEnv os ''KIND_CLUSTER'' of Some v \<Rightarrow> v | None \<Rightarrow> ''kind'')
      in case Run os [''kind'', ''load'', ''docker-image'', name, ''--name'', cluster] p of ((_, err), p') \<Rightarrow> (err, p'))"

section \<open>Uncommenting\<close>

text \<open>The error and the file written, if any. Writing to a \<^verbatim>\<open>bytes.Buffer\<close> never fails.\<close>

definition UncommentCode :: "os \<Rightarrow> string \<Rightarrow> string \<Rightarrow> string \<Rightarrow> string option \<times> (string \<times> string) option" where
  "UncommentCode os filename target pre =
     (case os_ReadFile os filename of
        Inl err \<Rightarrow> (Some err, None)
      | Inr content \<Rightarrow>
          (case Index content target of
             None \<Rightarrow> (Some (''unable to find the code '' @ target @ '' to be uncomment''), None)
           | Some idx \<Rightarrow>
               (case Scan target of
                  [] \<Rightarrow> (None, None)
                | ls \<Rightarrow> (let out = take idx content @ join [nl] (map (\<lambda>l. TrimPrefix l pre) ls) @ drop (idx + length target) content
                        in (os_WriteFile os filename out, Some (filename, out))))))"

section \<open>Lemmas\<close>

lemma Index_Some_iff:
  "Index s t = Some i \<longleftrightarrow> i \<le> length s \<and> take (length t) (drop i s) = t \<and> (\<forall>j<i. take (length t) (drop j s) \<noteq> t)"
proof (induction s arbitrary: i)
  case Nil
  then show ?case by (subst Index.simps) auto
next
  case (Cons c s)
  show ?case
  proof (cases "take (length t) (c # s) = t")
    case True
    then show ?thesis by (subst Index.simps) (auto simp: All_less_Suc2 dest: spec [of _ 0])
  next
    case False
    have "Index (c # s) t = Some i \<longleftrightarrow> (\<exists>k. i = Suc k \<and> Index s t = Some k)"
      by (subst Index.simps) (use False in auto)
    also have "\<dots> \<longleftrightarrow> i \<le> length (c # s) \<and> take (length t) (drop i (c # s)) = t \<and> (\<forall>j<i. take (length t) (drop j (c # s)) \<noteq> t)"
      using False by (cases i) (simp_all add: Cons.IH All_less_Suc2)
    finally show ?thesis .
  qed
qed

lemma split_lines_nonempty [simp]: "split_lines s \<noteq> []"
  by (induction s) (auto split: list.splits)

lemma split_lines_plain: "nl \<notin> set l \<Longrightarrow> split_lines l = [l]"
  by (induction l) auto

lemma split_lines_append: "nl \<notin> set l \<Longrightarrow> split_lines (l @ nl # s) = l # split_lines s"
  by (induction l) auto

lemma split_join:
  assumes "ls \<noteq> []" and "\<forall>l\<in>set ls. nl \<notin> set l"
  shows "split_lines (join [nl] ls) = ls"
  using assms by (induction "[nl]" ls rule: join.induct) (simp_all add: split_lines_plain split_lines_append)

text \<open>A line the scanner returns as it is.\<close>

definition clean_line :: "string \<Rightarrow> bool" where
  "clean_line l \<longleftrightarrow> nl \<notin> set l \<and> (l = [] \<or> List.last l \<noteq> cr) \<and> length l < MaxScanTokenSize"

lemma scan_clean:
  "\<forall>l\<in>set ls. clean_line l \<Longrightarrow> ls = [] \<or> List.last ls \<noteq> [] \<Longrightarrow> scan_tokens ls = ls"
  by (induction ls rule: scan_tokens.induct) (auto simp: clean_line_def dropCR_def)

lemma Scan_join:
  assumes "\<forall>l\<in>set ls. clean_line l" and "ls \<noteq> []" and "List.last ls \<noteq> []"
  shows "Scan (join [nl] ls) = ls"
  using assms by (simp add: Scan_def split_join scan_clean clean_line_def)

lemma scan_tokens_Cons:
  "ls \<noteq> [] \<Longrightarrow> scan_tokens (l # ls) = (if length l \<ge> MaxScanTokenSize then [] else dropCR l # scan_tokens ls)"
  by (cases ls) simp_all

lemma scan_clean_append: "\<forall>l\<in>set ls. clean_line l \<Longrightarrow> xs \<noteq> [] \<Longrightarrow> scan_tokens (ls @ xs) = ls @ scan_tokens xs"
  by (induction ls) (auto simp: clean_line_def dropCR_def scan_tokens_Cons)

text \<open>A target that ends in a newline loses it, and a line that does not fit the scanner's buffer is
  lost with everything after it; neither is reported.\<close>

lemma Scan_trailing_newline:
  assumes "\<forall>l\<in>set ls. clean_line l" and "ls \<noteq> []"
  shows "Scan (join [nl] (ls @ [[]])) = ls"
proof -
  have "scan_tokens (ls @ [[]]) = ls" using scan_clean_append [OF assms(1), of "[[]]"] by simp
  then show ?thesis using assms by (simp add: Scan_def split_join clean_line_def)
qed

lemma Scan_long_line:
  assumes "\<forall>l\<in>set ls. clean_line l" and "nl \<notin> set big" and "MaxScanTokenSize \<le> length big" and "\<forall>l\<in>set rest. nl \<notin> set l"
  shows "Scan (join [nl] (ls @ big # rest)) = ls"
proof -
  have "scan_tokens (big # rest) = []" using assms(3) by (cases rest) simp_all
  then have "scan_tokens (ls @ big # rest) = ls" using scan_clean_append [OF assms(1), of "big # rest"] by simp
  moreover have "split_lines (join [nl] (ls @ big # rest)) = ls @ big # rest"
    using assms by (intro split_join) (auto simp: clean_line_def)
  ultimately show ?thesis by (simp add: Scan_def)
qed

lemma TrimPrefix_append [simp]: "TrimPrefix (p @ s) p = s"
  by (simp add: TrimPrefix_def)

lemma UncommentCode_found:
  assumes "os_ReadFile os f = Inr (pre @ target @ post)" and "\<forall>j<length pre. take (length target) (drop j (pre @ target @ post)) \<noteq> target"
    and "Scan target = ls" and "ls \<noteq> []"
  shows "UncommentCode os f target p =
    (let out = pre @ join [nl] (map (\<lambda>l. TrimPrefix l p) ls) @ post in (os_WriteFile os f out, Some (f, out)))"
proof -
  have "Index (pre @ target @ post) target = Some (length pre)" using assms(2) by (simp add: Index_Some_iff)
  then show ?thesis using assms by (cases ls) (simp_all add: UncommentCode_def)
qed

text \<open>C40. Uncommenting restores code that was commented out: when a file contains a block of lines that all
  carry the comment prefix, and the block does not occur earlier in the file, \<^verbatim>\<open>UncommentCode\<close> writes the
  file with the prefix removed from each line of the block and everything else as it was. Each line
  must be free of a carriage return at its end and shorter than the scanner's buffer, and the block
  must not end in a newline.\<close>

theorem UncommentCode_restores:
  assumes "os_ReadFile os f = Inr (pre @ target @ post)"
    and "target = join [nl] (map (\<lambda>l. p @ l) ls)" and "\<forall>l\<in>set ls. clean_line (p @ l)" and "ls \<noteq> []" and "p @ List.last ls \<noteq> []"
    and "\<forall>j<length pre. take (length target) (drop j (pre @ target @ post)) \<noteq> target"
  shows "UncommentCode os f target p = (os_WriteFile os f (pre @ join [nl] ls @ post), Some (f, pre @ join [nl] ls @ post))"
proof -
  have "Scan target = map (\<lambda>l. p @ l) ls"
    unfolding assms(2) using assms(3-5) by (intro Scan_join) (auto simp: last_map)
  from UncommentCode_found [OF assms(1,6) this] show ?thesis using assms(4) by (simp add: comp_def Let_def)
qed

definition demo_os :: os where
  "demo_os = \<lparr>os_Getwd = (\<lambda>wd. (wd, None)), os_Chdir = (\<lambda>_. None), os_Environ = [], os_LookupEnv = (\<lambda>_. None),
     os_CombinedOutput = (\<lambda>_ _. ('''', None)),
     os_ReadFile = (\<lambda>_. Inr (''a:'' @ [nl] @ ''#- b'' @ [nl] @ ''#- c'' @ [nl] @ ''d'')), os_WriteFile = (\<lambda>_ _. None)\<rparr>"

theorem UncommentCode_restores_witness:
  "UncommentCode demo_os ''kustomization.yaml'' (''#- b'' @ [nl] @ ''#- c'') ''#'' =
     (None, Some (''kustomization.yaml'', ''a:'' @ [nl] @ ''- b'' @ [nl] @ ''- c'' @ [nl] @ ''d''))"
proof -
  have "UncommentCode demo_os ''kustomization.yaml'' (''#- b'' @ [nl] @ ''#- c'') ''#'' =
    (os_WriteFile demo_os ''kustomization.yaml'' ((''a:'' @ [nl]) @ join [nl] [''- b'', ''- c''] @ ([nl] @ ''d'')),
     Some (''kustomization.yaml'', (''a:'' @ [nl]) @ join [nl] [''- b'', ''- c''] @ ([nl] @ ''d'')))"
    by (rule UncommentCode_restores)
      (simp_all add: demo_os_def clean_line_def nl_def cr_def MaxScanTokenSize_def All_less_Suc)
  then show ?thesis by (simp add: demo_os_def)
qed

text \<open>Commands run in the project directory although the tests start in \<^verbatim>\<open>test/e2e\<close>, and leave the process
  there.\<close>

lemma remove_all_suffix:
  assumes "old \<noteq> []" and "\<forall>j<length s. take (length old) (drop j (s @ old)) \<noteq> old"
  shows "remove_all old (s @ old) = s"
  using assms(2)
proof (induction s)
  case Nil
  then show ?case using assms(1) by (cases old) (simp_all add: remove_all.simps [of _ "_ # _"] remove_all.simps [of _ "[]"])
next
  case (Cons c s)
  have "take (length old) (c # s @ old) \<noteq> old" using Cons.prems by (auto dest: spec [of _ 0])
  moreover have "\<forall>j<length s. take (length old) (drop j (s @ old)) \<noteq> old" using Cons.prems by (auto dest: spec [of _ "Suc _"])
  ultimately show ?case using Cons.IH by (simp add: remove_all.simps [of _ "c # _"])
qed

lemma Run_in_project:
  assumes "os_Getwd os (pr_wd p) = (project @ ''/test/e2e'', None)" and "os_Chdir os project = None"
    and "\<forall>j<length project. take (length ''/test/e2e'') (drop j (project @ ''/test/e2e'')) \<noteq> ''/test/e2e''"
  shows "pr_wd (snd (Run os args p)) = project" and "map cmd_Dir (pr_ran (snd (Run os args p))) = map cmd_Dir (pr_ran p) @ [project]"
proof -
  have "remove_all ''/test/e2e'' (project @ ''/test/e2e'') = project" using assms(3) by (intro remove_all_suffix) (simp, assumption)
  then have "fst (GetProjectDir os p) = project" by (simp add: GetProjectDir_def assms(1))
  then show "pr_wd (snd (Run os args p)) = project" and "map cmd_Dir (pr_ran (snd (Run os args p))) = map cmd_Dir (pr_ran p) @ [project]"
    using assms(2) by (simp_all add: Run_def Let_def log_line_def split: prod.splits option.splits)
qed

end
