(* ===== verification/Spec2Isabelle.thy ===== *)
theory Spec2Isabelle
  imports Cluster HotPath Startup TargetApp DeepCopy Synthetic TestUtils
begin

text \<open>
  Verification of the Agentic Autoscaler, a Kubernetes operator in Go that scales Deployments ahead
  of their load. This header says what the program consists of, which theory models which part, what
  is proved, and what is left out.

  \<^bold>\<open>The program.\<close> A custom resource names a Deployment and bounds. On the \<^emph>\<open>hot path\<close> the reconciler
  (\<^verbatim>\<open>internal/controller\<close>) reads the load from Prometheus, asks the Forecast Service for a prediction
  (\<^verbatim>\<open>internal/adapters\<close>), turns it into a replica count under clamps, a step cap and cooldowns
  (\<^verbatim>\<open>internal/decision\<close>), patches the scale subresource and writes the status. On the \<^emph>\<open>cold path\<close> one
  classifier goroutine per resource (\<^verbatim>\<open>internal/classifier\<close>), supervised by a manager, classifies a day
  of history and writes tuned parameters into the same status. A third goroutine
  (\<^verbatim>\<open>internal/explainer\<close>) has an LLM explain each scaling in an Event. An admission webhook checks
  resources, the configuration comes from environment variables, and \<^verbatim>\<open>cmd/controller/main.go\<close> wires it
  all. \<^verbatim>\<open>target-app\<close> is the instrumented server that is scaled in experiments; \<^verbatim>\<open>hack/synthetic\<close> and
  \<^verbatim>\<open>test/utils\<close> serve the test suites.

  \<^bold>\<open>Foundations.\<close>
  \<^item> \<open>Prelude\<close>: \<^verbatim>\<open>int32\<close> and \<^verbatim>\<open>time.Duration\<close> as words that wrap, \<^verbatim>\<open>time.Time\<close>, shared lemmas.
  \<^item> \<open>Float64\<close>: \<^verbatim>\<open>float64\<close> as not-a-number, infinities and rationals, every operation the exact result
    rounded to nearest even; the sign of zero is not kept. The laws of rounding are the locale
    \<open>rounding\<close>. The conversion of a float that does not fit an integer is the platform's
    (\<open>go_platform\<close>).
  \<^item> \<open>GoText\<close>, \<open>ParseFloat\<close>, \<open>Utf8\<close>, \<open>Json\<close>, \<open>Http\<close>: the parts of \<^verbatim>\<open>strconv\<close>, \<^verbatim>\<open>fmt\<close>, \<^verbatim>\<open>unicode/utf8\<close>,
    \<^verbatim>\<open>encoding/json\<close>, \<^verbatim>\<open>net/url\<close> and \<^verbatim>\<open>net/http\<close> the code uses, with their round trips.
  \<^item> \<open>FloatPrint\<close>: \<^verbatim>\<open>%g\<close>, and that every \<^verbatim>\<open>float64\<close> it prints is parsed back to the same value.

  \<^bold>\<open>Components.\<close>
  \<^item> \<open>Reasoning\<close> (\<^verbatim>\<open>internal/reasoning\<close>, \<^verbatim>\<open>internal/promql\<close>): tokens, event reasons, queries.
  \<^item> \<open>Api\<close> (\<^verbatim>\<open>api/v1alpha1\<close>): the resource as records. \<open>DeepCopy\<close> (\<^verbatim>\<open>zz_generated.deepcopy.go\<close>): the same
    types with pointers and slices in a store, the generated copies, and their contract as the locale
    \<open>deep_copier\<close>, closed under pairs, lists, pointers and slices.
  \<^item> \<open>StateStore\<close> (\<^verbatim>\<open>decision/state.go\<close>): ring buffer, median and the per-resource store, with the store's
    contract as the locale \<open>keyed_store\<close>.
  \<^item> \<open>Decision\<close> (\<^verbatim>\<open>decision/decision.go\<close>): parameters, recommendation, clamp, step cap and cooldown, which
    refine the integer specification \<open>decide_spec\<close>.
  \<^item> \<open>Config\<close>, \<open>ConfigSummary\<close> (\<^verbatim>\<open>internal/config\<close>): loading, validation and the logged summary.
  \<^item> \<open>Webhook\<close> (\<^verbatim>\<open>internal/webhook/v1alpha1\<close>): admission.
  \<^item> \<open>Features\<close>, \<open>Classify\<close> (\<^verbatim>\<open>classifier/features.go\<close>, \<^verbatim>\<open>classify.go\<close>, \<^verbatim>\<open>confidence.go\<close>, \<^verbatim>\<open>params.go\<close>,
    \<^verbatim>\<open>pipeline.go\<close>): both classification pipelines.
  \<^item> \<open>Channel\<close>, \<open>Interfaces\<close> (\<^verbatim>\<open>controller/interfaces.go\<close>, \<^verbatim>\<open>dropAndPush\<close>): one-slot channels, whose
    contract is the locale \<open>mailbox\<close>, and concurrent pushes as interleavings of their steps, in which
    a \<^verbatim>\<open>select\<close> that is not ready and has no \<^verbatim>\<open>default\<close> has no step.
  \<^item> \<open>Manager\<close> (\<^verbatim>\<open>classifier/manager.go\<close>): the registry of workers, contract \<open>supervisor\<close>; the root context
    and the returns of the goroutines are in \<open>supervised\<close>.
  \<^item> \<open>ClassifierWorker\<close> (\<^verbatim>\<open>classifier/worker.go\<close>): the goroutine as the step relation \<open>wstep\<close>, including
    panics and back-off.
  \<^item> \<open>Metrics\<close>, \<open>Controller\<close>, \<open>ControllerProps\<close> (\<^verbatim>\<open>internal/controller\<close>): \<open>Reconcile\<close>, split at the
    numbered steps of the source, and its theorems; \<open>HotPath\<close> has the specification of a whole
    reconcile over the integers, and that \<open>Reconcile\<close> refines it.
  \<^item> \<open>Adapters\<close> (\<^verbatim>\<open>internal/adapters\<close>): the Prometheus, Forecast Service and Ollama clients.
  \<^item> \<open>Explainer\<close> (\<^verbatim>\<open>internal/explainer\<close>): prompt, trimming and the worker.
  \<^item> \<open>Wiring\<close>, \<open>CommandLine\<close>, \<open>Registration\<close>, \<open>Startup\<close> (\<^verbatim>\<open>cmd/controller/main.go\<close>,
    \<^verbatim>\<open>groupversion_info.go\<close>): what each component is given and where it starts; the flags as \<^verbatim>\<open>flag.Parse\<close>
    reads them; the package initialisers, which fill the scheme and the metrics registry, and the builder
    chains; the whole process as the sequence of its steps, with controller-runtime as a parameter that
    answers them.
  \<^item> \<open>ApiServer\<close>: what the components see of the Kubernetes API server: defaulting, admission, cached
    reads, optimistic locking. The contract of a component that writes statuses is the locale
    \<open>status_writer\<close>, whose instances are the reconciler and the classifier.
  \<^item> \<open>Cluster\<close>: the operator as one labelled transition system of user writes, reconciles,
    classifications, annotation removals, explanations and restarts.
  \<^item> \<open>TargetApp\<close> (\<^verbatim>\<open>target-app\<close>, \<^verbatim>\<open>k6/lib\<close>): \<^verbatim>\<open>main\<close>, configuration, routes, handlers, and concurrent requests
    over the semaphore.
  \<^item> \<open>Synthetic\<close> (\<^verbatim>\<open>hack/synthetic\<close>), \<open>TestUtils\<close> (\<^verbatim>\<open>test/utils\<close>): the fixture generator and the helpers of
    the end-to-end tests.

  \<^bold>\<open>State and effects.\<close> A handler is a function of its inputs, the state it changes (\<open>controller\<close>,
  \<open>manager\<close>, \<open>worker\<close>, \<open>server\<close>) and an environment record whose fields answer its calls: the Kubernetes
  client, Prometheus, the forecaster, the clock, the network. The environment is universally
  quantified, so every theorem covers every combination of answers and errors. Calls that matter
  outside are appended to a trace of \<open>effect\<close>s together with their result; theorems about Events,
  patches and status writes speak about that trace. Errors are values, a panic is an outcome of its
  own.

  \<^bold>\<open>Concurrency.\<close> Where goroutines share a channel or a semaphore each access is a step of its own
  (\<open>pstep\<close>, \<open>sv_step\<close>, \<open>wstep\<close>, \<open>tstep\<close>) and the theorems hold for all interleavings. In \<open>cstep\<close> one reconcile and
  one classification are single steps, but not of the current objects: each read may return any
  version the server has held, as a cache may, and a write takes effect only if the object it was
  computed from is still the stored one, since the API server refuses the others. The controller's
  work queue never runs two reconciles of one resource at once. A restart forgets the process and
  keeps the objects. That a goroutine may change the object it has read without changing the cache is
  the theorem of \<open>DeepCopy\<close>.

  \<^bold>\<open>What is shown.\<close>
  \<^item> Of the operator as a whole (\<open>Cluster\<close>): every patch is safe, no writer destroys the work of another,
    every explanation is about a real scaling, no forecast context is ever sent, and the effective
    parameters follow the precedence of the design and are in range. It starts completely or not at
    all (\<open>Startup\<close>), with a scheme that knows its own kinds and those of client-go.
  \<^item> Of the reconciler: refinement of \<open>hot_path_spec\<close>, convergence under a constant demand, bounded and
    justified patches, cooldowns across any number of reconciles and across restarts, no panic, a loop
    that comes back to a resource that exists when the interval is positive, pauses, outages,
    clean-up after deletion, and what it leaves of the classifier's part of the status.
  \<^item> Of the decision: refinement of \<open>decide_spec\<close>, truthful reasons, the rounding of the
    recommendation.
  \<^item> Of the cold path: published parameters conform to the schema, the two pipelines agree but for the
    ramp rule, the profile is the median by hour, one worker per resource that is not told to stop, one
    signal per rollout, no signal is lost and signalling never blocks, annotations are removed only when
    served.
  \<^item> Of the boundaries: exact admission, validated configuration, its summary read back, queries read
    back, usable forecasts, bounded Events, exact request counters.
  \<^item> Where the code does less than it means to, the theorem states what it does, such as
    \<open>Decision.step_cap_overflow\<close>, \<open>Wiring.nonfinite_history_stops_scaling\<close>,
    \<open>ControllerProps.zero_interval_stops\<close> and \<open>Classify.ramp_without_mean\<close>.

  \<^bold>\<open>Bounds.\<close> The operator-level theorem asks for replica bounds, steps and observed counts within
  \<open>2\<^sup>3\<^sup>0\<close>, so that the \<^verbatim>\<open>int32\<close> sums of the step cap do not wrap; what happens beyond is a theorem of its
  own. Loops of the source are structural recursions, and the searches of \<open>fmt_g\<close> are bounded by the
  exponent range and the 17 digits that identify a \<^verbatim>\<open>float64\<close>, which \<open>FloatPrint\<close> proves to be enough.

  \<^bold>\<open>Not modelled.\<close> Library code is a parameter wherever the program calls it: controller-runtime, the
  Kubernetes client, its scheme, the HTTP transport and server loops, the Prometheus registry, the
  random source, the flags that libraries declare. The clocks that tests substitute (\<^verbatim>\<open>Now\<close>,
  \<^verbatim>\<open>SetNowForTest\<close>) are the clock readings of the environments. The help texts of the metrics are left out.
  JSON is modelled as values, below its byte syntax. The Python Forecast
  Service is behind the wire and answers arbitrarily. Log lines are kept only where they are the
  point: for the explainer, whose level they show, and for start-up.
\<close>

end
